(* ===== verification/Js_Prelude.thy ===== *)
theory Js_Prelude
  imports Main "HOL-Library.List_Lexorder" "HOL-Library.Char_ord" "HOL-Library.Sublist"
begin

text \<open>
  What the TypeScript sources use of their language, and the lemmas every component shares.

  A string is a list of UTF-16 code units; the model keeps the units below 256 (\<^typ>\<open>string\<close>),
  which covers every identifier, number, address and header the modelled code handles.
  White space and lower case follow ECMAScript on that range (so U+00A0 is white space and the
  Latin-1 capitals have a lower case). String comparison is by code unit, which is the
  lexicographic order of \<open>HOL-Library.List_Lexorder\<close> over \<open>HOL-Library.Char_ord\<close>.
  Also here: the "seen set and output list" loop of the sources, and \<open>Array.prototype.sort\<close>
  with a comparator, as a stable insertion sort.
\<close>

named_theorems js_simps \<open>equations of the string and list helpers\<close>

section \<open>Strings\<close>

definition js_ws :: "char \<Rightarrow> bool" where
  "js_ws c = ((of_char c :: nat) \<in> {9, 10, 11, 12, 13, 32, 160})"

definition trim_start :: "string \<Rightarrow> string" where
  "trim_start s = dropWhile js_ws s"

definition trim_end :: "string \<Rightarrow> string" where
  "trim_end s = rev (dropWhile js_ws (rev s))"

definition trim :: "string \<Rightarrow> string" where
  "trim s = trim_end (trim_start s)"

definition lower_char :: "char \<Rightarrow> char" where
  "lower_char c =
     (let n = (of_char c :: nat)
      in if (65 \<le> n \<and> n \<le> 90) \<or> (192 \<le> n \<and> n \<le> 222 \<and> n \<noteq> 215)
         then char_of (n + 32) else c)"

definition to_lower :: "string \<Rightarrow> string" where
  "to_lower s = map lower_char s"

definition is_digit :: "char \<Rightarrow> bool" where
  "is_digit c = (48 \<le> (of_char c :: nat) \<and> (of_char c :: nat) \<le> 57)"

text \<open>\<open>indexOf\<close> of a one-unit string; \<open>None\<close> is the -1 of the source.\<close>

fun index_of :: "char \<Rightarrow> string \<Rightarrow> nat option" where
  "index_of c [] = None"
| "index_of c (x # xs) = (if x = c then Some 0 else map_option Suc (index_of c xs))"

text \<open>\<open>s.includes(part)\<close>.\<close>

fun str_includes :: "string \<Rightarrow> string \<Rightarrow> bool" where
  "str_includes part [] = (part = [])"
| "str_includes part (x # xs) = (prefix part (x # xs) \<or> str_includes part xs)"

text \<open>Decimal value of a digit string (\<open>Number.parseInt\<close> on digits only).\<close>

definition digit_val :: "char \<Rightarrow> nat" where
  "digit_val c = of_char c - 48"

definition digits_val :: "string \<Rightarrow> nat" where
  "digits_val s = foldl (\<lambda>n c. 10 * n + digit_val c) 0 s"

section \<open>First occurrences: the seen set and output list\<close>

text \<open>
  The sources walk a list with a set of seen keys and push an element when its key is new.
  The list of kept elements carries the seen set.
\<close>

fun uniq_by :: "('a \<Rightarrow> 'k) \<Rightarrow> 'k list \<Rightarrow> 'a list \<Rightarrow> 'a list" where
  "uniq_by key seen [] = []"
| "uniq_by key seen (x # xs) =
     (if key x \<in> set seen then uniq_by key seen xs
      else x # uniq_by key (key x # seen) xs)"

abbreviation uniq :: "'a list \<Rightarrow> 'a list" where
  "uniq \<equiv> uniq_by (\<lambda>x. x) []"

section \<open>Array.prototype.sort with a comparator\<close>

text \<open>
  The engine's sort is stable; an element goes before another one only when the comparator
  returns a negative number for the pair.
\<close>

fun js_insert :: "('a \<Rightarrow> 'a \<Rightarrow> int) \<Rightarrow> 'a \<Rightarrow> 'a list \<Rightarrow> 'a list" where
  "js_insert cmp x [] = [x]"
| "js_insert cmp x (y # ys) = (if cmp x y < 0 then x # y # ys else y # js_insert cmp x ys)"

definition js_sort :: "('a \<Rightarrow> 'a \<Rightarrow> int) \<Rightarrow> 'a list \<Rightarrow> 'a list" where
  "js_sort cmp xs = foldl (\<lambda>acc x. js_insert cmp x acc) [] xs"

section \<open>Lemmas on strings\<close>

lemma trim_Nil [simp]: "trim [] = []"
  by (simp add: trim_def trim_start_def trim_end_def)

lemma to_lower_Nil [simp]: "to_lower [] = []"
  by (simp add: to_lower_def)

lemma to_lower_eq_Nil [simp]: "to_lower s = [] \<longleftrightarrow> s = []"
  by (simp add: to_lower_def)

lemma length_to_lower [simp]: "length (to_lower s) = length s"
  by (simp add: to_lower_def)

lemma to_lower_take: "to_lower (take n s) = take n (to_lower s)"
  by (simp add: to_lower_def take_map)

lemma of_char_less_256: "(of_char c :: nat) < 256"
  using nat_of_char_less_256 by blast

lemma of_char_char_of_less: "n < 256 \<Longrightarrow> (of_char (char_of n :: char) :: nat) = n"
  by (simp add: of_char_of)

lemma of_char_lower: "(of_char (lower_char c) :: nat) =
  (let n = (of_char c :: nat)
   in if (65 \<le> n \<and> n \<le> 90) \<or> (192 \<le> n \<and> n \<le> 222 \<and> n \<noteq> 215) then n + 32 else n)"
  by (auto simp: lower_char_def Let_def of_char_char_of_less)

lemma js_ws_lower [simp]: "js_ws (lower_char c) = js_ws c"
  using of_char_less_256 [of c] by (auto simp: js_ws_def of_char_lower Let_def)

lemma lower_char_idem [simp]: "lower_char (lower_char c) = lower_char c"
proof -
  let ?n = "of_char (lower_char c) :: nat"
  have "\<not> ((65 \<le> ?n \<and> ?n \<le> 90) \<or> (192 \<le> ?n \<and> ?n \<le> 222 \<and> ?n \<noteq> 215))"
    by (auto simp: of_char_lower Let_def)
  then show ?thesis by (subst lower_char_def) (auto simp: Let_def)
qed

lemma to_lower_idem [simp]: "to_lower (to_lower s) = to_lower s"
  by (simp add: to_lower_def)

lemma char_eq_of_char: "c = d \<longleftrightarrow> (of_char c :: nat) = of_char d"
  by (metis char_of_char)

lemma lower_char_at: "lower_char c = CHR ''@'' \<longleftrightarrow> c = CHR ''@''"
proof -
  have "(of_char (lower_char c) :: nat) = 64 \<longleftrightarrow> (of_char c :: nat) = 64"
    by (auto simp: of_char_lower Let_def)
  then show ?thesis by (simp add: char_eq_of_char)
qed

lemma index_of_at_lower [simp]: "index_of CHR ''@'' (to_lower s) = index_of CHR ''@'' s"
  by (induction s) (simp_all add: to_lower_def lower_char_at)

lemma dropWhile_ws_lower: "dropWhile js_ws (map lower_char s) = map lower_char (dropWhile js_ws s)"
  by (simp add: dropWhile_map o_def)

lemma trim_lower: "trim (to_lower s) = to_lower (trim s)"
  by (simp add: trim_def trim_start_def trim_end_def to_lower_def dropWhile_ws_lower rev_map)

lemma trim_start_no_ws: "s = [] \<or> \<not> js_ws (hd s) \<Longrightarrow> trim_start s = s"
  by (cases s) (auto simp: trim_start_def)

lemma trim_end_no_ws: "s = [] \<or> \<not> js_ws (last s) \<Longrightarrow> trim_end s = s"
  by (cases s rule: rev_cases) (auto simp: trim_end_def)

lemma hd_trim_start: "trim_start s \<noteq> [] \<Longrightarrow> \<not> js_ws (hd (trim_start s))"
  unfolding trim_start_def by (rule hd_dropWhile)

lemma trim_end_prefix: "prefix (trim_end s) s"
proof -
  have "rev (takeWhile js_ws (rev s) @ dropWhile js_ws (rev s)) = s"
    by (simp only: takeWhile_dropWhile_id rev_rev_ident)
  then have "s = trim_end s @ rev (takeWhile js_ws (rev s))"
    by (simp add: trim_end_def del: takeWhile_dropWhile_id)
  then show ?thesis by (rule prefixI)
qed

lemma hd_trim: "trim s \<noteq> [] \<Longrightarrow> \<not> js_ws (hd (trim s))"
proof -
  assume ne: "trim s \<noteq> []"
  have p: "prefix (trim s) (trim_start s)" unfolding trim_def by (rule trim_end_prefix)
  from ne p have "trim_start s \<noteq> []" by (auto simp: prefix_def)
  moreover from ne p have "hd (trim s) = hd (trim_start s)" by (auto simp: prefix_def)
  ultimately show ?thesis by (simp add: hd_trim_start)
qed

lemma last_trim: "trim s \<noteq> [] \<Longrightarrow> \<not> js_ws (last (trim s))"
proof -
  assume ne: "trim s \<noteq> []"
  then have d: "dropWhile js_ws (rev (trim_start s)) \<noteq> []" by (simp add: trim_def trim_end_def)
  then have "\<not> js_ws (hd (dropWhile js_ws (rev (trim_start s))))" by (rule hd_dropWhile)
  with d show ?thesis by (simp add: trim_def trim_end_def last_rev)
qed

lemma trim_trim [simp]: "trim (trim s) = trim s"
proof (cases "trim s = []")
  case False
  then have "trim_start (trim s) = trim s" using hd_trim trim_start_no_ws by blast
  moreover have "trim_end (trim s) = trim s" using False last_trim trim_end_no_ws by blast
  ultimately show ?thesis by (simp add: trim_def)
qed simp

lemma trim_nonempty_hd: "s \<noteq> [] \<Longrightarrow> \<not> js_ws (hd s) \<Longrightarrow> trim s \<noteq> []"
  by (cases s) (auto simp: trim_def trim_start_def trim_end_def)

lemma index_of_Some_take: "index_of c s = Some n \<Longrightarrow> n < length s \<and> c \<notin> set (take n s)"
  by (induction s arbitrary: n) (auto split: if_splits)

lemma index_of_None [simp]: "index_of c s = None \<longleftrightarrow> c \<notin> set s"
  by (induction s) auto

section \<open>Lemmas on first occurrences\<close>

lemma uniq_by_subset: "set (uniq_by key seen xs) \<subseteq> set xs"
  by (induction xs arbitrary: seen) auto

lemma uniq_by_fresh: "x \<in> set (uniq_by key seen xs) \<Longrightarrow> key x \<notin> set seen"
  by (induction xs arbitrary: seen) (fastforce split: if_splits)+

lemma uniq_by_distinct: "distinct (map key (uniq_by key seen xs))"
  by (induction xs arbitrary: seen) (auto dest: uniq_by_fresh)

lemma uniq_by_keys: "key ` set (uniq_by key seen xs) = key ` set xs - set seen"
  by (induction xs arbitrary: seen) auto

lemma set_uniq_by_id [simp]: "set (uniq_by (\<lambda>x. x) seen xs) = set xs - set seen"
  using uniq_by_keys [of "\<lambda>x. x" seen xs] by simp

lemma distinct_uniq [simp]: "distinct (uniq_by (\<lambda>x. x) seen xs)"
  using uniq_by_distinct [of "\<lambda>x. x" seen xs] by simp

lemma uniq_by_subseq: "subseq (uniq_by key seen xs) xs"
  by (induction xs arbitrary: seen) auto

lemma uniq_by_ident: "distinct (map key xs) \<Longrightarrow> key ` set xs \<inter> set seen = {} \<Longrightarrow> uniq_by key seen xs = xs"
  by (induction xs arbitrary: seen) auto

lemma uniq_by_eq_Nil: "uniq_by key seen xs = [] \<longleftrightarrow> key ` set xs \<subseteq> set seen"
  by (induction xs arbitrary: seen) auto

text \<open>Reading back an index write, in range or not.\<close>

lemma nth_upd: "xs[i := x] ! j = (if i = j \<and> j < length xs then x else xs ! j)"
  by (cases "i < length xs") (auto simp: nth_list_update list_update_beyond)

section \<open>The sort, for a lawful comparator\<close>

lemma set_js_insert [simp]: "set (js_insert cmp x ys) = insert x (set ys)"
  by (induction ys) auto

lemma length_js_insert [simp]: "length (js_insert cmp x ys) = Suc (length ys)"
  by (induction ys) auto

lemma js_sort_snoc: "js_sort cmp (xs @ [x]) = js_insert cmp x (js_sort cmp xs)"
  by (simp add: js_sort_def)

lemma js_sort_Nil [simp]: "js_sort cmp [] = []"
  by (simp add: js_sort_def)

lemma set_js_sort [simp]: "set (js_sort cmp xs) = set xs"
  by (induction xs rule: rev_induct) (simp_all add: js_sort_snoc)

lemma length_js_sort [simp]: "length (js_sort cmp xs) = length xs"
  by (induction xs rule: rev_induct) (simp_all add: js_sort_snoc)

lemma js_sort_eq_Nil [simp]: "js_sort cmp xs = [] \<longleftrightarrow> xs = []"
  by (metis length_0_conv length_js_sort)

lemma js_sort_single [simp]: "js_sort cmp [x] = [x]"
  by (simp add: js_sort_def)

text \<open>The contract a comparator meets when it is the sign of a total preorder.\<close>

locale js_comparator =
  fixes cmp :: "'a \<Rightarrow> 'a \<Rightarrow> int"
  assumes cmp_flip: "cmp x y < 0 \<longleftrightarrow> 0 < cmp y x"
    and cmp_trans: "cmp x y \<le> 0 \<Longrightarrow> cmp y z \<le> 0 \<Longrightarrow> cmp x z \<le> 0"
begin

lemma cmp_total: "cmp x y < 0 \<or> cmp y x \<le> 0"
  using cmp_flip [of x y] by linarith

lemma cmp_sign: "cmp x y < 0 \<Longrightarrow> 0 < cmp y x"
  using cmp_flip by blast

lemma insert_sorted: "sorted_wrt (\<lambda>a b. cmp a b \<le> 0) ys \<Longrightarrow>
  sorted_wrt (\<lambda>a b. cmp a b \<le> 0) (js_insert cmp x ys)"
proof (induction ys)
  case (Cons y ys)
  show ?case
  proof (cases "cmp x y < 0")
    case True
    then have "cmp x y \<le> 0" by simp
    with Cons.prems True show ?thesis by (auto intro: cmp_trans [of x y])
  next
    case False
    then have "cmp y x \<le> 0" using cmp_total by blast
    with Cons False show ?thesis by simp
  qed
qed simp

lemma sort_sorted: "sorted_wrt (\<lambda>a b. cmp a b \<le> 0) (js_sort cmp xs)"
  by (induction xs rule: rev_induct) (simp_all add: js_sort_snoc insert_sorted)

lemma sort_head_least: "js_sort cmp xs = x # r \<Longrightarrow> y \<in> set xs \<Longrightarrow> x = y \<or> cmp x y \<le> 0"
proof -
  assume eq: "js_sort cmp xs = x # r" and y: "y \<in> set xs"
  from y have "y \<in> set (js_sort cmp xs)" by simp
  then have "y = x \<or> y \<in> set r" by (simp add: eq)
  moreover have "sorted_wrt (\<lambda>a b. cmp a b \<le> 0) (x # r)" using sort_sorted [of xs] by (simp add: eq)
  ultimately show "x = y \<or> cmp x y \<le> 0" by auto
qed

text \<open>Stability: the elements of one class keep the order of the input.\<close>

lemma insert_stable:
  assumes "sorted_wrt (\<lambda>a b. cmp a b \<le> 0) ys"
  shows "filter (\<lambda>a. cmp a z = 0 \<and> cmp z a = 0) (js_insert cmp x ys)
       = filter (\<lambda>a. cmp a z = 0 \<and> cmp z a = 0) ys
         @ (if cmp x z = 0 \<and> cmp z x = 0 then [x] else [])"
  using assms
proof (induction ys)
  case (Cons y ys)
  show ?case
  proof (cases "cmp x y < 0")
    case True
    have none: "filter (\<lambda>a. cmp a z = 0 \<and> cmp z a = 0) (y # ys) = []"
      if xz: "cmp x z = 0" "cmp z x = 0"
    proof -
      have "\<not> cmp a z = 0" if "a \<in> set (y # ys)" for a
      proof
        assume az: "cmp a z = 0"
        from that Cons.prems have ya: "a = y \<or> cmp y a \<le> 0" by auto
        from az xz have "cmp a x \<le> 0" using cmp_trans [of a z x] by simp
        with ya have "cmp y x \<le> 0" using cmp_trans [of y a x] by auto
        with cmp_sign [OF True] show False by simp
      qed
      then show ?thesis by (simp add: filter_empty_conv)
    qed
    show ?thesis
    proof (cases "cmp x z = 0 \<and> cmp z x = 0")
      case xz: True
      then show ?thesis using True none by simp
    next
      case xz: False
      then show ?thesis using True by auto
    qed
  next
    case False
    then show ?thesis using Cons by auto
  qed
qed simp

lemma sort_stable:
  "filter (\<lambda>a. cmp a z = 0 \<and> cmp z a = 0) (js_sort cmp xs)
   = filter (\<lambda>a. cmp a z = 0 \<and> cmp z a = 0) xs"
  by (induction xs rule: rev_induct)
     (simp_all add: js_sort_snoc insert_stable sort_sorted)

end

end
