(* ===== verification/Js_Text.thy ===== *)
theory Js_Text
  imports Js_Prelude
begin

text \<open>
  Text the sources produce with the standard library: decimal numbers and \<open>padStart\<close>,
  \<open>JSON.stringify\<close> of a string, \<open>encodeURIComponent\<close>, \<open>replaceAll\<close> with a string
  pattern, and the UTC fields of a \<open>Date\<close>. A \<open>Date\<close> is its time value in milliseconds
  (\<^typ>\<open>int\<close>); every date of the modelled code is valid, an absent one is \<open>None\<close>.
\<close>

section \<open>Numbers\<close>

fun nat_digits :: "nat \<Rightarrow> string" where
  "nat_digits n =
     (if n < 10 then [char_of (48 + n)] else nat_digits (n div 10) @ [char_of (48 + n mod 10)])"

declare nat_digits.simps [simp del]

definition int_str :: "int \<Rightarrow> string" where
  "int_str i = (if i < 0 then ''-'' @ nat_digits (nat (- i)) else nat_digits (nat i))"

definition pad_start :: "nat \<Rightarrow> string \<Rightarrow> string" where
  "pad_start n s = replicate (n - length s) CHR ''0'' @ s"

section \<open>JSON strings, URI components\<close>

definition hex_digit :: "nat \<Rightarrow> char" where
  "hex_digit n = (if n < 10 then char_of (48 + n) else char_of (87 + n))"

definition upper_hex :: "nat \<Rightarrow> char" where
  "upper_hex n = (if n < 10 then char_of (48 + n) else char_of (55 + n))"

definition json_char :: "char \<Rightarrow> string" where
  "json_char c =
     (let n = (of_char c :: nat) in
      if n = 34 then [CHR 0x5C, CHR 0x22]
      else if n = 92 then [CHR 0x5C, CHR 0x5C]
      else if n = 8 then [CHR 0x5C, CHR ''b'']
      else if n = 9 then [CHR 0x5C, CHR ''t'']
      else if n = 10 then [CHR 0x5C, CHR ''n'']
      else if n = 12 then [CHR 0x5C, CHR ''f'']
      else if n = 13 then [CHR 0x5C, CHR ''r'']
      else if n < 32 then [CHR 0x5C, CHR ''u'', CHR ''0'', CHR ''0'',
                           hex_digit (n div 16), hex_digit (n mod 16)]
      else [c])"

definition json_escape :: "string \<Rightarrow> string" where
  "json_escape s = concat (map json_char s)"

definition json_string :: "string \<Rightarrow> string" where
  "json_string s = [CHR 0x22] @ json_escape s @ [CHR 0x22]"

definition uri_unreserved :: "char \<Rightarrow> bool" where
  "uri_unreserved c =
     (let n = (of_char c :: nat) in
      (48 \<le> n \<and> n \<le> 57) \<or> (65 \<le> n \<and> n \<le> 90) \<or> (97 \<le> n \<and> n \<le> 122)
      \<or> c \<in> set ''-_.!~*'' \<or> n = 39 \<or> n = 40 \<or> n = 41)"

definition pct :: "nat \<Rightarrow> string" where
  "pct b = [CHR ''%'', upper_hex (b div 16), upper_hex (b mod 16)]"

definition uri_char :: "char \<Rightarrow> string" where
  "uri_char c =
     (let n = (of_char c :: nat) in
      if uri_unreserved c then [c]
      else if n < 128 then pct n
      else pct (192 + n div 64) @ pct (128 + n mod 64))"

definition encode_uri_component :: "string \<Rightarrow> string" where
  "encode_uri_component s = concat (map uri_char s)"

section \<open>replaceAll with a string pattern\<close>

text \<open>
  A \<open>$\<close> in the replacement is read as \<open>GetSubstitution\<close> reads it: \<open>$$\<close>, \<open>$&\<close>,
  \<open>$`\<close> and \<open>$'\<close> expand, anything else stands for itself. \<open>pre\<close> and \<open>post\<close> are the
  parts of the subject around the match.
\<close>

fun expand_repl :: "string \<Rightarrow> string \<Rightarrow> string \<Rightarrow> string \<Rightarrow> string" where
  "expand_repl pre pat post [] = []"
| "expand_repl pre pat post [c] = [c]"
| "expand_repl pre pat post (c # d # r) =
     (if c = CHR ''$'' \<and> d = CHR ''$'' then CHR ''$'' # expand_repl pre pat post r
      else if c = CHR ''$'' \<and> d = CHR 0x26 then pat @ expand_repl pre pat post r
      else if c = CHR ''$'' \<and> d = CHR 0x60 then pre @ expand_repl pre pat post r
      else if c = CHR ''$'' \<and> d = CHR 0x27 then post @ expand_repl pre pat post r
      else c # expand_repl pre pat post (d # r))"

text \<open>
  The scan of \<open>replaceAll\<close>: \<open>done\<close> is the part of the subject already passed, \<open>skip\<close> the
  units of the current match still to pass over. Patterns here are never empty.
\<close>

fun replace_scan :: "string \<Rightarrow> string \<Rightarrow> string \<Rightarrow> nat \<Rightarrow> string \<Rightarrow> string" where
  "replace_scan pat repl passed skip [] = []"
| "replace_scan pat repl passed (Suc k) (c # cs) = replace_scan pat repl (passed @ [c]) k cs"
| "replace_scan pat repl passed 0 (c # cs) =
     (if prefix pat (c # cs)
      then expand_repl passed pat (drop (length pat) (c # cs)) repl
           @ replace_scan pat repl (passed @ [c]) (length pat - 1) cs
      else c # replace_scan pat repl (passed @ [c]) 0 cs)"

definition replace_all :: "string \<Rightarrow> string \<Rightarrow> string \<Rightarrow> string" where
  "replace_all subject pat repl = replace_scan pat repl [] 0 subject"

section \<open>UTC fields of a date\<close>

record civil =
  c_year :: int
  c_month :: int
  c_day :: int
  c_hour :: int
  c_minute :: int
  c_second :: int
  c_milli :: int

definition civil_of_ms :: "int \<Rightarrow> civil" where
  "civil_of_ms ms =
     (let days = ms div 86400000;
          rest = ms mod 86400000;
          z = days + 719468;
          era = z div 146097;
          doe = z mod 146097;
          yoe = (doe - doe div 1460 + doe div 36524 - doe div 146096) div 365;
          doy = doe - (365 * yoe + yoe div 4 - yoe div 100);
          mp = (5 * doy + 2) div 153;
          d = doy - (153 * mp + 2) div 5 + 1;
          m = (if mp < 10 then mp + 3 else mp - 9);
          y = yoe + era * 400 + (if m \<le> 2 then 1 else 0)
      in \<lparr>c_year = y, c_month = m, c_day = d, c_hour = rest div 3600000,
          c_minute = rest div 60000 mod 60, c_second = rest div 1000 mod 60,
          c_milli = rest mod 1000\<rparr>)"

definition pad2 :: "int \<Rightarrow> string" where
  "pad2 n = pad_start 2 (int_str n)"

text \<open>\<open>YYYY-MM-DD\<close> and \<open>HH:MM:SS\<close> as the sources assemble them from the UTC getters.\<close>

definition ymd_str :: "civil \<Rightarrow> string" where
  "ymd_str c = int_str (c_year c) @ ''-'' @ pad2 (c_month c) @ ''-'' @ pad2 (c_day c)"

definition hms_str :: "civil \<Rightarrow> string" where
  "hms_str c = pad2 (c_hour c) @ '':'' @ pad2 (c_minute c) @ '':'' @ pad2 (c_second c)"

text \<open>\<open>Date.prototype.toISOString\<close>; years outside 0 to 9999 take a sign and six digits.\<close>

definition iso_year :: "int \<Rightarrow> string" where
  "iso_year y =
     (if 0 \<le> y \<and> y \<le> 9999 then pad_start 4 (int_str y)
      else (if y < 0 then ''-'' else ''+'') @ pad_start 6 (int_str \<bar>y\<bar>))"

definition iso_string :: "int \<Rightarrow> string" where
  "iso_string ms =
     (let c = civil_of_ms ms
      in iso_year (c_year c) @ ''-'' @ pad2 (c_month c) @ ''-'' @ pad2 (c_day c)
         @ ''T'' @ hms_str c @ ''.'' @ pad_start 3 (int_str (c_milli c)) @ ''Z'')"

section \<open>JSON values\<close>

text \<open>
  An object is an association list in insertion order; assigning to a key that is present
  keeps its position. The numbers the modelled code puts into JSON are integers; a number with
  a fraction, which a service may send, is \<open>JFrac m k\<close> for m / 10^k, reduced.
\<close>

datatype jval =
    JNull
  | JBool bool
  | JNum int
  | JFrac int nat
  | JStr string
  | JArr "jval list"
  | JObj "(string \<times> jval) list"

type_synonym jobj = "(string \<times> jval) list"

fun obj_set :: "jobj \<Rightarrow> string \<Rightarrow> jval \<Rightarrow> jobj" where
  "obj_set [] k v = [(k, v)]"
| "obj_set ((k', v') # ps) k v = (if k' = k then (k, v) # ps else (k', v') # obj_set ps k v)"

fun sep_concat :: "string \<Rightarrow> string list \<Rightarrow> string" where
  "sep_concat sep [] = []"
| "sep_concat sep [x] = x"
| "sep_concat sep (x # y # ys) = x @ sep @ sep_concat sep (y # ys)"

fun json_stringify :: "jval \<Rightarrow> string" where
  "json_stringify JNull = ''null''"
| "json_stringify (JBool b) = (if b then ''true'' else ''false'')"
| "json_stringify (JNum n) = int_str n"
| "json_stringify (JFrac m k) =
     (if m < 0 then ''-'' else []) @ int_str (\<bar>m\<bar> div 10 ^ k) @ ''.''
     @ pad_start k (int_str (\<bar>m\<bar> mod 10 ^ k))"
| "json_stringify (JStr s) = json_string s"
| "json_stringify (JArr vs) = ''['' @ sep_concat '','' (map json_stringify vs) @ '']''"
| "json_stringify (JObj ps) =
     ''{'' @ sep_concat '','' (map (\<lambda>p. json_string (fst p) @ '':'' @ json_stringify (snd p)) ps) @ ''}''"

lemma map_of_obj_set [simp]: "map_of (obj_set ps k v) = (map_of ps)(k \<mapsto> v)"
  by (induction ps k v rule: obj_set.induct) auto


section \<open>Lemmas on decimal numbers\<close>

lemma is_digit_char [simp]: "(k::nat) < 10 \<Longrightarrow> is_digit (char_of (48 + k))"
  by (simp add: is_digit_def of_char_char_of_less)

lemma digit_val_char [simp]: "(k::nat) < 10 \<Longrightarrow> digit_val (char_of (48 + k)) = k"
  by (simp add: digit_val_def of_char_char_of_less)

lemma char_of_digit_val [simp]: "is_digit c \<Longrightarrow> char_of (48 + digit_val c) = c"
  by (simp add: is_digit_def digit_val_def)

lemma digit_val_less [simp]: "is_digit c \<Longrightarrow> digit_val c < 10"
  unfolding is_digit_def digit_val_def by linarith

lemma digits_val_snoc [simp]: "digits_val (s @ [c]) = 10 * digits_val s + digit_val c"
  by (simp add: digits_val_def)

lemma digits_val_Nil [simp]: "digits_val [] = 0"
  by (simp add: digits_val_def)

lemma digits_val_append: "digits_val (xs @ ys) = digits_val xs * 10 ^ length ys + digits_val ys"
proof (induction ys rule: rev_induct)
  case (snoc y ys)
  then show ?case unfolding append_assoc [symmetric] digits_val_snoc by (simp add: algebra_simps)
qed simp

lemma nat_digits_digit [simp]: "n < 10 \<Longrightarrow> nat_digits n = [char_of (48 + n)]"
  by (simp add: nat_digits.simps)

lemma nat_digits_step: "10 \<le> n \<Longrightarrow> nat_digits n = nat_digits (n div 10) @ [char_of (48 + n mod 10)]"
  by (simp add: nat_digits.simps [of n])

lemma digits_val_single [simp]: "digits_val [c] = digit_val c"
  by (simp add: digits_val_def)

lemma digits_val_nat_digits [simp]: "digits_val (nat_digits n) = n"
proof (induction n rule: nat_digits.induct)
  case (1 n)
  then show ?case by (cases "n < 10") (simp_all add: nat_digits_step)
qed

lemma nat_digits_digits: "c \<in> set (nat_digits n) \<Longrightarrow> is_digit c"
proof (induction n rule: nat_digits.induct)
  case (1 n)
  then show ?case by (cases "n < 10") (auto simp: nat_digits_step)
qed

lemma nat_digits_ne [simp]: "nat_digits n \<noteq> []"
  by (cases "n < 10") (simp_all add: nat_digits_step)

lemma hd_nat_digits: "10 \<le> n \<Longrightarrow> hd (nat_digits n) \<noteq> CHR ''0''"
proof (induction n rule: nat_digits.induct)
  case (1 n)
  show ?case
  proof (cases "n div 10 < 10")
    case True
    then have "hd (nat_digits n) = char_of (48 + n div 10)" using 1 by (simp add: nat_digits_step)
    moreover have "(of_char (char_of (48 + n div 10) :: char) :: nat) = 48 + n div 10"
      using True by (intro of_char_char_of_less) simp
    moreover have "n div 10 \<noteq> 0" using 1 by auto
    ultimately show ?thesis by (auto simp: char_eq_of_char)
  next
    case False
    then show ?thesis using 1 by (simp add: nat_digits_step)
  qed
qed

lemma length_nat_digits: "n < 10 ^ k \<Longrightarrow> 0 < k \<Longrightarrow> length (nat_digits n) \<le> k"
proof (induction k arbitrary: n)
  case (Suc k)
  show ?case
  proof (cases "n < 10")
    case False
    then have "k \<noteq> 0" using Suc.prems by (cases k) auto
    then have "length (nat_digits (n div 10)) \<le> k"
      using Suc.IH [of "n div 10"] Suc.prems by (simp add: less_mult_imp_div_less mult.commute)
    then show ?thesis using False by (simp add: nat_digits_step)
  qed simp
qed simp

lemma length_nat_digits_ge: "10 ^ k \<le> n \<Longrightarrow> k < length (nat_digits n)"
proof (induction k arbitrary: n)
  case (Suc k)
  then have "10 ^ k \<le> n div 10" by (simp add: div_le_mono [of "10 * 10 ^ k" n 10, simplified])
  then have lt: "k < length (nat_digits (n div 10))" by (rule Suc.IH)
  have "(1::nat) \<le> 10 ^ k" by (rule one_le_power) simp
  then have "10 * 1 \<le> (10::nat) * 10 ^ k" by (rule mult_le_mono2)
  moreover have "10 * 10 ^ k \<le> n" using Suc.prems by simp
  ultimately have "10 \<le> n" by linarith
  with lt show ?case by (simp add: nat_digits_step)
qed simp

lemma digits_val_zeros: "digits_val (replicate n CHR ''0'' @ s) = digits_val s"
proof -
  have z: "foldl (\<lambda>n c. 10 * n + digit_val c) 0 (replicate n CHR ''0'') = 0"
    by (induction n) (simp_all add: digit_val_def)
  then show ?thesis by (simp add: digits_val_def)
qed

lemma digits_val_pad_start [simp]: "digits_val (pad_start k s) = digits_val s"
  by (simp add: pad_start_def digits_val_zeros)

lemma length_pad_start [simp]: "length (pad_start k s) = max k (length s)"
  by (simp add: pad_start_def)

lemma int_str_nat: "0 \<le> i \<Longrightarrow> int_str i = nat_digits (nat i)"
  by (simp add: int_str_def)

lemma char_zero: "CHR ''0'' = char_of (48 :: nat)"
  by (simp add: char_eq_of_char)

lemma pad2_digits: "0 \<le> n \<Longrightarrow> n < 100 \<Longrightarrow>
  pad2 n = [char_of (48 + nat n div 10), char_of (48 + nat n mod 10)]"
proof -
  assume n: "0 \<le> n" "n < 100"
  show ?thesis
  proof (cases "nat n < 10")
    case True
    then show ?thesis using n by (simp add: pad2_def int_str_nat pad_start_def char_zero)
  next
    case False
    then have "nat n div 10 < 10" using n by auto
    then show ?thesis using n False by (simp add: pad2_def int_str_nat pad_start_def nat_digits_step)
  qed
qed

lemma length_pad2 [simp]: "0 \<le> n \<Longrightarrow> n < 100 \<Longrightarrow> length (pad2 n) = 2"
  by (simp add: pad2_digits)

lemma pad2_val [simp]: "0 \<le> n \<Longrightarrow> digits_val (pad2 n) = nat n"
  by (simp add: pad2_def int_str_nat)

lemma length_year [simp]: "1000 \<le> y \<Longrightarrow> y \<le> 9999 \<Longrightarrow> length (int_str y) = 4"
proof -
  assume y: "1000 \<le> y" "y \<le> 9999"
  then have "nat y < 10 ^ 4" and "10 ^ 3 \<le> nat y" by simp_all
  then have "length (nat_digits (nat y)) \<le> 4" and "3 < length (nat_digits (nat y))"
    using length_nat_digits [of "nat y" 4] length_nat_digits_ge [of 3 "nat y"] by simp_all
  then show ?thesis using y by (simp add: int_str_nat)
qed

lemma list_all_pad2 [simp]: "0 \<le> n \<Longrightarrow> list_all is_digit (pad2 n)"
  by (auto simp: pad2_def pad_start_def int_str_nat list_all_iff dest: nat_digits_digits)
     (simp add: is_digit_def)

lemma list_all_int_str [simp]: "0 \<le> n \<Longrightarrow> list_all is_digit (int_str n)"
  by (auto simp: int_str_nat list_all_iff dest: nat_digits_digits)

end
