(* ===== verification/Js_Json.thy ===== *)
theory Js_Json
  imports Js_Text
begin

text \<open>
  \<open>JSON.parse\<close> as the sources use it, on code units below 256: an escape of a larger unit is
  rejected here. A number is read exactly (the engine rounds it to a double, which is the same
  for every integer up to 2^53). \<open>None\<close> is the \<open>SyntaxError\<close>. The parser runs on fuel;
  a value takes at most two steps per unit of text, so twice the length is enough, and the
  round trip below shows it for everything \<open>JSON.stringify\<close> prints.
\<close>

section \<open>Lexical elements\<close>

definition json_ws :: "char \<Rightarrow> bool" where
  "json_ws c = (c \<in> {CHR '' '', CHR 0x09, CHR 0x0A, CHR 0x0D})"

definition skip_ws :: "string \<Rightarrow> string" where
  "skip_ws s = dropWhile json_ws s"

definition hex_val :: "char \<Rightarrow> nat option" where
  "hex_val c =
     (let n = (of_char c :: nat) in
      if 48 \<le> n \<and> n \<le> 57 then Some (n - 48)
      else if 97 \<le> n \<and> n \<le> 102 then Some (n - 87)
      else if 65 \<le> n \<and> n \<le> 70 then Some (n - 55) else None)"

definition simple_escape :: "char \<Rightarrow> char option" where
  "simple_escape c =
     (let n = (of_char c :: nat) in
      if n = 34 \<or> n = 92 \<or> n = 47 then Some c
      else if n = 98 then Some (char_of (8 :: nat))
      else if n = 102 then Some (char_of (12 :: nat))
      else if n = 110 then Some (char_of (10 :: nat))
      else if n = 114 then Some (char_of (13 :: nat))
      else if n = 116 then Some (char_of (9 :: nat)) else None)"

definition hex4 :: "char \<Rightarrow> char \<Rightarrow> char \<Rightarrow> char \<Rightarrow> char option" where
  "hex4 a b c d =
     (case (hex_val a, hex_val b, hex_val c, hex_val d) of
        (Some w, Some x, Some y, Some z) \<Rightarrow>
          (let n = w * 4096 + x * 256 + y * 16 + z
           in if n < 256 then Some (char_of n) else None)
      | _ \<Rightarrow> None)"

text \<open>The rest of a string literal after its opening quote.\<close>

fun json_body :: "string \<Rightarrow> (string \<times> string) option" where
  "json_body [] = None"
| "json_body (c # cs) =
     (if c = CHR 0x22 then Some ([], cs)
      else if c = CHR 0x5C then
        (case cs of
           [] \<Rightarrow> None
         | e # r \<Rightarrow>
             (if e = CHR ''u'' then
                (case r of
                   h1 # h2 # h3 # h4 # r' \<Rightarrow>
                     (case hex4 h1 h2 h3 h4 of
                        None \<Rightarrow> None
                      | Some x \<Rightarrow> map_option (\<lambda>(s, t). (x # s, t)) (json_body r'))
                 | _ \<Rightarrow> None)
              else (case simple_escape e of
                      None \<Rightarrow> None
                    | Some x \<Rightarrow> map_option (\<lambda>(s, t). (x # s, t)) (json_body r))))
      else if (of_char c :: nat) < 32 then None
      else map_option (\<lambda>(s, t). (c # s, t)) (json_body cs))"

text \<open>A decimal m / 10^k with no common factor of ten.\<close>

fun mk_frac :: "int \<Rightarrow> nat \<Rightarrow> jval" where
  "mk_frac m 0 = JNum m"
| "mk_frac m (Suc k) = (if m mod 10 = 0 then mk_frac (m div 10) k else JFrac m (Suc k))"

definition json_exponent :: "string \<Rightarrow> (int \<times> string) option" where
  "json_exponent s =
     (case s of
        e # r \<Rightarrow>
          (if e = CHR ''e'' \<or> e = CHR ''E'' then
             (let neg = (r \<noteq> [] \<and> hd r = CHR ''-'');
                  r1 = (if r \<noteq> [] \<and> (hd r = CHR ''-'' \<or> hd r = CHR ''+'') then tl r else r);
                  ds = takeWhile is_digit r1
              in if ds = [] then None
                 else Some (if neg then - int (digits_val ds) else int (digits_val ds),
                            dropWhile is_digit r1))
           else Some (0, s))
      | [] \<Rightarrow> Some (0, s))"

definition json_fraction :: "string \<Rightarrow> (string \<times> string) option" where
  "json_fraction s =
     (case s of
        p # r \<Rightarrow>
          (if p = CHR ''.'' then
             (if takeWhile is_digit r = [] then None
              else Some (takeWhile is_digit r, dropWhile is_digit r))
           else Some ([], s))
      | [] \<Rightarrow> Some ([], s))"

definition json_number :: "string \<Rightarrow> (jval \<times> string) option" where
  "json_number s =
     (let neg = (s \<noteq> [] \<and> hd s = CHR ''-'');
          r = (if neg then tl s else s);
          ip = takeWhile is_digit r
      in if ip = [] \<or> (hd ip = CHR ''0'' \<and> length ip > 1) then None
         else (case json_fraction (dropWhile is_digit r) of
                 None \<Rightarrow> None
               | Some (fp, r2) \<Rightarrow>
                   (case json_exponent r2 of
                      None \<Rightarrow> None
                    | Some (e, r3) \<Rightarrow>
                        (let m = int (digits_val (ip @ fp)) * (if neg then -1 else 1);
                             k = int (length fp) - e
                         in Some (if k \<le> 0 then JNum (m * 10 ^ nat (- k)) else mk_frac m (nat k), r3)))))"

section \<open>Number of a text\<close>

text \<open>
  \<open>Number\<close> of a text that is not blank, as mantissa and power of ten. \<open>None\<close> is \<open>NaN\<close> or an
  infinity; the callers keep finite numbers only. A prefix \<open>0x\<close>, \<open>0o\<close> or \<open>0b\<close> takes no sign.
\<close>

definition js_decimal :: "string \<Rightarrow> (int \<times> int) option" where
  "js_decimal s =
     (let neg = (s \<noteq> [] \<and> hd s = CHR ''-'');
          r = (if s \<noteq> [] \<and> (hd s = CHR ''-'' \<or> hd s = CHR ''+'') then tl s else s);
          ip = takeWhile is_digit r;
          r1 = dropWhile is_digit r;
          dot = (r1 \<noteq> [] \<and> hd r1 = CHR ''.'');
          fp = (if dot then takeWhile is_digit (tl r1) else []);
          r2 = (if dot then dropWhile is_digit (tl r1) else r1)
      in if ip = [] \<and> fp = [] then None
         else case json_exponent r2 of
                Some (e, []) \<Rightarrow>
                  Some ((if neg then -1 else 1) * int (digits_val (ip @ fp)), e - int (length fp))
              | _ \<Rightarrow> None)"

definition radix_number :: "nat \<Rightarrow> string \<Rightarrow> (int \<times> int) option" where
  "radix_number base s =
     (let vals = map hex_val s
      in if s = [] \<or> list_ex (\<lambda>v. case v of None \<Rightarrow> True | Some n \<Rightarrow> n \<ge> base) vals then None
         else Some (int (foldl (\<lambda>acc v. base * acc + the v) 0 vals), 0))"

definition js_number :: "string \<Rightarrow> (int \<times> int) option" where
  "js_number raw =
     (let s = trim raw; p = to_lower (take 2 s)
      in if p = ''0x'' then radix_number 16 (drop 2 s)
         else if p = ''0o'' then radix_number 8 (drop 2 s)
         else if p = ''0b'' then radix_number 2 (drop 2 s)
         else js_decimal s)"

section \<open>Values\<close>

fun json_value :: "nat \<Rightarrow> string \<Rightarrow> (jval \<times> string) option"
  and json_elems :: "nat \<Rightarrow> string \<Rightarrow> (jval list \<times> string) option"
  and json_members :: "nat \<Rightarrow> jobj \<Rightarrow> string \<Rightarrow> (jobj \<times> string) option" where
  "json_value 0 s = None"
| "json_value (Suc n) s =
     (let t = skip_ws s in
      case t of
        [] \<Rightarrow> None
      | c # cs \<Rightarrow>
          (if c = CHR ''['' then
             (let u = skip_ws cs in
              if u \<noteq> [] \<and> hd u = CHR '']'' then Some (JArr [], tl u)
              else map_option (\<lambda>(vs, r). (JArr vs, r)) (json_elems n u))
           else if c = CHR ''{'' then
             (let u = skip_ws cs in
              if u \<noteq> [] \<and> hd u = CHR ''}'' then Some (JObj [], tl u)
              else map_option (\<lambda>(ps, r). (JObj ps, r)) (json_members n [] u))
           else if c = CHR 0x22 then map_option (\<lambda>(x, r). (JStr x, r)) (json_body cs)
           else if prefix ''null'' t then Some (JNull, drop 4 t)
           else if prefix ''true'' t then Some (JBool True, drop 4 t)
           else if prefix ''false'' t then Some (JBool False, drop 5 t)
           else json_number t))"
| "json_elems 0 s = None"
| "json_elems (Suc n) s =
     (case json_value n s of
        None \<Rightarrow> None
      | Some (v, r) \<Rightarrow>
          (case skip_ws r of
             [] \<Rightarrow> None
           | c # cs \<Rightarrow>
               (if c = CHR '']'' then Some ([v], cs)
                else if c = CHR '','' then map_option (\<lambda>(vs, t). (v # vs, t)) (json_elems n cs)
                else None)))"
| "json_members 0 acc s = None"
| "json_members (Suc n) acc s =
     (case skip_ws s of
        [] \<Rightarrow> None
      | q # qs \<Rightarrow>
          (if q \<noteq> CHR 0x22 then None
           else case json_body qs of
                  None \<Rightarrow> None
                | Some (k, r) \<Rightarrow>
                    (case skip_ws r of
                       [] \<Rightarrow> None
                     | c # cs \<Rightarrow>
                         (if c \<noteq> CHR '':'' then None
                          else case json_value n cs of
                                 None \<Rightarrow> None
                               | Some (v, r2) \<Rightarrow>
                                   (case skip_ws r2 of
                                      [] \<Rightarrow> None
                                    | d # ds \<Rightarrow>
                                        (if d = CHR ''}'' then Some (obj_set acc k v, ds)
                                         else if d = CHR '','' then json_members n (obj_set acc k v) ds
                                         else None))))))"

definition json_parse :: "string \<Rightarrow> jval option" where
  "json_parse s =
     (case json_value (2 * length s + 2) s of
        None \<Rightarrow> None
      | Some (v, r) \<Rightarrow> if skip_ws r = [] then Some v else None)"


section \<open>Round trip with JSON.stringify\<close>

lemma skip_ws_Cons [simp]: "\<not> json_ws c \<Longrightarrow> skip_ws (c # s) = c # s"
  by (simp add: skip_ws_def)

lemma hex_val_digit [simp]: "n < 16 \<Longrightarrow> hex_val (hex_digit n) = Some n"
  by (auto simp: hex_digit_def hex_val_def Let_def of_char_char_of_less)

lemma hex4_control: "(of_char c :: nat) < 32 \<Longrightarrow>
  hex4 CHR ''0'' CHR ''0'' (hex_digit (of_char c div 16)) (hex_digit (of_char c mod 16)) = Some c"
proof -
  assume c: "(of_char c :: nat) < 32"
  define n where "n = (of_char c :: nat)"
  have "n div 16 < 16" "n mod 16 < 16" and c': "char_of n = c" using c by (simp_all add: n_def)
  moreover have "n div 16 * 16 + n mod 16 = n" by simp
  moreover have "hex_val CHR ''0'' = Some 0" by (simp add: hex_val_def)
  ultimately show ?thesis using c by (simp add: hex4_def flip: n_def)
qed

lemma json_body_char: "json_body (json_char c @ t) = map_option (\<lambda>(s, u). (c # s, u)) (json_body t)"
proof -
  consider "(of_char c :: nat) = 34" | "(of_char c :: nat) = 92" | "(of_char c :: nat) = 8"
    | "(of_char c :: nat) = 9" | "(of_char c :: nat) = 10" | "(of_char c :: nat) = 12"
    | "(of_char c :: nat) = 13"
    | "(of_char c :: nat) < 32" "(of_char c :: nat) \<notin> {8, 9, 10, 12, 13}"
    | "32 \<le> (of_char c :: nat)" "(of_char c :: nat) \<notin> {34, 92}" by force
  then show ?thesis
  proof cases
    case 1 then have "c = CHR 0x22" by (simp add: char_eq_of_char)
    then show ?thesis by (simp add: json_char_def simple_escape_def)
  next
    case 2 then have "c = CHR 0x5C" by (simp add: char_eq_of_char)
    then show ?thesis by (simp add: json_char_def simple_escape_def)
  next
    case 3 then have "c = char_of (8::nat)" by (metis char_of_char)
    then show ?thesis by (simp add: json_char_def simple_escape_def of_char_char_of_less)
  next
    case 4 then have "c = char_of (9::nat)" by (metis char_of_char)
    then show ?thesis by (simp add: json_char_def simple_escape_def of_char_char_of_less)
  next
    case 5 then have "c = char_of (10::nat)" by (metis char_of_char)
    then show ?thesis by (simp add: json_char_def simple_escape_def of_char_char_of_less)
  next
    case 6 then have "c = char_of (12::nat)" by (metis char_of_char)
    then show ?thesis by (simp add: json_char_def simple_escape_def of_char_char_of_less)
  next
    case 7 then have "c = char_of (13::nat)" by (metis char_of_char)
    then show ?thesis by (simp add: json_char_def simple_escape_def of_char_char_of_less)
  next
    case 8
    then show ?thesis using hex4_control [of c] by (simp add: json_char_def Let_def)
  next
    case 9
    then have "c \<noteq> CHR 0x22" "c \<noteq> CHR 0x5C" by (auto simp: char_eq_of_char)
    with 9 show ?thesis by (simp add: json_char_def Let_def)
  qed
qed

lemma json_body_escape: "json_body (json_escape s @ CHR 0x22 # rest) = Some (s, rest)"
proof (induction s)
  case Nil
  then show ?case by (simp add: json_escape_def)
next
  case (Cons c s)
  have "json_escape (c # s) @ CHR 0x22 # rest = json_char c @ (json_escape s @ CHR 0x22 # rest)"
    by (simp add: json_escape_def)
  then show ?case by (simp only: json_body_char Cons) simp
qed

definition num_end :: "string \<Rightarrow> bool" where
  "num_end s \<longleftrightarrow> s = [] \<or> (\<not> is_digit (hd s) \<and> hd s \<notin> {CHR ''.'', CHR ''e'', CHR ''E''})"

fun wf_jval :: "jval \<Rightarrow> bool" where
  "wf_jval (JFrac m k) = (0 < k \<and> m mod 10 \<noteq> 0)"
| "wf_jval (JArr vs) = list_all wf_jval vs"
| "wf_jval (JObj ps) = (distinct (map fst ps) \<and> list_all (\<lambda>p. wf_jval (snd p)) ps)"
| "wf_jval _ = True"

lemma takeWhile_digits: "list_all is_digit ds \<Longrightarrow> (s = [] \<or> \<not> is_digit (hd s)) \<Longrightarrow>
  takeWhile is_digit (ds @ s) = ds \<and> dropWhile is_digit (ds @ s) = s"
  by (induction ds) (cases s; auto)+

lemma num_end_digit: "num_end s \<Longrightarrow> s = [] \<or> \<not> is_digit (hd s)"
  by (auto simp: num_end_def)

lemma json_tail: "num_end s \<Longrightarrow> json_fraction s = Some ([], s)" "num_end s \<Longrightarrow> json_exponent s = Some (0, s)"
  by (auto simp: num_end_def json_fraction_def json_exponent_def split: list.splits)

lemma int_str_digits: "0 \<le> i \<Longrightarrow> list_all is_digit (int_str i)" "0 \<le> i \<Longrightarrow> int_str i \<noteq> []"
  "0 \<le> i \<Longrightarrow> \<not> (hd (int_str i) = CHR ''0'' \<and> 1 < length (int_str i))"
proof -
  assume i: "0 \<le> i"
  show "list_all is_digit (int_str i)" using i by (rule list_all_int_str)
  show "int_str i \<noteq> []" using i by (simp add: int_str_nat)
  show "\<not> (hd (int_str i) = CHR ''0'' \<and> 1 < length (int_str i))"
    using hd_nat_digits [of "nat i"] i by (cases "nat i < 10") (simp_all add: int_str_nat)
qed

lemma not_digit_minus: "\<not> is_digit CHR ''-''" "\<not> is_digit CHR ''.''"
  by (simp_all add: is_digit_def)

lemma hd_not_minus: "list_all is_digit ds \<Longrightarrow> ds \<noteq> [] \<Longrightarrow> hd (ds @ s) \<noteq> CHR ''-''"
  by (cases ds) (auto simp: not_digit_minus)

text \<open>A printed number: an optional sign, the digits of a number, a fraction or nothing.\<close>

lemma json_number_parts:
  assumes i: "0 \<le> i" and t: "t = [] \<or> \<not> is_digit (hd t)" and f: "json_fraction t = Some (fp, r)"
    and e: "json_exponent r = Some (0, r')"
  shows "json_number ((if neg then ''-'' else []) @ int_str i @ t)
    = Some (let m = int (digits_val (int_str i @ fp)) * (if neg then -1 else 1); k = int (length fp)
            in if k \<le> 0 then JNum m else mk_frac m (length fp), r')"
proof -
  have tw: "takeWhile is_digit (int_str i @ t) = int_str i" "dropWhile is_digit (int_str i @ t) = t"
    using takeWhile_digits [OF int_str_digits(1) [OF i] t] by simp_all
  have h: "hd (int_str i @ t) \<noteq> CHR ''-''"
    by (rule hd_not_minus [OF int_str_digits(1) [OF i] int_str_digits(2) [OF i]])
  show ?thesis
  proof (cases neg)
    case True
    then show ?thesis using tw f e int_str_digits(2,3) [OF i] by (simp add: json_number_def Let_def)
  next
    case False
    then show ?thesis using tw f e h int_str_digits(2,3) [OF i] by (simp add: json_number_def Let_def)
  qed
qed

lemma json_number_int: "num_end rest \<Longrightarrow> json_number (int_str i @ rest) = Some (JNum i, rest)"
proof -
  assume r: "num_end rest"
  have "int_str i = (if i < 0 then ''-'' else []) @ int_str \<bar>i\<bar>" by (simp add: int_str_def)
  then have "int_str i @ rest = (if i < 0 then ''-'' else []) @ int_str \<bar>i\<bar> @ rest" by simp
  then show ?thesis
    using json_number_parts [of "\<bar>i\<bar>" rest "[]" rest rest "i < 0"] num_end_digit [OF r] json_tail [OF r]
    by (simp add: int_str_nat)
qed

lemma int_str_val: "0 \<le> i \<Longrightarrow> int (digits_val (int_str i)) = i"
  by (simp add: int_str_nat)

lemma mk_frac_id: "m mod 10 \<noteq> 0 \<Longrightarrow> 0 < k \<Longrightarrow> mk_frac m k = JFrac m k"
  by (cases k) auto

lemma json_number_frac:
  assumes r: "num_end rest" and k: "0 < k" and m: "m mod 10 \<noteq> 0"
  shows "json_number (json_stringify (JFrac m k) @ rest) = Some (JFrac m k, rest)"
proof -
  let ?i = "\<bar>m\<bar> div 10 ^ k" and ?f = "\<bar>m\<bar> mod 10 ^ k"
  define fp where "fp = pad_start k (int_str ?f)"
  have i: "0 \<le> ?i" by (simp add: pos_imp_zdiv_nonneg_iff)
  have f: "0 \<le> ?f" "?f < 10 ^ k" by simp_all
  have "nat ?f < 10 ^ k" using f by (simp add: nat_less_iff)
  then have "length (int_str ?f) \<le> k"
    using f k length_nat_digits [of "nat ?f" k] by (simp add: int_str_nat)
  then have len: "length fp = k" by (simp add: fp_def)
  have dig: "list_all is_digit fp"
    using int_str_digits(1) [OF f(1)] by (auto simp: fp_def pad_start_def list_all_iff) (simp add: is_digit_def)
  have ne: "fp \<noteq> []" using len k by auto
  have fr: "json_fraction (''.'' @ fp @ rest) = Some (fp, rest)"
    using takeWhile_digits [OF dig num_end_digit [OF r]] ne by (simp add: json_fraction_def)
  have "int (digits_val (int_str ?i @ fp)) = ?i * 10 ^ k + ?f"
    using int_str_val [OF i] int_str_val [OF f(1)] by (simp add: digits_val_append len) (simp add: fp_def)
  also have "\<dots> = \<bar>m\<bar>" by (rule div_mult_mod_eq)
  finally have val: "int (digits_val (int_str ?i @ fp)) * (if m < 0 then -1 else 1) = m" by simp
  from json_number_parts [OF i _ fr json_tail(2) [OF r], of "m < 0"] show ?thesis
    using len k mk_frac_id [OF m k] val by (simp add: not_digit_minus Let_def flip: fp_def)
qed


text \<open>The first unit of a printed value decides the branch of the parser.\<close>

lemma json_value_str: "json_value (Suc n) (json_string s @ rest) = Some (JStr s, rest)"
  using json_body_escape [of s rest] by (simp add: json_string_def json_ws_def)

lemma number_start: "list_all is_digit ds \<Longrightarrow> ds \<noteq> [] \<Longrightarrow>
  json_value (Suc n) ((if neg then ''-'' else []) @ ds @ rest) = json_number ((if neg then ''-'' else []) @ ds @ rest)"
proof -
  assume d: "list_all is_digit ds" "ds \<noteq> []"
  then obtain c cs where ds: "ds = c # cs" "is_digit c" by (cases ds) auto
  have ne: "c \<noteq> x" if "\<not> is_digit x" for x using ds that by auto
  have "c \<noteq> CHR ''['' \<and> c \<noteq> CHR ''{'' \<and> c \<noteq> CHR 0x22 \<and> c \<noteq> CHR ''n'' \<and> c \<noteq> CHR ''t'' \<and> c \<noteq> CHR ''f''
      \<and> c \<noteq> CHR '' '' \<and> c \<noteq> CHR 0x09 \<and> c \<noteq> CHR 0x0A \<and> c \<noteq> CHR 0x0D"
    by (intro conjI ne) (simp_all add: is_digit_def)
  then show ?thesis by (auto simp: ds json_ws_def Let_def)
qed

lemma json_value_int: "num_end rest \<Longrightarrow> json_value (Suc n) (int_str i @ rest) = Some (JNum i, rest)"
proof -
  assume r: "num_end rest"
  have "int_str i = (if i < 0 then ''-'' else []) @ int_str \<bar>i\<bar>" by (simp add: int_str_def)
  then show ?thesis
    using number_start [of "int_str \<bar>i\<bar>" n "i < 0" rest] int_str_digits [of "\<bar>i\<bar>"] json_number_int [OF r, of i]
    by simp
qed

lemma json_value_frac: "num_end rest \<Longrightarrow> wf_jval (JFrac m k) \<Longrightarrow>
  json_value (Suc n) (json_stringify (JFrac m k) @ rest) = Some (JFrac m k, rest)"
proof -
  assume r: "num_end rest" and w: "wf_jval (JFrac m k)"
  have "0 \<le> \<bar>m\<bar> div 10 ^ k" by (simp add: pos_imp_zdiv_nonneg_iff)
  then show ?thesis
    using number_start [of "int_str (\<bar>m\<bar> div 10 ^ k)" n "m < 0"
        "''.'' @ pad_start k (int_str (\<bar>m\<bar> mod 10 ^ k)) @ rest"]
      int_str_digits [of "\<bar>m\<bar> div 10 ^ k"] json_number_frac [OF r, of k m] w
    by simp
qed

text \<open>No printed value starts with white space or a closing bracket.\<close>

definition starts_value :: "string \<Rightarrow> bool" where
  "starts_value s \<longleftrightarrow> s \<noteq> [] \<and> \<not> json_ws (hd s) \<and> hd s \<noteq> CHR '']''"

lemma starts_int: "starts_value (int_str i @ t)"
proof -
  obtain c cs where c: "int_str \<bar>i\<bar> = c # cs" "is_digit c"
    using int_str_digits [of "\<bar>i\<bar>"] by (cases "int_str \<bar>i\<bar>") auto
  have "int_str i = (if i < 0 then ''-'' else []) @ int_str \<bar>i\<bar>" by (simp add: int_str_def)
  then show ?thesis using c by (auto simp: starts_value_def json_ws_def is_digit_def)
qed

lemma starts_stringify: "starts_value (json_stringify v @ t)"
proof (cases v)
  case (JFrac m k)
  have "starts_value (int_str (\<bar>m\<bar> div 10 ^ k) @ s)" for s by (rule starts_int)
  then have i: "starts_value (int_str (\<bar>m\<bar> div 10 ^ k) @ ''.'' @ pad_start k (int_str (\<bar>m\<bar> mod 10 ^ k)) @ t)" .
  show ?thesis
  proof (cases "m < 0")
    case True
    with JFrac show ?thesis by (simp add: starts_value_def json_ws_def)
  next
    case False
    then show ?thesis using i by (simp only: JFrac json_stringify.simps if_False append_Nil append_assoc)
  qed
qed (auto simp: starts_int json_string_def, auto simp: starts_value_def json_ws_def)

lemma sep_concat_Cons: "sep_concat sep (x # xs) = x @ (if xs = [] then [] else sep @ sep_concat sep xs)"
  by (cases xs) simp_all

lemma json_elems_stringify:
  assumes IH: "\<And>v n rest. v \<in> set vs \<Longrightarrow> 2 * length (json_stringify v) \<le> n + 1 \<Longrightarrow> num_end rest \<Longrightarrow>
      json_value n (json_stringify v @ rest) = Some (v, rest)"
    and ne: "vs \<noteq> []"
    and fuel: "2 * length (sep_concat '','' (map json_stringify vs)) + 2 \<le> n"
  shows "json_elems n (sep_concat '','' (map json_stringify vs) @ CHR '']'' # rest) = Some (vs, rest)"
  using assms
proof (induction vs arbitrary: n)
  case (Cons v vs)
  define tail where "tail = (if vs = [] then CHR '']'' # rest
      else CHR '','' # sep_concat '','' (map json_stringify vs) @ CHR '']'' # rest)"
  from Cons.prems(3) obtain m where n: "n = Suc m" by (cases n) auto
  have eq: "sep_concat '','' (map json_stringify (v # vs)) @ CHR '']'' # rest = json_stringify v @ tail"
    by (simp add: sep_concat_Cons tail_def)
  have nend: "num_end tail" by (simp add: tail_def num_end_def is_digit_def)
  have "2 * length (json_stringify v) \<le> m + 1"
    using Cons.prems(3) n by (simp add: sep_concat_Cons split: if_splits)
  then have v: "json_value m (json_stringify v @ tail) = Some (v, tail)"
    using Cons.prems(1) [of v] nend by simp
  show ?case
  proof (cases "vs = []")
    case True
    then show ?thesis using v by (simp only: eq n) (simp add: tail_def json_ws_def)
  next
    case False
    have "json_elems m (sep_concat '','' (map json_stringify vs) @ CHR '']'' # rest) = Some (vs, rest)"
      using Cons.prems False n by (intro Cons.IH) (auto simp: sep_concat_Cons)
    then show ?thesis using v False by (simp only: eq n) (simp add: tail_def json_ws_def)
  qed
qed simp

lemma obj_set_new: "k \<notin> fst ` set ps \<Longrightarrow> obj_set ps k v = ps @ [(k, v)]"
  by (induction ps k v rule: obj_set.induct) auto

abbreviation "print_member p \<equiv> json_string (fst p) @ '':'' @ json_stringify (snd p)"

lemma json_members_stringify:
  assumes IH: "\<And>p n rest. p \<in> set ps \<Longrightarrow> 2 * length (json_stringify (snd p)) \<le> n + 1 \<Longrightarrow> num_end rest \<Longrightarrow>
      json_value n (json_stringify (snd p) @ rest) = Some (snd p, rest)"
    and ne: "ps \<noteq> []" and dist: "distinct (map fst (acc @ ps))"
    and fuel: "2 * length (sep_concat '','' (map (\<lambda>p. print_member p) ps)) + 2 \<le> n"
  shows "json_members n acc (sep_concat '','' (map (\<lambda>p. print_member p) ps) @ CHR ''}'' # rest)
    = Some (acc @ ps, rest)"
  using assms
proof (induction ps arbitrary: n acc)
  case (Cons p ps)
  define tail where "tail = (if ps = [] then CHR ''}'' # rest
      else CHR '','' # sep_concat '','' (map (\<lambda>p. print_member p) ps) @ CHR ''}'' # rest)"
  from Cons.prems(4) obtain m where n: "n = Suc m" by (cases n) auto
  have eq: "sep_concat '','' (map (\<lambda>p. print_member p) (p # ps)) @ CHR ''}'' # rest
      = CHR 0x22 # json_escape (fst p) @ CHR 0x22 # CHR '':'' # json_stringify (snd p) @ tail"
    by (simp add: sep_concat_Cons tail_def json_string_def)
  have nend: "num_end tail" by (simp add: tail_def num_end_def is_digit_def)
  have "2 * length (json_stringify (snd p)) \<le> m + 1"
    using Cons.prems(4) n by (simp add: sep_concat_Cons split: if_splits)
  then have v: "json_value m (json_stringify (snd p) @ tail) = Some (snd p, tail)"
    using Cons.prems(1) [of p] nend by simp
  have set: "obj_set acc (fst p) (snd p) = acc @ [p]"
    using Cons.prems(3) obj_set_new [of "fst p" acc "snd p"] by auto
  have ws: "\<not> json_ws CHR 0x22" "\<not> json_ws CHR '':''" "\<not> json_ws CHR '',''" "\<not> json_ws CHR ''}''"
    by (simp_all add: json_ws_def)
  have step: "json_members (Suc m) acc (CHR 0x22 # json_escape (fst p) @ CHR 0x22 # CHR '':'' # json_stringify (snd p) @ tail)
     = (if ps = [] then Some (acc @ [p], rest)
        else json_members m (acc @ [p]) (sep_concat '','' (map (\<lambda>p. print_member p) ps) @ CHR ''}'' # rest))"
    using ws v set by (simp add: json_body_escape) (simp add: tail_def ws)
  show ?case
  proof (cases "ps = []")
    case True
    have "json_members n acc (sep_concat '','' (map (\<lambda>p. print_member p) (p # ps)) @ CHR ''}'' # rest)
        = Some (acc @ [p], rest)"
      unfolding eq n step using True by (rule if_P)
    then show ?thesis using True by simp
  next
    case False
    have "json_members m (acc @ [p]) (sep_concat '','' (map (\<lambda>p. print_member p) ps) @ CHR ''}'' # rest)
        = Some ((acc @ [p]) @ ps, rest)"
      using Cons.prems False n by (intro Cons.IH) (auto simp: sep_concat_Cons)
    then show ?thesis using False by (simp only: eq n step) simp
  qed
qed simp

lemma json_value_stringify:
  "wf_jval v \<Longrightarrow> 2 * length (json_stringify v) \<le> n + 1 \<Longrightarrow> num_end rest \<Longrightarrow>
   json_value n (json_stringify v @ rest) = Some (v, rest)"
proof (induction v arbitrary: n rest)
  case JNull
  then show ?case by (cases n) (simp_all add: json_ws_def)
next
  case (JBool b)
  then show ?case by (cases n; cases b) (simp_all add: json_ws_def)
next
  case (JNum i)
  have "int_str i \<noteq> []" by (simp add: int_str_def)
  then have "0 < n" using JNum.prems by (cases "int_str i") auto
  then show ?case using JNum by (cases n) (simp_all add: json_value_int del: json_value.simps)
next
  case (JFrac m k)
  have "0 < length (json_stringify (JFrac m k))" by simp
  then have "0 < n" using JFrac.prems(2) by linarith
  then show ?case using JFrac.prems json_value_frac by (cases n) (simp_all del: json_value.simps json_stringify.simps)
next
  case (JStr s)
  then have "0 < n" by (simp add: json_string_def)
  then show ?case using json_value_str [of "n - 1" s rest] by simp
next
  case (JArr vs)
  then obtain m where n: "n = Suc m" by (cases n) auto
  show ?case
  proof (cases "vs = []")
    case True
    then show ?thesis by (simp add: n json_ws_def)
  next
    case False
    let ?body = "sep_concat '','' (map json_stringify vs)"
    have "starts_value (?body @ CHR '']'' # rest)"
      using False starts_stringify by (cases vs) (simp_all add: sep_concat_Cons)
    then have st: "skip_ws (?body @ CHR '']'' # rest) = ?body @ CHR '']'' # rest"
      "?body @ CHR '']'' # rest \<noteq> []" "hd (?body @ CHR '']'' # rest) \<noteq> CHR '']''"
      by (cases "?body @ CHR '']'' # rest"; simp add: starts_value_def)+
    have "json_elems m (?body @ CHR '']'' # rest) = Some (vs, rest)"
      using JArr False n by (intro json_elems_stringify) (auto simp: list_all_iff)
    then show ?thesis using st by (simp add: n json_ws_def)
  qed
next
  case (JObj ps)
  then obtain m where n: "n = Suc m" by (cases n) auto
  show ?case
  proof (cases "ps = []")
    case True
    then show ?thesis by (simp add: n json_ws_def)
  next
    case False
    let ?body = "sep_concat '','' (map (\<lambda>p. print_member p) ps)"
    obtain t where st: "?body @ CHR ''}'' # rest = CHR 0x22 # t"
      using False by (cases ps) (simp_all add: sep_concat_Cons json_string_def)
    have "json_members m [] (?body @ CHR ''}'' # rest) = Some ([] @ ps, rest)"
    proof (rule json_members_stringify)
      fix p n rest assume p: "p \<in> set ps" "2 * length (json_stringify (snd p)) \<le> n + 1" "num_end rest"
      have "snd p \<in> Basic_BNFs.snds p" by (rule snds.intros)
      moreover have "wf_jval (snd p)" using JObj.prems(1) p(1) by (simp add: list_all_iff)
      ultimately show "json_value n (json_stringify (snd p) @ rest) = Some (snd p, rest)"
        using JObj.IH [of p "snd p"] p by blast
    qed (use JObj False n in auto)
    then show ?thesis using st by (simp add: n json_ws_def)
  qed
qed

lemma json_parse_stringify: "wf_jval v \<Longrightarrow> json_parse (json_stringify v) = Some v"
  using json_value_stringify [of v "2 * length (json_stringify v) + 2" "[]"]
  by (simp add: json_parse_def num_end_def skip_ws_def)

end
