(* ===== verification/Civil_Time.thy ===== *)
theory Civil_Time
  imports Js_Prelude Js_Text
begin

text \<open>
  Civil clocks and calendar months: \<open>modules/enrich/dates.ts\<close>, \<open>modules/traffic/cdr-date-parts.ts\<close>,
  \<open>modules/traffic/civil-timestamptz.ts\<close> (the clock test), \<open>modules/traffic/cdr-month.ts\<close>,
  \<open>lib/month-window.ts\<close>, \<open>modules/smg-syslog/bucket.ts\<close> and \<open>modules/traffic/load-age.ts\<close>.
  A regular expression of fixed width is the list of the classes of its positions.
  \<open>Date.parse\<close>, whose answer outside the ISO form is up to the engine, is a parameter.
\<close>

section \<open>Fixed-width patterns\<close>

definition fits :: "(char \<Rightarrow> bool) list \<Rightarrow> string \<Rightarrow> bool" where
  "fits pat s = list_all2 (\<lambda>p c. p c) pat s"

definition slice :: "nat \<Rightarrow> nat \<Rightarrow> string \<Rightarrow> string" where
  "slice from to s = take (to - from) (drop from s)"

definition num_at :: "nat \<Rightarrow> nat \<Rightarrow> string \<Rightarrow> int" where
  "num_at from to s = int (digits_val (slice from to s))"

abbreviation lit :: "char \<Rightarrow> char \<Rightarrow> bool" where
  "lit \<equiv> (\<lambda>c x. x = c)"

definition civil_pattern :: "(char \<Rightarrow> bool) list" where
  "civil_pattern =
     replicate 4 is_digit @ [lit CHR ''-''] @ replicate 2 is_digit @ [lit CHR ''-'']
     @ replicate 2 is_digit @ [\<lambda>x. x = CHR '' '' \<or> x = CHR ''T'']
     @ replicate 2 is_digit @ [lit CHR '':''] @ replicate 2 is_digit @ [lit CHR '':''] @ replicate 2 is_digit"

definition month_pattern :: "(char \<Rightarrow> bool) list" where
  "month_pattern = replicate 4 is_digit @ [lit CHR ''-''] @ replicate 2 is_digit"

definition day_pattern :: "(char \<Rightarrow> bool) list" where
  "day_pattern = month_pattern @ [lit CHR ''-''] @ replicate 2 is_digit"

section \<open>dates.ts\<close>

record civil_clock =
  k_year :: int
  k_month :: int
  k_day :: int
  k_hour :: int
  k_minute :: int
  k_second :: int

definition parse_civil_date_time :: "string \<Rightarrow> civil_clock option" where
  "parse_civil_date_time raw =
     (let s = trim raw in
      if \<not> fits civil_pattern s then None
      else
        (let month = num_at 5 7 s; day = num_at 8 10 s; hour = num_at 11 13 s;
             minute = num_at 14 16 s; second = num_at 17 19 s
         in if month < 1 \<or> month > 12 \<or> day < 1 \<or> day > 31 \<or> hour > 23 \<or> minute > 59 \<or> second > 59
            then None
            else Some \<lparr>k_year = num_at 0 4 s, k_month = month, k_day = day, k_hour = hour,
                       k_minute = minute, k_second = second\<rparr>))"

definition format_civil_display :: "civil_clock \<Rightarrow> string" where
  "format_civil_display c =
     pad2 (k_day c) @ ''.'' @ pad2 (k_month c) @ ''.'' @ int_str (k_year c) @ '', ''
     @ pad2 (k_hour c) @ '':'' @ pad2 (k_minute c) @ '':'' @ pad2 (k_second c)"

definition csv_time_to_display :: "string \<Rightarrow> string" where
  "csv_time_to_display raw =
     (case parse_civil_date_time raw of None \<Rightarrow> raw | Some c \<Rightarrow> format_civil_display c)"

text \<open>
  \<open>Date.UTC\<close>: a year from 0 to 99 is taken as 1900 and up, and the day runs on from the
  first of the month, so a day the month does not have spills into the next one.
\<close>

definition days_of_civil :: "int \<Rightarrow> int \<Rightarrow> int \<Rightarrow> int" where
  "days_of_civil y m d =
     (let y' = (if m \<le> 2 then y - 1 else y);
          era = y' div 400;
          yoe = y' mod 400;
          doy = (153 * (if m > 2 then m - 3 else m + 9) + 2) div 5 + d - 1
      in era * 146097 + (yoe * 365 + yoe div 4 - yoe div 100 + doy) - 719468)"

definition date_utc :: "int \<Rightarrow> int \<Rightarrow> int \<Rightarrow> int \<Rightarrow> int \<Rightarrow> int \<Rightarrow> int" where
  "date_utc y m d h mi s =
     (let year = (if 0 \<le> y \<and> y \<le> 99 then 1900 + y else y)
      in days_of_civil year m d * 86400000 + h * 3600000 + mi * 60000 + s * 1000)"

definition civil_to_utc_date :: "civil_clock \<Rightarrow> int" where
  "civil_to_utc_date c =
     date_utc (k_year c) (k_month c) (k_day c) (k_hour c) (k_minute c) (k_second c)"

definition has_offset :: "string \<Rightarrow> bool" where
  "has_offset s =
     ((s \<noteq> [] \<and> last s \<in> {CHR ''z'', CHR ''Z''})
      \<or> (let t = drop (length s - 5) s in
           fits [\<lambda>x. x = CHR ''+'' \<or> x = CHR ''-'', is_digit, is_digit, is_digit, is_digit] t)
      \<or> (let t = drop (length s - 6) s in
           fits [\<lambda>x. x = CHR ''+'' \<or> x = CHR ''-'', is_digit, is_digit, lit CHR '':'', is_digit, is_digit] t))"

definition parse_naive_date_time :: "(string \<Rightarrow> int option) \<Rightarrow> string \<Rightarrow> int option" where
  "parse_naive_date_time date_parse raw =
     (let s = trim raw in
      if s = [] then None
      else if has_offset s then date_parse s
      else map_option civil_to_utc_date (parse_civil_date_time s))"

section \<open>cdr-date-parts.ts, civil-timestamptz.ts\<close>

definition civil_prefix :: "string \<Rightarrow> bool" where
  "civil_prefix s = fits civil_pattern (take 19 s)"

definition split_cdr_date_parts :: "string \<Rightarrow> string \<times> string" where
  "split_cdr_date_parts raw =
     (let s = trim raw in if \<not> civil_prefix s then ([], []) else (slice 0 10 s, slice 11 19 s))"

definition format_cdr_day_display :: "string \<Rightarrow> string" where
  "format_cdr_day_display raw =
     (let s = trim raw in
      if fits day_pattern s then slice 8 10 s @ ''.'' @ slice 5 7 s @ ''.'' @ slice 0 4 s else raw)"

definition xlsx_cdr_date_time_cells :: "string \<Rightarrow> string \<times> string" where
  "xlsx_cdr_date_time_cells raw =
     (let parts = split_cdr_date_parts raw
      in (if fst parts \<noteq> [] then format_cdr_day_display (fst parts) else [], snd parts))"

definition is_leap_year :: "int \<Rightarrow> bool" where
  "is_leap_year year = (year mod 400 = 0 \<or> (year mod 4 = 0 \<and> year mod 100 \<noteq> 0))"

definition month_days :: "int \<Rightarrow> int \<Rightarrow> int" where
  "month_days year month =
     [0, 31, if is_leap_year year then 29 else 28, 31, 30, 31, 30, 31, 31, 30, 31, 30, 31] ! nat month"

definition is_acceptable_civil_clock :: "string \<Rightarrow> bool" where
  "is_acceptable_civil_clock raw =
     (let s = trim raw in
      if \<not> civil_prefix s \<or> length s < 19 then False
      else
        (let year = num_at 0 4 s; month = num_at 5 7 s; day = num_at 8 10 s;
             hour = num_at 11 13 s; minute = num_at 14 16 s; second = num_at 17 19 s
         in if year < 1 \<or> year > 9999 \<or> month < 1 \<or> month > 12 \<or> hour > 23 \<or> minute > 59 \<or> second > 59
            then False
            else day \<ge> 1 \<and> day \<le> month_days year month))"

section \<open>cdr-month.ts, month-window.ts\<close>

record cdr_month =
  cm_year :: int
  cm_month :: int
  cm_key :: string
  cm_count :: "int option"

definition month_key :: "int \<Rightarrow> int \<Rightarrow> string" where
  "month_key year month = int_str year @ ''-'' @ pad2 month"

text \<open>The year and month are integers here; \<open>None\<close> is the thrown error.\<close>

definition cdr_month_day_range :: "int \<Rightarrow> int \<Rightarrow> (string \<times> string) option" where
  "cdr_month_day_range year month =
     (if month < 1 \<or> month > 12 then None
      else
        (let next_year = (if month = 12 then year + 1 else year);
             next_month = (if month = 12 then 1 else month + 1)
         in Some (month_key year month @ ''-01'', month_key next_year next_month @ ''-01'')))"

definition parse_month_key :: "string option \<Rightarrow> cdr_month option" where
  "parse_month_key raw =
     (let s = (case raw of None \<Rightarrow> [] | Some r \<Rightarrow> trim r) in
      if \<not> fits month_pattern s then None
      else
        (let year = num_at 0 4 s; month = num_at 5 7 s
         in if month < 1 \<or> month > 12 then None
            else if year < 2000 \<or> year > 2100 then None
            else Some \<lparr>cm_year = year, cm_month = month, cm_key = month_key year month,
                       cm_count = None\<rparr>))"

definition current_utc_month :: "int \<Rightarrow> cdr_month" where
  "current_utc_month now =
     (let c = civil_of_ms now
      in \<lparr>cm_year = c_year c, cm_month = c_month c, cm_key = month_key (c_year c) (c_month c),
          cm_count = None\<rparr>)"

definition resolve_month_key :: "string option \<Rightarrow> int \<Rightarrow> cdr_month" where
  "resolve_month_key raw now =
     (case parse_month_key raw of Some m \<Rightarrow> m | None \<Rightarrow> current_utc_month now)"

definition month_key_from_cdr_day :: "string option \<Rightarrow> cdr_month option" where
  "month_key_from_cdr_day raw =
     (case raw of None \<Rightarrow> None
      | Some r \<Rightarrow> if r = [] then None else parse_month_key (Some (slice 0 7 (trim r))))"

definition compare_month_key :: "string \<Rightarrow> string \<Rightarrow> int" where
  "compare_month_key a b = (if a < b then -1 else if b < a then 1 else 0)"

definition count_of :: "cdr_month \<Rightarrow> int" where
  "count_of m = (case cm_count m of None \<Rightarrow> 0 | Some n \<Rightarrow> n)"

definition older_month :: "string \<Rightarrow> string option \<Rightarrow> cdr_month \<Rightarrow> string option" where
  "older_month current_key oldest item =
     (if cm_key item = current_key then oldest
      else if count_of item \<le> 0 then oldest
      else case oldest of
             None \<Rightarrow> Some (cm_key item)
           | Some old \<Rightarrow> if compare_month_key (cm_key item) old < 0 then Some (cm_key item) else oldest)"

definition deletable_month_key :: "cdr_month list \<Rightarrow> string \<Rightarrow> string option" where
  "deletable_month_key months current_key = foldl (older_month current_key) None months"

definition with_current_month :: "cdr_month list \<Rightarrow> cdr_month \<Rightarrow> cdr_month list" where
  "with_current_month months current =
     (if list_ex (\<lambda>m. cm_key m = cm_key current) months then months
      else current\<lparr>cm_count := Some (count_of current)\<rparr> # months)"

definition sum_month_record_counts :: "cdr_month list \<Rightarrow> int" where
  "sum_month_record_counts months = foldl (\<lambda>total m. total + count_of m) 0 months"

section \<open>bucket.ts\<close>

record syslog_bucket =
  sb_year :: string
  sb_month :: string
  sb_day :: string
  sb_hour :: string
  sb_slot :: string

definition bucket_of :: "int \<Rightarrow> int \<Rightarrow> syslog_bucket" where
  "bucket_of date offset_hours =
     (let c = civil_of_ms (date + offset_hours * 3600000)
      in \<lparr>sb_year = int_str (c_year c), sb_month = pad2 (c_month c), sb_day = pad2 (c_day c),
          sb_hour = pad2 (c_hour c), sb_slot = pad2 (c_minute c div 10 * 10)\<rparr>)"

definition bucket_key :: "syslog_bucket \<Rightarrow> string" where
  "bucket_key b = sb_year b @ ''/'' @ sb_month b @ ''/'' @ sb_day b @ ''/'' @ sb_hour b @ ''/'' @ sb_slot b"

definition is_past_bucket :: "string \<Rightarrow> int \<Rightarrow> bool" where
  "is_past_bucket file_key now = (file_key < bucket_key (bucket_of now 0))"

definition syslog_file_key :: "string \<Rightarrow> int \<Rightarrow> string" where
  "syslog_file_key ip at = ip @ ''/'' @ bucket_key (bucket_of at 0)"

section \<open>load-age.ts\<close>

datatype load_tone = Green | Yellow | Red

record file_pass_counts =
  file_count :: "int option"
  phones_parsed :: "int option"
  changes_count :: "int option"

definition or_zero :: "int option \<Rightarrow> int" where
  "or_zero v = (case v of None \<Rightarrow> 0 | Some n \<Rightarrow> n)"

definition is_file_pass_job :: "file_pass_counts \<Rightarrow> bool" where
  "is_file_pass_job job =
     (or_zero (file_count job) > 0 \<or> or_zero (phones_parsed job) > 0 \<or> or_zero (changes_count job) > 0)"

definition file_pass_had_calls :: "file_pass_counts \<Rightarrow> bool" where
  "file_pass_had_calls job = (or_zero (phones_parsed job) > 0 \<or> or_zero (changes_count job) > 0)"

definition should_stamp_empty_scan :: "nat \<Rightarrow> nat \<Rightarrow> bool" where
  "should_stamp_empty_scan ready young = (ready = 0 \<and> young = 0)"

definition pass_tone :: "int \<Rightarrow> bool \<Rightarrow> int option \<Rightarrow> load_tone" where
  "pass_tone last_pass_at had_calls last_checked_at =
     (if (case last_checked_at of None \<Rightarrow> False | Some t \<Rightarrow> t > last_pass_at) then Red
      else if had_calls then Green else Yellow)"

record load_pass =
  lp_at :: int
  lp_had_calls :: bool

definition resolve_load_anchor ::
  "load_pass option \<Rightarrow> int option \<Rightarrow> int option \<Rightarrow> load_pass option" where
  "resolve_load_anchor latest streak_start break_at =
     (case latest of
        None \<Rightarrow> None
      | Some l \<Rightarrow>
          (if lp_had_calls l then Some \<lparr>lp_at = lp_at l, lp_had_calls = True\<rparr>
           else
             (let start = (case streak_start of Some s \<Rightarrow> s | None \<Rightarrow> lp_at l)
              in case break_at of
                   Some b \<Rightarrow> (if b > start \<and> b \<le> lp_at l then Some \<lparr>lp_at = b, lp_had_calls = False\<rparr>
                             else Some \<lparr>lp_at = start, lp_had_calls = False\<rparr>)
                 | None \<Rightarrow> Some \<lparr>lp_at = start, lp_had_calls = False\<rparr>)))"

record load_episode =
  ep_anchor :: int
  ep_had_calls :: bool
  ep_broke_red :: bool

definition next_load_episode ::
  "load_episode option \<Rightarrow> int option \<Rightarrow> load_pass \<Rightarrow> load_episode" where
  "next_load_episode episode scan_at pass =
     (if lp_had_calls pass
      then \<lparr>ep_anchor = lp_at pass, ep_had_calls = True, ep_broke_red = False\<rparr>
      else
        (let red_gap = (case scan_at of
               None \<Rightarrow> False
             | Some t \<Rightarrow> t < lp_at pass
                 \<and> (case episode of None \<Rightarrow> True | Some e \<Rightarrow> ep_had_calls e \<or> t > ep_anchor e));
             quiet = (case episode of
               None \<Rightarrow> False
             | Some e \<Rightarrow> \<not> ep_had_calls e \<and> (case scan_at of None \<Rightarrow> True | Some t \<Rightarrow> t \<le> ep_anchor e))
         in if quiet then the episode
            else if red_gap
                 then \<lparr>ep_anchor = lp_at pass, ep_had_calls = False, ep_broke_red = True\<rparr>
            else case episode of
                   Some e \<Rightarrow> (if \<not> ep_had_calls e then e
                             else \<lparr>ep_anchor = lp_at pass, ep_had_calls = False, ep_broke_red = False\<rparr>)
                 | None \<Rightarrow> \<lparr>ep_anchor = lp_at pass, ep_had_calls = False, ep_broke_red = False\<rparr>))"

definition format_elapsed :: "int \<Rightarrow> string" where
  "format_elapsed ms =
     (let total = max 0 (ms div 1000);
          hours = total div 3600;
          mm = pad2 (total mod 3600 div 60);
          ss = pad2 (total mod 60)
      in if hours > 0 then int_str hours @ '':'' @ mm @ '':'' @ ss else mm @ '':'' @ ss)"


section \<open>The calendar of a Date\<close>

text \<open>Years of a 400-year era, counted from March, and the days before each.\<close>

definition year_start :: "int \<Rightarrow> int" where
  "year_start n = 365 * n + n div 4 - n div 100 + n div 400"

definition year_of_doe :: "int \<Rightarrow> int" where
  "year_of_doe doe = (doe - doe div 1460 + doe div 36524 - doe div 146096) div 365"

lemma div_step:
  assumes "0 < (n :: int)"
  shows "(d + 1) div n = d div n \<or> (d + 1) div n = d div n + 1"
proof -
  have "d div n \<le> (d + 1) div n" using assms by (intro zdiv_mono1) simp_all
  moreover have "(d + 1) div n \<le> (d + n) div n" using assms by (intro zdiv_mono1) simp_all
  moreover have "(d + n) div n = d div n + 1" using assms by (intro div_add_self2) simp
  ultimately show ?thesis by linarith
qed

text \<open>A multiple of n is reached only together with n.\<close>

lemma div_step_mult:
  assumes "0 < (n :: int)"
  shows "(d + 1) div (n * 4) - d div (n * 4) \<le> (d + 1) div n - d div n"
proof -
  define k k' where "k = d div n" and "k' = (d + 1) div n"
  have "d div (n * 4) = k div 4" "(d + 1) div (n * 4) = k' div 4"
    unfolding k_def k'_def by (simp_all add: zdiv_zmult2_eq)
  moreover have "k' = k \<or> k' = k + 1" unfolding k_def k'_def by (rule div_step [OF assms])
  moreover have "k' div 4 - k div 4 \<le> k' - k" if "k' = k \<or> k' = k + 1" using that by presburger
  ultimately show ?thesis unfolding k_def [symmetric] k'_def [symmetric] by metis
qed

lemma year_of_doe_step: "year_of_doe d \<le> year_of_doe (d + 1)"
proof -
  have "(d + 1) div 146096 - d div 146096 \<le> (d + 1) div 36524 - d div 36524"
    using div_step_mult [of 36524 d] by simp
  moreover have "(d + 1) div 1460 \<le> d div 1460 + 1" using div_step [of 1460 d] by linarith
  ultimately have "d - d div 1460 + d div 36524 - d div 146096
      \<le> (d + 1) - (d + 1) div 1460 + (d + 1) div 36524 - (d + 1) div 146096" by linarith
  then show ?thesis unfolding year_of_doe_def by (rule zdiv_mono1) simp
qed

lemma year_of_doe_mono: "d \<le> e \<Longrightarrow> year_of_doe d \<le> year_of_doe e"
proof (induction e rule: int_ge_induct)
  case (step i)
  then show ?case using year_of_doe_step [of i] by linarith
qed simp

lemma year_bounds_check:
  "list_all (\<lambda>n. year_of_doe (year_start n) = n \<and> year_of_doe (year_start (n + 1) - 1) = n) [0..399]"
  by code_simp

lemma year_of_doe_in:
  assumes "0 \<le> n" and "n < 400" and "year_start n \<le> doe" and "doe < year_start (n + 1)"
  shows "year_of_doe doe = n"
proof -
  have n: "n \<in> set [0..399]" using assms by simp
  with year_bounds_check have "year_of_doe (year_start n) = n" "year_of_doe (year_start (n + 1) - 1) = n"
    by (simp_all only: list_all_iff)
  moreover have "year_of_doe (year_start n) \<le> year_of_doe doe" using assms(3) by (rule year_of_doe_mono)
  moreover have "year_of_doe doe \<le> year_of_doe (year_start (n + 1) - 1)"
    using assms(4) by (intro year_of_doe_mono) simp
  ultimately show ?thesis by simp
qed

lemma start_arith:
  fixes n :: int
  assumes "a \<le> a'" "a' \<le> a + 1" "b' \<le> b + 1" "c \<le> c'" "c' - c \<le> b' - b"
  shows "365 * n + a - b + c + 364 \<le> 365 * (n + 1) + a' - b' + c'
    \<and> 365 * (n + 1) + a' - b' + c' \<le> 365 * n + a - b + c + 366"
proof
  have e: "365 * (n + 1) = 365 * n + 365" by simp
  show "365 * n + a - b + c + 364 \<le> 365 * (n + 1) + a' - b' + c'" unfolding e using assms by linarith
  show "365 * (n + 1) + a' - b' + c' \<le> 365 * n + a - b + c + 366" unfolding e using assms by linarith
qed

lemma year_start_step: "year_start n + 364 \<le> year_start (n + 1) \<and> year_start (n + 1) \<le> year_start n + 366"
proof -
  have "n div 4 \<le> (n + 1) div 4" "(n + 1) div 4 \<le> n div 4 + 1"
    "(n + 1) div 100 \<le> n div 100 + 1" "n div 400 \<le> (n + 1) div 400"
    using div_step [of 4 n] div_step [of 100 n] div_step [of 400 n] by linarith+
  moreover have "(n + 1) div 400 - n div 400 \<le> (n + 1) div 100 - n div 100"
    using div_step_mult [of 100 n] by simp
  ultimately show ?thesis unfolding year_start_def by (rule start_arith)
qed

lemma year_start_mono: "a \<le> b \<Longrightarrow> year_start a \<le> year_start b"
proof (induction b rule: int_ge_induct)
  case (step i)
  then show ?case using year_start_step [of i] by linarith
qed simp

lemma year_start_bounds: "0 \<le> n \<Longrightarrow> n \<le> 400 \<Longrightarrow> 0 \<le> year_start n \<and> year_start n \<le> 146097"
  using year_start_mono [of 0 n] year_start_mono [of n 400] by (simp add: year_start_def)

lemma year_find:
  assumes "0 \<le> doe" and "doe < 146097"
  shows "\<exists>n. 0 \<le> n \<and> n < 400 \<and> year_start n \<le> doe \<and> doe < year_start (n + 1)"
proof -
  have "\<exists>n. 0 \<le> n \<and> n < int k \<and> year_start n \<le> doe \<and> doe < year_start (n + 1)"
    if "doe < year_start (int k)" for k
    using that
  proof (induction k)
    case 0
    then show ?case using assms by (simp add: year_start_def)
  next
    case (Suc k)
    show ?case
    proof (cases "doe < year_start (int k)")
      case True
      with Suc.IH show ?thesis by force
    next
      case False
      then show ?thesis using Suc.prems by (intro exI [of _ "int k"]) (simp add: add.commute)
    qed
  qed
  from this [of 400] assms(2) show ?thesis by (simp add: year_start_def)
qed

text \<open>From a time value to its fields and back.\<close>

definition day_fields :: "int \<Rightarrow> int \<times> int \<times> int" where
  "day_fields days = (let c = civil_of_ms (days * 86400000) in (c_year c, c_month c, c_day c))"

definition civil_day :: "int \<Rightarrow> int \<Rightarrow> int \<Rightarrow> int \<times> int \<times> int" where
  "civil_day era yoe doy =
     (let mp = (5 * doy + 2) div 153; m = (if mp < 10 then mp + 3 else mp - 9)
      in (yoe + era * 400 + (if m \<le> 2 then 1 else 0), m, doy - (153 * mp + 2) div 5 + 1))"

lemma civil_of_ms_eq:
  assumes "ms div 86400000 + 719468 = era * 146097 + year_start yoe + doy"
    and "0 \<le> yoe" "yoe < 400" "0 \<le> doy" "year_start yoe + doy < year_start (yoe + 1)"
  shows "civil_of_ms ms = (case civil_day era yoe doy of (y, m, d) \<Rightarrow>
     \<lparr>c_year = y, c_month = m, c_day = d, c_hour = ms mod 86400000 div 3600000,
      c_minute = ms mod 86400000 div 60000 mod 60, c_second = ms mod 86400000 div 1000 mod 60,
      c_milli = ms mod 86400000 mod 1000\<rparr>)"
proof -
  let ?doe = "year_start yoe + doy"
  have lo: "0 \<le> ?doe" using year_start_bounds [of yoe] assms(2-4) by simp
  have hi: "?doe < 146097" using year_start_bounds [of "yoe + 1"] assms(2,3,5) by simp
  have era: "(era * 146097 + year_start yoe + doy) div 146097 = era"
    "(era * 146097 + year_start yoe + doy) mod 146097 = ?doe"
    using lo hi by (simp_all add: add.assoc)
  have yoe: "(?doe - ?doe div 1460 + ?doe div 36524 - ?doe div 146096) div 365 = yoe"
    using year_of_doe_in [OF assms(2,3) _ assms(5)] assms(4) by (simp add: year_of_doe_def)
  have doy: "?doe - (365 * yoe + yoe div 4 - yoe div 100) = doy" using assms(2,3) by (simp add: year_start_def)
  show ?thesis
    unfolding civil_of_ms_def Let_def assms(1) era yoe doy civil_day_def by simp
qed

lemma days_split:
  obtains era yoe doy where "days + 719468 = era * 146097 + year_start yoe + doy"
    "0 \<le> yoe" "yoe < 400" "0 \<le> doy" "year_start yoe + doy < year_start (yoe + 1)"
proof -
  let ?z = "days + 719468"
  have "0 \<le> ?z mod 146097" "?z mod 146097 < 146097" by simp_all
  from year_find [OF this] obtain n where n: "0 \<le> n" "n < 400" "year_start n \<le> ?z mod 146097"
    "?z mod 146097 < year_start (n + 1)" by blast
  show thesis
    by (rule that [of "?z div 146097" n "?z mod 146097 - year_start n"])
       (use n in \<open>simp_all add: div_mult_mod_eq\<close>)
qed

text \<open>Month and day of a day of the March year.\<close>

lemma doy_check:
  "list_all (\<lambda>doy. let mp = (5 * doy + 2) div 153; d = doy - (153 * mp + 2) div 5 + 1
     in 0 \<le> mp \<and> mp \<le> 11 \<and> 1 \<le> d \<and> d \<le> 31) [0..365 :: int]"
  by code_simp

lemma doy_fields:
  fixes doy :: int
  assumes "0 \<le> doy" and "doy < 366"
  defines "mp \<equiv> (5 * doy + 2) div 153"
  shows "0 \<le> mp \<and> mp \<le> 11 \<and> 1 \<le> doy - (153 * mp + 2) div 5 + 1 \<and> doy - (153 * mp + 2) div 5 + 1 \<le> 31"
proof -
  have "doy \<in> set [0..365]" using assms(1,2) by simp
  then show ?thesis using doy_check unfolding list_all_iff Let_def mp_def by blast
qed

lemma civil_day_ranges:
  assumes "civil_day era yoe doy = (y, m, d)" and "0 \<le> doy" and "doy < 366"
  shows "1 \<le> m \<and> m \<le> 12 \<and> 1 \<le> d \<and> d \<le> 31"
  using assms(1) doy_fields [OF assms(2,3)] by (auto simp: civil_day_def Let_def split: if_splits)

lemma days_of_civil_day:
  assumes "civil_day era yoe doy = (y, m, d)" and "0 \<le> yoe" "yoe < 400" "0 \<le> doy" "doy < 366"
  shows "days_of_civil y m d = era * 146097 + year_start yoe + doy - 719468"
proof -
  define mp where "mp = (5 * doy + 2) div 153"
  have mp: "0 \<le> mp" "mp \<le> 11" using doy_fields [OF assms(4,5)] by (simp_all add: mp_def)
  have m: "m = (if mp < 10 then mp + 3 else mp - 9)" and d: "d = doy - (153 * mp + 2) div 5 + 1"
    and y: "y = yoe + era * 400 + (if m \<le> 2 then 1 else 0)"
    using assms(1) unfolding civil_day_def Let_def mp_def [symmetric] by auto
  have y': "(if m \<le> 2 then y - 1 else y) = yoe + era * 400" using y by simp
  have mm: "(if m > 2 then m - 3 else m + 9) = mp" using m mp by auto
  have e: "(yoe + era * 400) div 400 = era" "(yoe + era * 400) mod 400 = yoe" using assms(2,3) by simp_all
  have "yoe div 400 = 0" using assms(2,3) by simp
  then show ?thesis unfolding days_of_civil_def Let_def y' mm e d year_start_def by simp
qed


lemma civil_of_ms_days:
  obtains era yoe doy y m d where "ms div 86400000 + 719468 = era * 146097 + year_start yoe + doy"
    "0 \<le> yoe" "yoe < 400" "0 \<le> doy" "doy < 366" "civil_day era yoe doy = (y, m, d)"
    "civil_of_ms ms = \<lparr>c_year = y, c_month = m, c_day = d, c_hour = ms mod 86400000 div 3600000,
      c_minute = ms mod 86400000 div 60000 mod 60, c_second = ms mod 86400000 div 1000 mod 60,
      c_milli = ms mod 86400000 mod 1000\<rparr>"
proof -
  obtain era yoe doy where d: "ms div 86400000 + 719468 = era * 146097 + year_start yoe + doy"
    "0 \<le> yoe" "yoe < 400" "0 \<le> doy" "year_start yoe + doy < year_start (yoe + 1)"
    by (rule days_split [of "ms div 86400000"])
  have "doy < 366" using d(5) year_start_step [of yoe] by linarith
  moreover obtain y m e where c: "civil_day era yoe doy = (y, m, e)" by (cases "civil_day era yoe doy")
  ultimately show thesis using d civil_of_ms_eq [OF d] that by simp
qed

lemma civil_of_ms_ranges:
  "1 \<le> c_month (civil_of_ms ms) \<and> c_month (civil_of_ms ms) \<le> 12
   \<and> 1 \<le> c_day (civil_of_ms ms) \<and> c_day (civil_of_ms ms) \<le> 31
   \<and> 0 \<le> c_hour (civil_of_ms ms) \<and> c_hour (civil_of_ms ms) \<le> 23
   \<and> 0 \<le> c_minute (civil_of_ms ms) \<and> c_minute (civil_of_ms ms) \<le> 59
   \<and> 0 \<le> c_second (civil_of_ms ms) \<and> c_second (civil_of_ms ms) \<le> 59"
proof -
  obtain era yoe doy y m d where c: "0 \<le> doy" "doy < 366" "civil_day era yoe doy = (y, m, d)"
    "civil_of_ms ms = \<lparr>c_year = y, c_month = m, c_day = d, c_hour = ms mod 86400000 div 3600000,
      c_minute = ms mod 86400000 div 60000 mod 60, c_second = ms mod 86400000 div 1000 mod 60,
      c_milli = ms mod 86400000 mod 1000\<rparr>" by (rule civil_of_ms_days)
  have h: "0 \<le> ms mod 86400000" "ms mod 86400000 < 86400000" by simp_all
  then have "0 \<le> ms mod 86400000 div 3600000" by (simp add: pos_imp_zdiv_nonneg_iff)
  moreover have "ms mod 86400000 div 3600000 \<le> 86399999 div 3600000" using h(2) by (intro zdiv_mono1) simp_all
  moreover have "x mod 60 \<le> 59 \<and> 0 \<le> x mod 60" for x :: int
    using pos_mod_bound [of 60 x] by simp
  ultimately show ?thesis using civil_day_ranges [OF c(3,1,2)] by (simp add: c(4))
qed

lemma clock_sum:
  fixes r :: int
  shows "r div 3600000 * 3600000 + r div 60000 mod 60 * 60000 + r div 1000 mod 60 * 1000 = r - r mod 1000"
proof -
  define s where "s = r div 1000"
  have "r div 60000 = s div 60" "r div 3600000 = s div 60 div 60"
    unfolding s_def by (simp_all flip: zdiv_zmult2_eq)
  moreover have "s div 60 = 60 * (s div 60 div 60) + s div 60 mod 60" by simp
  moreover have "s = 60 * (s div 60) + s mod 60" by simp
  moreover have "r - r mod 1000 = 1000 * s" unfolding s_def by (simp add: minus_mod_eq_mult_div)
  ultimately show ?thesis unfolding s_def [symmetric] by (simp only:)
qed

text \<open>The fields of an instant pack back into its second, unless its year is one \<open>Date.UTC\<close> moves.\<close>

lemma date_utc_of_fields:
  assumes "\<not> (0 \<le> c_year (civil_of_ms t) \<and> c_year (civil_of_ms t) \<le> 99)"
  defines "c \<equiv> civil_of_ms t"
  shows "date_utc (c_year c) (c_month c) (c_day c) (c_hour c) (c_minute c) (c_second c) = t - t mod 1000"
proof -
  obtain era yoe doy y m d where s: "t div 86400000 + 719468 = era * 146097 + year_start yoe + doy"
    "0 \<le> yoe" "yoe < 400" "0 \<le> doy" "doy < 366" "civil_day era yoe doy = (y, m, d)"
    "civil_of_ms t = \<lparr>c_year = y, c_month = m, c_day = d, c_hour = t mod 86400000 div 3600000,
      c_minute = t mod 86400000 div 60000 mod 60, c_second = t mod 86400000 div 1000 mod 60,
      c_milli = t mod 86400000 mod 1000\<rparr>" by (rule civil_of_ms_days)
  have days: "days_of_civil y m d = t div 86400000"
    using days_of_civil_day [OF s(6,2,3,4,5)] s(1) by linarith
  have "t mod 86400000 mod 1000 = t mod 1000" by (simp add: mod_mod_cancel)
  moreover have "t div 86400000 * 86400000 + t mod 86400000 = t" by (rule div_mult_mod_eq)
  moreover have "\<not> (0 \<le> y \<and> y \<le> 99)" using assms(1) s(7) by simp
  ultimately show ?thesis
    using clock_sum [of "t mod 86400000"]
    unfolding c_def s(7) date_utc_def Let_def by (simp only: civil.select_convs days if_False)
qed

section \<open>Printed clocks are read back\<close>

lemma four_digits:
  assumes "1000 \<le> y" and "y \<le> 9999"
  obtains a b c d where "int_str y = [a, b, c, d]" "is_digit a" "is_digit b" "is_digit c" "is_digit d"
proof -
  have l: "length (int_str y) = 4" "list_all is_digit (int_str y)" using assms by simp_all
  then obtain a b c d where e: "int_str y = [a, b, c, d]"
    by (auto simp: numeral_eq_Suc length_Suc_conv)
  from l(2) have "is_digit a \<and> is_digit b \<and> is_digit c \<and> is_digit d" by (simp add: e)
  with e that show thesis by blast
qed

lemma two_digits:
  assumes "0 \<le> n" and "n < 100"
  obtains a b where "pad2 n = [a, b]" "is_digit a" "is_digit b"
proof -
  have l: "length (pad2 n) = 2" "list_all is_digit (pad2 n)" using assms by simp_all
  then obtain a b where e: "pad2 n = [a, b]" by (auto simp: numeral_eq_Suc length_Suc_conv)
  from l(2) have "is_digit a \<and> is_digit b" by (simp add: e)
  with e that show thesis by blast
qed

lemma pad2_ex: "0 \<le> n \<Longrightarrow> n < 100 \<Longrightarrow> \<exists>a b. pad2 n = [a, b] \<and> is_digit a \<and> is_digit b"
  by (rule two_digits [of n]) blast+

lemma digit_not_ws: "is_digit c \<Longrightarrow> \<not> js_ws c"
  by (auto simp: is_digit_def js_ws_def)

lemma digit_char_ne: "is_digit c \<Longrightarrow> \<not> is_digit x \<Longrightarrow> c \<noteq> x"
  by auto

definition clock_text :: "civil_clock \<Rightarrow> char \<Rightarrow> string" where
  "clock_text k sep = int_str (k_year k) @ ''-'' @ pad2 (k_month k) @ ''-'' @ pad2 (k_day k) @ [sep]
     @ pad2 (k_hour k) @ '':'' @ pad2 (k_minute k) @ '':'' @ pad2 (k_second k)"

definition clock_ok :: "civil_clock \<Rightarrow> bool" where
  "clock_ok k \<longleftrightarrow> 1000 \<le> k_year k \<and> k_year k \<le> 9999 \<and> 1 \<le> k_month k \<and> k_month k \<le> 12
     \<and> 1 \<le> k_day k \<and> k_day k \<le> 31 \<and> 0 \<le> k_hour k \<and> k_hour k \<le> 23
     \<and> 0 \<le> k_minute k \<and> k_minute k \<le> 59 \<and> 0 \<le> k_second k \<and> k_second k \<le> 59"

lemma parse_clock_text:
  assumes ok: "clock_ok k" and sep: "sep = CHR '' '' \<or> sep = CHR ''T''"
  shows "parse_civil_date_time (clock_text k sep) = Some k \<and> \<not> has_offset (clock_text k sep)
    \<and> trim (clock_text k sep) = clock_text k sep \<and> length (clock_text k sep) = 19"
proof -
  note r = ok [unfolded clock_ok_def]
  obtain a b c d where y: "int_str (k_year k) = [a, b, c, d]" "is_digit a" "is_digit b" "is_digit c" "is_digit d"
    using ok four_digits [of "k_year k"] unfolding clock_ok_def by blast
  obtain e f where mo: "pad2 (k_month k) = [e, f]" "is_digit e" "is_digit f"
    using r pad2_ex [of "k_month k"] by force
  obtain g h where da: "pad2 (k_day k) = [g, h]" "is_digit g" "is_digit h"
    using r pad2_ex [of "k_day k"] by force
  obtain i j where ho: "pad2 (k_hour k) = [i, j]" "is_digit i" "is_digit j"
    using r pad2_ex [of "k_hour k"] by force
  obtain l m where mi: "pad2 (k_minute k) = [l, m]" "is_digit l" "is_digit m"
    using r pad2_ex [of "k_minute k"] by force
  obtain n p where se: "pad2 (k_second k) = [n, p]" "is_digit n" "is_digit p"
    using r pad2_ex [of "k_second k"] by force
  define s where "s = [a, b, c, d, CHR ''-'', e, f, CHR ''-'', g, h, sep, i, j, CHR '':'', l, m, CHR '':'', n, p]"
  have s: "clock_text k sep = s" by (simp add: clock_text_def s_def y(1) mo(1) da(1) ho(1) mi(1) se(1))
  have tr: "trim s = s"
    unfolding trim_def using y(2) se(3) by (simp add: s_def trim_start_no_ws trim_end_no_ws digit_not_ws)
  have ft: "fits civil_pattern s"
    using y mo da ho mi se sep
    by (simp add: s_def fits_def civil_pattern_def numeral_eq_Suc)
  have nums: "num_at 0 4 s = k_year k" "num_at 5 7 s = k_month k" "num_at 8 10 s = k_day k"
    "num_at 11 13 s = k_hour k" "num_at 14 16 s = k_minute k" "num_at 17 19 s = k_second k"
    using ok unfolding clock_ok_def
    by (simp_all add: num_at_def slice_def s_def flip: y(1) mo(1) da(1) ho(1) mi(1) se(1))
       (simp_all add: int_str_nat)
  have p: "parse_civil_date_time s = Some k"
    using ok unfolding parse_civil_date_time_def Let_def tr nums clock_ok_def by (simp add: ft)
  have o1: "p \<noteq> CHR ''z''" "p \<noteq> CHR ''Z''" "l \<noteq> CHR ''+''" "l \<noteq> CHR ''-''"
    using se(3) mi(2) by (auto simp: is_digit_def)
  have "\<not> has_offset s"
    using o1 by (simp add: has_offset_def Let_def fits_def s_def)
  with p tr show ?thesis by (simp add: s) (simp add: s_def)
qed


definition clock_of_ms :: "int \<Rightarrow> civil_clock" where
  "clock_of_ms t = (let c = civil_of_ms t in
     \<lparr>k_year = c_year c, k_month = c_month c, k_day = c_day c, k_hour = c_hour c,
      k_minute = c_minute c, k_second = c_second c\<rparr>)"

lemma clock_text_of_ms:
  "clock_text (clock_of_ms t) sep = ymd_str (civil_of_ms t) @ [sep] @ hms_str (civil_of_ms t)"
  by (simp add: clock_text_def clock_of_ms_def Let_def ymd_str_def hms_str_def)

lemma clock_of_ms_ok:
  "1000 \<le> c_year (civil_of_ms t) \<Longrightarrow> c_year (civil_of_ms t) \<le> 9999 \<Longrightarrow> clock_ok (clock_of_ms t)"
  using civil_of_ms_ranges [of t] by (simp add: clock_ok_def clock_of_ms_def Let_def)

lemma pack_clock_of_ms:
  "1000 \<le> c_year (civil_of_ms t) \<Longrightarrow> civil_to_utc_date (clock_of_ms t) = t - t mod 1000"
  using date_utc_of_fields [of t] by (simp add: civil_to_utc_date_def clock_of_ms_def Let_def)

lemma parse_naive_text:
  assumes "1000 \<le> c_year (civil_of_ms t)" and "c_year (civil_of_ms t) \<le> 9999"
    and "sep = CHR '' '' \<or> sep = CHR ''T''"
  shows "parse_naive_date_time date_parse (ymd_str (civil_of_ms t) @ [sep] @ hms_str (civil_of_ms t))
    = Some (t - t mod 1000)"
proof -
  note p = parse_clock_text [OF clock_of_ms_ok [OF assms(1,2)] assms(3)]
  have "clock_text (clock_of_ms t) sep \<noteq> []" by (simp add: clock_text_def)
  then show ?thesis
    unfolding clock_text_of_ms [symmetric] parse_naive_date_time_def Let_def
    using p pack_clock_of_ms [OF assms(1)] by simp
qed

section \<open>Month keys\<close>

lemma digits_less:
  assumes "length s = length t" and "list_all is_digit s" and "list_all is_digit t"
  shows "s < t \<longleftrightarrow> digits_val s < digits_val t"
  using assms
proof (induction s t rule: list_induct2)
  case (Cons x xs y ys)
  have lt: "digits_val us < 10 ^ length us" if "list_all is_digit us" for us
    using that
  proof (induction us rule: rev_induct)
    case (snoc u us)
    then have "digits_val us < 10 ^ length us" "digit_val u < 10" by simp_all
    then show ?case by simp
  qed simp
  have v: "digits_val (u # us) = digit_val u * 10 ^ length us + digits_val us" for u us
    using digits_val_append [of "[u]" us] by simp
  have x: "48 \<le> (of_char x :: nat)" and y: "48 \<le> (of_char y :: nat)"
    using Cons.prems by (simp_all add: is_digit_def)
  have d: "x < y \<longleftrightarrow> digit_val x < digit_val y" "x = y \<longleftrightarrow> digit_val x = digit_val y"
    subgoal unfolding digit_val_def less_char_def using x y by linarith
    subgoal unfolding digit_val_def of_char_eq_iff [where 'a = nat, symmetric] using x y by linarith
    done
  show ?case
  proof (cases "digit_val x = digit_val y")
    case True
    then show ?thesis using Cons d v by simp
  next
    case False
    have a: "digits_val xs < 10 ^ length xs" "digits_val ys < 10 ^ length xs"
      using lt [of xs] lt [of ys] Cons by simp_all
    show ?thesis
    proof (cases "digit_val x < digit_val y")
      case True
      then have "(digit_val x + 1) * 10 ^ length xs \<le> digit_val y * 10 ^ length xs" by (intro mult_le_mono1) simp
      then show ?thesis using True False d v a Cons.hyps by simp
    next
      case gt: False
      then have "(digit_val y + 1) * 10 ^ length xs \<le> digit_val x * 10 ^ length xs"
        using False by (intro mult_le_mono1) simp
      then show ?thesis using gt False d v a Cons.hyps by simp
    qed
  qed
qed simp


lemma month_key_less:
  assumes "1000 \<le> y" "y \<le> 9999" "1000 \<le> y'" "y' \<le> 9999" "1 \<le> m" "m \<le> 12" "1 \<le> m'" "m' \<le> 12"
  shows "month_key y m < month_key y' m' \<longleftrightarrow> y < y' \<or> (y = y' \<and> m < m')"
proof -
  have len: "length (int_str y) = length (int_str y')" "length (pad2 m) = length (pad2 m')"
    using assms by simp_all
  have yl: "int_str y < int_str y' \<longleftrightarrow> y < y'"
    using digits_less [OF len(1)] assms by (simp add: int_str_nat list_all_iff nat_digits_digits)
  have ml: "pad2 m < pad2 m' \<longleftrightarrow> m < m'"
    using digits_less [OF len(2)] assms by simp
  have app: "us @ s < us' @ t \<longleftrightarrow> us < us' \<or> (us = us' \<and> s < t)" if "length us = length us'" for us us' s t :: string
    using that by (induction us us' rule: list_induct2) auto
  have inj: "int_str y = int_str y' \<longleftrightarrow> y = y'"
  proof
    assume "int_str y = int_str y'"
    then have "digits_val (int_str y) = digits_val (int_str y')" by simp
    then show "y = y'" using assms by (simp add: int_str_nat)
  qed simp
  have "''-'' @ pad2 m < ''-'' @ pad2 m' \<longleftrightarrow> m < m'" using ml by simp
  then show ?thesis unfolding month_key_def app [OF len(1)] yl inj by simp
qed

lemma fits_month: "2000 \<le> y \<Longrightarrow> y \<le> 2100 \<Longrightarrow> 1 \<le> m \<Longrightarrow> m \<le> 12 \<Longrightarrow>
  trim (month_key y m) = month_key y m \<and> fits month_pattern (month_key y m)
  \<and> num_at 0 4 (month_key y m) = y \<and> num_at 5 7 (month_key y m) = m"
proof -
  assume r: "2000 \<le> y" "y \<le> 2100" "1 \<le> m" "m \<le> 12"
  have b: "1000 \<le> y" "y \<le> 9999" using r by linarith+
  obtain a b c d where y: "int_str y = [a, b, c, d]" "is_digit a" "is_digit b" "is_digit c" "is_digit d"
    using four_digits [OF b] by blast
  obtain e f where mo: "pad2 m = [e, f]" "is_digit e" "is_digit f" using r pad2_ex [of m] by force
  define s where "s = [a, b, c, d, CHR ''-'', e, f]"
  have s: "month_key y m = s" by (simp add: month_key_def s_def y(1) mo(1))
  have "trim s = s" unfolding trim_def using y(2) mo(3)
    by (simp add: s_def trim_start_no_ws trim_end_no_ws digit_not_ws)
  moreover have "fits month_pattern s" using y mo by (simp add: s_def fits_def month_pattern_def numeral_eq_Suc)
  moreover have "num_at 0 4 s = y" "num_at 5 7 s = m"
    using r by (simp_all add: num_at_def slice_def s_def flip: y(1) mo(1)) (simp add: int_str_nat)
  ultimately show ?thesis unfolding s by blast
qed

lemma parse_month_key_print:
  assumes "2000 \<le> y" "y \<le> 2100" "1 \<le> m" "m \<le> 12"
  shows "parse_month_key (Some (month_key y m))
    = Some \<lparr>cm_year = y, cm_month = m, cm_key = month_key y m, cm_count = None\<rparr>"
proof -
  note f = fits_month [OF assms]
  have n: "num_at 0 4 (month_key y m) = y" "num_at 5 7 (month_key y m) = m" using f by blast+
  show ?thesis using f assms unfolding parse_month_key_def Let_def by (simp add: n)
qed

lemma parse_month_keyD:
  "parse_month_key raw = Some m \<Longrightarrow> cm_key m = month_key (cm_year m) (cm_month m)
   \<and> 1 \<le> cm_month m \<and> cm_month m \<le> 12 \<and> 2000 \<le> cm_year m \<and> cm_year m \<le> 2100"
  by (auto simp: parse_month_key_def Let_def split: if_splits)

section \<open>The month a purge may take\<close>

definition deletable :: "string \<Rightarrow> cdr_month \<Rightarrow> bool" where
  "deletable current_key m \<longleftrightarrow> cm_key m \<noteq> current_key \<and> 0 < count_of m"

lemma older_month_skip: "\<not> deletable cur m \<Longrightarrow> older_month cur old m = old"
  by (auto simp: older_month_def deletable_def)

lemma older_month_take: "deletable cur m \<Longrightarrow> older_month cur old m =
  Some (case old of None \<Rightarrow> cm_key m | Some k \<Rightarrow> if cm_key m < k then cm_key m else k)"
  by (auto simp: older_month_def deletable_def compare_month_key_def split: option.splits)

lemma deletable_month_key_spec:
  "case deletable_month_key months cur of
     None \<Rightarrow> \<forall>m \<in> set months. \<not> deletable cur m
   | Some k \<Rightarrow> (\<exists>m \<in> set months. deletable cur m \<and> cm_key m = k)
       \<and> (\<forall>m \<in> set months. deletable cur m \<longrightarrow> k \<le> cm_key m)"
proof (induction months rule: rev_induct)
  case Nil
  then show ?case by (simp add: deletable_month_key_def)
next
  case (snoc m ms)
  have e: "deletable_month_key (ms @ [m]) cur = older_month cur (deletable_month_key ms cur) m"
    by (simp add: deletable_month_key_def)
  show ?case
  proof (cases "deletable cur m")
    case False
    then show ?thesis using snoc by (auto simp: e older_month_skip split: option.splits)
  next
    case True
    then show ?thesis using snoc by (auto simp: e older_month_take split: option.splits)
  qed
qed

section \<open>Slots of the syslog files\<close>

lemma elapsed_split:
  fixes total :: int
  assumes "0 \<le> total"
  shows "total div 3600 * 3600 + total mod 3600 div 60 * 60 + total mod 60 = total
    \<and> 0 \<le> total mod 3600 div 60 \<and> total mod 3600 div 60 < 60"
proof -
  have h: "total div 3600 = total div 60 div 60" by (simp flip: zdiv_zmult2_eq)
  have "total mod (60 * 60) = 60 * (total div 60 mod 60) + total mod 60"
    by (rule zmod_zmult2_eq) simp
  then have m: "total mod 3600 div 60 = total div 60 mod 60" by simp
  define q where "q = total div 60"
  have t: "total = 60 * q + total mod 60" unfolding q_def by simp
  have "q div 60 * 60 + q mod 60 = q" by simp
  then have "q div 60 * 3600 + q mod 60 * 60 = 60 * q" by linarith
  then show ?thesis unfolding h m q_def [symmetric] using t by simp
qed

end
