(* ===== verification/Vm_Types.thy ===== *)
theory Vm_Types
  imports Js_Prelude Js_Text
begin

text \<open>
  VoIPmonitor matcher, data and text helpers (\<open>src/src/modules/voipmonitor/\<close>:
  \<open>types.ts\<close>, \<open>constants.ts\<close>, \<open>normalize.ts\<close>, \<open>legs.ts\<close>, \<open>url.ts\<close>). Statuses and miss
  reasons are datatypes with one constructor per constant; dates are milliseconds.
\<close>

section \<open>types.ts\<close>

datatype match_status =
    Matched_exact | Matched_fallback | Unmatched | Ambiguous | Pending | Status_empty

datatype miss_reason =
    Miss_call_id_not_in_index
  | Miss_empty_callid_weak_signal
  | Miss_fallback_below_threshold
  | Miss_fallback_ambiguous
  | Miss_assigned_elsewhere
  | Miss_no_candidates_in_window
  | Miss_api_error

record cdr_candidate =
  source_record_id :: string
  source_system :: string
  source_cdr_id :: string
  setup_time :: int
  duration_sec :: "int option"
  connect_duration_sec :: "int option"
  caller :: string
  called :: string
  caller_numbers :: "string list"
  called_numbers :: "string list"
  caller_ip :: string
  called_ip :: string
  sip_call_ids :: "string list"
  in_call_ids :: "string list"
  out_call_ids :: "string list"
  in_caller :: string
  in_called :: string
  out_caller :: string
  out_called :: string
  in_ip :: string
  out_ip :: string

record leg_ref =
  leg_url :: string
  leg_cdr_id :: string
  leg_call_id :: string

record vm_legs =
  leg_in :: "leg_ref option"
  leg_out :: "leg_ref option"

record vm_call =
  vm_cdr_id :: string
  vm_call_id :: string
  vm_call_date :: "int option"
  vm_call_end :: "int option"
  vm_duration :: int
  vm_connect_duration :: int
  vm_caller :: string
  vm_called :: string
  vm_sip_caller_ip :: string
  vm_sip_called_ip :: string

definition source_satel :: string where
  "source_satel = ''satel_rtu''"

section \<open>constants.ts\<close>

definition call_id_window_ms :: int where "call_id_window_ms = 30 * 60 * 1000"
definition fallback_window_ms :: int where "fallback_window_ms = 2 * 60 * 1000"
definition fallback_window_max_ms :: int where "fallback_window_max_ms = 10 * 60 * 1000"
definition min_score_default :: int where "min_score_default = 60"
definition disambiguity_margin :: int where "disambiguity_margin = 8"
definition number_suffix_len :: int where "number_suffix_len = 10"
definition grace_ms :: int where "grace_ms = 15000"
definition live_priority_ms :: int where "live_priority_ms = 24 * 60 * 60 * 1000"
definition live_probe_budget :: int where "live_probe_budget = 32"
definition archive_retry_probe_budget :: int where "archive_retry_probe_budget = 16"
definition range_slice_ms :: int where "range_slice_ms = 15 * 60 * 1000"
definition range_min_slice_ms :: int where "range_min_slice_ms = 60 * 1000"

definition retry_backoff_ms :: "int list" where
  "retry_backoff_ms = [15000, 60000, 5 * 60000, 15 * 60000]"

definition max_match_attempts :: int where "max_match_attempts = 12"

text \<open>9999-01-01T00:00:00.000Z, the due time of an exhausted miss.\<close>

definition queue_exhausted_at :: int where "queue_exhausted_at = 253370764800000"

section \<open>normalize.ts\<close>

definition normalize_call_id :: "string \<Rightarrow> string" where
  "normalize_call_id value =
     (let next = to_lower (trim value)
      in if next = [] then []
         else case index_of CHR ''@'' next of
                Some at \<Rightarrow> (if at > 0 then trim (take at next) else trim next)
              | None \<Rightarrow> trim next)"

text \<open>The values handed to \<open>add\<close> in turn; \<open>add\<close> normalises, then drops empty and seen ones.\<close>

definition call_id_variants :: "string \<Rightarrow> string list" where
  "call_id_variants raw =
     (let trimmed = trim raw in
      if trimmed = [] then []
      else uniq (filter (\<lambda>s. s \<noteq> []) (map normalize_call_id
             (trimmed # (case index_of CHR ''@'' trimmed of
                           Some at \<Rightarrow> (if at > 0 then [take at trimmed] else [])
                         | None \<Rightarrow> [])))))"

definition call_id_query_variants :: "string \<Rightarrow> string list" where
  "call_id_query_variants raw =
     (let trimmed = trim raw in
      if trimmed = [] then []
      else uniq (filter (\<lambda>s. s \<noteq> []) (map trim
             ([trimmed, to_lower trimmed]
              @ (case index_of CHR ''@'' trimmed of
                   Some at \<Rightarrow> (if at > 0 then [take at trimmed, to_lower (take at trimmed)] else [])
                 | None \<Rightarrow> [])))))"

definition digits :: "string \<Rightarrow> string" where
  "digits value = filter is_digit value"

definition suffix_of_len :: "string \<Rightarrow> int \<Rightarrow> string list" where
  "suffix_of_len d n =
     (if n \<le> 0 \<or> int (length d) < n then [] else [drop (length d - nat n) d])"

definition number_suffixes :: "string \<Rightarrow> int \<Rightarrow> string list" where
  "number_suffixes value primary =
     (let d = digits value in
      if d = [] then []
      else uniq (suffix_of_len d primary @ suffix_of_len d (primary + 1)
                 @ suffix_of_len d (primary + 2)
                 @ (if primary \<noteq> 10 then suffix_of_len d 10 else [])
                 @ (if int (length d) < primary then suffix_of_len d (int (length d)) else [])))"

definition ip_equal :: "string \<Rightarrow> string \<Rightarrow> bool" where
  "ip_equal a b =
     (let left = to_lower (trim a); right = to_lower (trim b)
      in left \<noteq> [] \<and> left = right)"

definition unique_non_empty :: "string list \<Rightarrow> string list" where
  "unique_non_empty values = uniq (filter (\<lambda>s. s \<noteq> []) (map trim values))"

definition source_call_id_norms :: "cdr_candidate \<Rightarrow> string list" where
  "source_call_id_norms cdr = uniq (concat (map call_id_variants (sip_call_ids cdr)))"

definition cdr_caller_numbers :: "cdr_candidate \<Rightarrow> string list" where
  "cdr_caller_numbers cdr =
     (if caller_numbers cdr \<noteq> [] then caller_numbers cdr else unique_non_empty [caller cdr])"

definition cdr_called_numbers :: "cdr_candidate \<Rightarrow> string list" where
  "cdr_called_numbers cdr =
     (if called_numbers cdr \<noteq> [] then called_numbers cdr else unique_non_empty [called cdr])"

definition call_ids_equal :: "string \<Rightarrow> string \<Rightarrow> bool" where
  "call_ids_equal a b =
     (to_lower (trim a) = to_lower (trim b)
      \<or> (normalize_call_id a \<noteq> [] \<and> normalize_call_id a = normalize_call_id b))"

fun first_non_empty :: "string list \<Rightarrow> string" where
  "first_non_empty [] = []"
| "first_non_empty (v # vs) = (if trim v \<noteq> [] then trim v else first_non_empty vs)"

section \<open>legs.ts\<close>

definition call_id_matches_any :: "string \<Rightarrow> string list \<Rightarrow> bool" where
  "call_id_matches_any call_id raws = list_ex (\<lambda>raw. call_ids_equal raw call_id) raws"

text \<open>The pair is (in, out).\<close>

definition classify_call_id :: "string \<Rightarrow> cdr_candidate \<Rightarrow> bool \<times> bool" where
  "classify_call_id call_id cdr =
     (call_id_matches_any call_id (in_call_ids cdr), call_id_matches_any call_id (out_call_ids cdr))"

definition collect_leg_cdr_ids :: "vm_legs \<Rightarrow> string list" where
  "collect_leg_cdr_ids legs =
     (case leg_in legs of Some l \<Rightarrow> (if leg_cdr_id l \<noteq> [] then [leg_cdr_id l] else []) | None \<Rightarrow> [])
     @ (case leg_out legs of Some l \<Rightarrow> (if leg_cdr_id l \<noteq> [] then [leg_cdr_id l] else []) | None \<Rightarrow> [])"

section \<open>url.ts\<close>

definition is_quote :: "char \<Rightarrow> bool" where
  "is_quote c = (c = CHR 0x27 \<or> c = CHR 0x22)"

definition strip_trailing_slashes :: "string \<Rightarrow> string" where
  "strip_trailing_slashes s = rev (dropWhile (\<lambda>c. c = CHR ''/'') (rev s))"

text \<open>One quote is removed at each end. On a lone quote the first match already consumed it.\<close>

definition strip_quotes :: "string \<Rightarrow> string" where
  "strip_quotes s =
     (let a = (case s of c # cs \<Rightarrow> (if is_quote c then cs else s) | [] \<Rightarrow> [])
      in if a \<noteq> [] \<and> is_quote (last a) then butlast a else a)"

definition format_filter_date :: "int \<Rightarrow> string" where
  "format_filter_date value =
     (let c = civil_of_ms value in ymd_str c @ ''T'' @ hms_str c)"

definition card_filter :: "string \<Rightarrow> int option \<Rightarrow> string" where
  "card_filter call_id call_date =
     (if call_id = [] then []
      else ''{fcallid:'' @ json_string call_id
           @ (case call_date of
                Some d \<Rightarrow> '',\"fdatefrom\":\"'' @ format_filter_date (d - 86400000)
                          @ ''\",\"fdateto\":\"'' @ format_filter_date (d + 86400000) @ ''\"''
              | None \<Rightarrow> [])
           @ ''}'')"

fun find_sub :: "string \<Rightarrow> string \<Rightarrow> nat option" where
  "find_sub pat [] = (if pat = [] then Some 0 else None)"
| "find_sub pat (c # cs) =
     (if prefix pat (c # cs) then Some 0 else map_option Suc (find_sub pat cs))"

definition encode_cdr_filter_query :: "string \<Rightarrow> string" where
  "encode_cdr_filter_query raw =
     (case find_sub ''cdr_filter='' raw of
        None \<Rightarrow> raw
      | Some index \<Rightarrow>
          (let pre = take (index + length ''cdr_filter='') raw;
               val = strip_quotes (drop (index + length ''cdr_filter='') raw)
           in if val = [] then raw
              else if str_includes ''%7B'' val \<or> str_includes ''%7b'' val then pre @ val
              else pre @ encode_uri_component val))"

definition build_card_url :: "string \<Rightarrow> string \<Rightarrow> string \<Rightarrow> string \<Rightarrow> int option \<Rightarrow> string" where
  "build_card_url template gui_base cdr_id call_id call_date =
     (let base = strip_trailing_slashes (trim gui_base);
          tpl = strip_quotes (trim template)
      in if base = [] then []
         else if tpl = [] then
           (let flt = card_filter call_id call_date
            in if flt = [] then [] else base @ ''/admin.php?cdr_filter='' @ encode_uri_component flt)
         else encode_cdr_filter_query
                (replace_all
                  (replace_all
                    (replace_all tpl ''{gui_base}'' base)
                    ''{voipmonitor_cdr_id}'' (digits cdr_id))
                  ''{voipmonitor_call_id}'' (json_escape call_id)))"

section \<open>Lemmas\<close>

lemma set_trim_start: "set (trim_start s) \<subseteq> set s"
  by (auto simp: trim_start_def dest: set_dropWhileD)

lemma set_trim_end: "set (trim_end s) \<subseteq> set s"
  by (auto simp: trim_end_def dest: set_dropWhileD)

lemma set_trim: "set (trim s) \<subseteq> set s"
  unfolding trim_def using set_trim_start set_trim_end by blast

lemma normalize_trim [simp]: "normalize_call_id (trim s) = normalize_call_id s"
  by (simp add: normalize_call_id_def)

lemma normalize_empty [simp]: "trim s = [] \<Longrightarrow> normalize_call_id s = []"
  by (simp add: normalize_call_id_def)

lemma normalize_no_at:
  assumes "CHR ''@'' \<notin> set s"
  shows "normalize_call_id s = to_lower (trim s)"
proof -
  have "CHR ''@'' \<notin> set (trim s)" using assms set_trim [of s] by blast
  then have "index_of CHR ''@'' (trim s) = None" by simp
  then show ?thesis
    by (simp add: normalize_call_id_def Let_def trim_lower del: index_of_None)
qed

lemma normalize_at_pos:
  assumes t: "trim s = s" and at: "index_of CHR ''@'' s = Some n" and pos: "0 < n"
  shows "normalize_call_id s = normalize_call_id (take n s)"
proof -
  have "CHR ''@'' \<notin> set (take n s)" using index_of_Some_take [OF at] by simp
  then have r: "normalize_call_id (take n s) = to_lower (trim (take n s))"
    by (rule normalize_no_at)
  from at have "s \<noteq> []" by auto
  with t at pos have "normalize_call_id s = trim (take n (to_lower s))"
    by (simp add: normalize_call_id_def)
  also have "\<dots> = to_lower (trim (take n s))" by (simp flip: to_lower_take add: trim_lower)
  finally show ?thesis using r by simp
qed

lemma call_id_variants_eq:
  "call_id_variants raw = (if normalize_call_id raw = [] then [] else [normalize_call_id raw])"
proof (cases "trim raw = []")
  case True
  then show ?thesis by (simp add: call_id_variants_def)
next
  case False
  show ?thesis
  proof (cases "\<exists>n. index_of CHR ''@'' (trim raw) = Some n \<and> 0 < n")
    case True
    then obtain n where n: "index_of CHR ''@'' (trim raw) = Some n" "0 < n" by blast
    have "normalize_call_id (take n (trim raw)) = normalize_call_id raw"
      using normalize_at_pos [of "trim raw" n] n by simp
    with n False show ?thesis by (simp add: call_id_variants_def)
  next
    case no: False
    then have "(case index_of CHR ''@'' (trim raw) of None \<Rightarrow> []
        | Some at \<Rightarrow> if 0 < at then [take at (trim raw)] else []) = []"
      by (auto split: option.splits)
    with False show ?thesis by (simp add: call_id_variants_def)
  qed
qed

lemma call_ids_equal_refl [simp]: "call_ids_equal a a"
  by (simp add: call_ids_equal_def)

lemma call_ids_equal_sym: "call_ids_equal a b = call_ids_equal b a"
  by (auto simp: call_ids_equal_def)

lemma shared_variant_equal:
  "k \<in> set (call_id_variants a) \<Longrightarrow> k \<in> set (call_id_variants b) \<Longrightarrow> call_ids_equal a b"
  by (auto simp: call_id_variants_eq call_ids_equal_def split: if_splits)

lemma call_ids_equal_normalize:
  "call_ids_equal a b \<Longrightarrow> normalize_call_id a = normalize_call_id b"
  by (auto simp: call_ids_equal_def normalize_call_id_def simp del: to_lower_eq_Nil)

lemma length_uniq_filter_map: "length (uniq (filter P (map f xs))) \<le> length xs"
  by (metis (no_types) length_filter_le length_map list_emb_length order_trans uniq_by_subseq)

lemma call_id_query_variants_length: "length (call_id_query_variants raw) \<le> 4"
proof (cases "trim raw = []")
  case False
  define xs where "xs = [trim raw, to_lower (trim raw)] @ (case index_of CHR ''@'' (trim raw) of
      None \<Rightarrow> [] | Some at \<Rightarrow> if at > 0 then [take at (trim raw), to_lower (take at (trim raw))] else [])"
  have "call_id_query_variants raw = uniq (filter (\<lambda>s. s \<noteq> []) (map trim xs))"
    using False by (simp only: call_id_query_variants_def xs_def Let_def if_False)
  moreover have "length xs \<le> 4" by (auto simp: xs_def split: option.splits)
  ultimately show ?thesis using length_uniq_filter_map [of "\<lambda>s. s \<noteq> []" trim xs] by simp
qed (simp add: call_id_query_variants_def)

end
