(* ===== verification/Vm_Match.thy ===== *)
theory Vm_Match
  imports Vm_Types
begin

text \<open>
  VoIPmonitor matcher, the index, the scoring and the two stages of one candidate
  (\<open>src/src/modules/voipmonitor/match.ts\<close>, up to \<open>classifyFallbackPools\<close>).
  The evidence of a result is kept as the JSON object whose \<open>JSON.stringify\<close> the code stores.
\<close>

section \<open>Options, index, pending matches, results\<close>

record matcher_options =
  o_gui_base :: string
  o_card_template :: "string option"
  o_call_id_window_ms :: "int option"
  o_fallback_window_ms :: "int option"
  o_fallback_window_max_ms :: "int option"
  o_min_score :: "int option"
  o_disambiguity_margin :: "int option"
  o_number_suffix_len :: "int option"
  o_probe_budget :: "int option"
  o_reserved_cdr_ids :: "string list"

record match_opts =
  m_call_id_window_ms :: int
  m_fallback_ms :: int
  m_fallback_max_ms :: int
  m_min_score :: int
  m_margin :: int
  m_suffix_len :: int

record call_index =
  by_call_id :: "string \<Rightarrow> vm_call list option"
  by_cdr_id :: "string \<Rightarrow> vm_call option"
  idx_all :: "vm_call list"

record pending_match =
  cand_idx :: nat
  p_call :: vm_call
  p_score :: int
  p_method :: string
  p_status :: match_status
  p_evidence :: jobj
  in_pool :: "vm_call list"
  out_pool :: "vm_call list"

record scored_call =
  s_call :: vm_call
  s_score :: int
  number_ok :: bool
  ip_ok :: bool
  allow_ip_only :: bool

record match_result =
  r_status :: match_status
  r_method :: string
  r_score :: int
  r_vm :: "vm_call option"
  r_card_url :: string
  r_legs :: vm_legs
  r_evidence :: jobj
  r_matched_at :: "int option"
  r_miss_reason :: "miss_reason option"

fun miss_text :: "miss_reason \<Rightarrow> string" where
  "miss_text Miss_call_id_not_in_index = ''call_id_not_in_index''"
| "miss_text Miss_empty_callid_weak_signal = ''empty_callid_and_weak_signal''"
| "miss_text Miss_fallback_below_threshold = ''fallback_below_threshold''"
| "miss_text Miss_fallback_ambiguous = ''fallback_ambiguous''"
| "miss_text Miss_assigned_elsewhere = ''assigned_elsewhere''"
| "miss_text Miss_no_candidates_in_window = ''no_candidates_in_window''"
| "miss_text Miss_api_error = ''api_error''"

definition positive_or :: "int \<Rightarrow> int option \<Rightarrow> int" where
  "positive_or dflt v = (case v of None \<Rightarrow> dflt | Some n \<Rightarrow> if n \<le> 0 then dflt else n)"

definition resolve_opts :: "matcher_options \<Rightarrow> match_opts" where
  "resolve_opts input =
     (let fb = positive_or fallback_window_ms (o_fallback_window_ms input);
          fbm = positive_or fallback_window_max_ms (o_fallback_window_max_ms input)
      in \<lparr>m_call_id_window_ms = positive_or call_id_window_ms (o_call_id_window_ms input),
          m_fallback_ms = fb,
          m_fallback_max_ms = (if fbm < fb then fb else fbm),
          m_min_score = positive_or min_score_default (o_min_score input),
          m_margin = positive_or disambiguity_margin (o_disambiguity_margin input),
          m_suffix_len = positive_or number_suffix_len (o_number_suffix_len input)\<rparr>)"

section \<open>The call index\<close>

definition append_unique_call :: "vm_call list \<Rightarrow> vm_call \<Rightarrow> vm_call list" where
  "append_unique_call xs call =
     (if vm_cdr_id call \<noteq> [] \<and> list_ex (\<lambda>e. vm_cdr_id e = vm_cdr_id call) xs then xs
      else xs @ [call])"

definition index_call_id :: "vm_call \<Rightarrow> string \<Rightarrow> (string \<Rightarrow> vm_call list option) \<Rightarrow> (string \<Rightarrow> vm_call list option)" where
  "index_call_id call key m =
     m(key \<mapsto> append_unique_call (case m key of Some prev \<Rightarrow> prev | None \<Rightarrow> []) call)"

definition merge_call :: "call_index \<Rightarrow> vm_call \<Rightarrow> call_index" where
  "merge_call idx call =
     (let idx1 =
        (if vm_cdr_id call \<noteq> [] then
           (case by_cdr_id idx (vm_cdr_id call) of
              None \<Rightarrow> idx\<lparr>by_cdr_id := (by_cdr_id idx)(vm_cdr_id call \<mapsto> call),
                          idx_all := idx_all idx @ [call]\<rparr>
            | Some _ \<Rightarrow> idx)
         else idx\<lparr>idx_all := idx_all idx @ [call]\<rparr>)
      in idx1\<lparr>by_call_id :=
           fold (index_call_id call) (call_id_variants (vm_call_id call)) (by_call_id idx1)\<rparr>)"

definition merge_calls :: "call_index \<Rightarrow> vm_call list \<Rightarrow> call_index" where
  "merge_calls idx calls = foldl merge_call idx calls"

definition build_call_index :: "vm_call list \<Rightarrow> call_index" where
  "build_call_index calls =
     merge_calls \<lparr>by_call_id = Map.empty, by_cdr_id = Map.empty, idx_all = []\<rparr> calls"

section \<open>Results\<close>

definition no_legs :: vm_legs where
  "no_legs = \<lparr>leg_in = None, leg_out = None\<rparr>"

definition fallback_method :: string where
  "fallback_method = ''fallback_numbers_ip_time''"

definition miss_result :: "miss_reason \<Rightarrow> jobj \<Rightarrow> match_result" where
  "miss_result reason ev =
     \<lparr>r_status = (if reason = Miss_fallback_ambiguous then Ambiguous else Unmatched),
      r_method = (if reason = Miss_fallback_ambiguous then fallback_method else ''none''),
      r_score = 0, r_vm = None, r_card_url = [], r_legs = no_legs,
      r_evidence = obj_set ev ''miss_reason'' (JStr (miss_text reason)),
      r_matched_at = None, r_miss_reason = Some reason\<rparr>"

definition method_for_call_id_attempt :: "string \<Rightarrow> nat \<Rightarrow> string" where
  "method_for_call_id_attempt source index =
     (if source \<noteq> source_satel then
        (if index = 0 then ''sip_call_id_in'' else ''sip_call_id_out'')
      else if index = 0 then ''rtu_call_id_out_proto''
      else if index = 1 then ''rtu_src_out_leg_call_id''
      else if index = 2 then ''rtu_call_id_in''
      else if index = 3 then ''rtu_src_in_leg_call_id''
      else if index = 4 then ''rtu_src_in_leg_conf_id''
      else if index = 5 then ''rtu_conf_id''
      else ''rtu_call_id_'' @ nat_digits index)"

definition leg_ref_of :: "string \<Rightarrow> string \<Rightarrow> vm_call \<Rightarrow> leg_ref" where
  "leg_ref_of gui_base card_template call =
     \<lparr>leg_url = build_card_url card_template gui_base (vm_cdr_id call) (vm_call_id call)
                  (vm_call_date call),
      leg_cdr_id = vm_cdr_id call, leg_call_id = vm_call_id call\<rparr>"

definition success_result ::
  "string \<Rightarrow> string \<Rightarrow> vm_call \<Rightarrow> match_status \<Rightarrow> string \<Rightarrow> int \<Rightarrow> jobj \<Rightarrow> int
   \<Rightarrow> vm_call option \<Rightarrow> vm_call option \<Rightarrow> match_result" where
  "success_result gui_base card_template call status method score ev now role_in role_out =
     (let li = map_option (leg_ref_of gui_base card_template) role_in;
          lo = map_option (leg_ref_of gui_base card_template) role_out
      in \<lparr>r_status = status, r_method = method, r_score = score, r_vm = Some call,
          r_card_url = build_card_url card_template gui_base (vm_cdr_id call) (vm_call_id call)
                         (vm_call_date call),
          r_legs = (if li = None \<and> lo = None
                    then \<lparr>leg_in = Some (leg_ref_of gui_base card_template call), leg_out = None\<rparr>
                    else \<lparr>leg_in = li, leg_out = lo\<rparr>),
          r_evidence = obj_set ev ''selected''
            (JObj [(''cdrId'', JStr (vm_cdr_id call)), (''callId'', JStr (vm_call_id call)),
                   (''score'', JNum score), (''method'', JStr method)]),
          r_matched_at = Some now, r_miss_reason = None\<rparr>)"

section \<open>Scoring\<close>

definition time_delta_ms :: "cdr_candidate \<Rightarrow> vm_call \<Rightarrow> int" where
  "time_delta_ms cdr hit =
     (case vm_call_date hit of None \<Rightarrow> 24 * 60 * 60 * 1000 | Some d \<Rightarrow> \<bar>d - setup_time cdr\<bar>)"

text \<open>An id without digits parses to \<open>NaN\<close>, which is not finite.\<close>

definition cdr_id_less :: "string \<Rightarrow> string \<Rightarrow> bool" where
  "cdr_id_less a b =
     (let da = digits a; db = digits b in
      if da \<noteq> [] \<and> db \<noteq> [] \<and> digits_val da \<noteq> digits_val db
      then digits_val db < digits_val da
      else b < a)"

datatype match_side = Direct | Swap

fun first_side :: "string list \<Rightarrow> string list \<Rightarrow> string list \<Rightarrow> match_side option" where
  "first_side primary alternate [] = None"
| "first_side primary alternate (s # ss) =
     (if s \<in> set primary then Some Direct
      else if s \<in> set alternate then Some Swap
      else first_side primary alternate ss)"

text \<open>\<open>None\<close> is \<open>ok: false\<close>; the side is the one of the first suffix that is found.\<close>

definition best_number_match :: "string list \<Rightarrow> string list \<Rightarrow> string list \<Rightarrow> int \<Rightarrow> match_side option" where
  "best_number_match sources primary alternate suffix_len =
     first_side primary alternate
       (concat (map (\<lambda>src. number_suffixes src suffix_len) sources))"

definition time_points :: "cdr_candidate \<Rightarrow> vm_call \<Rightarrow> int" where
  "time_points cdr hit =
     (case vm_call_date hit of
        None \<Rightarrow> 0
      | Some d \<Rightarrow>
          (let delta = \<bar>d - setup_time cdr\<bar> in
           if delta \<le> 2000 then 25 else if delta \<le> 15000 then 18
           else if delta \<le> 60000 then 12 else if delta \<le> 120000 then 8
           else if delta \<le> 600000 then 4 else 0))"

definition duration_points :: "cdr_candidate \<Rightarrow> vm_call \<Rightarrow> int" where
  "duration_points cdr hit =
     (case duration_sec cdr of
        None \<Rightarrow> 0
      | Some d \<Rightarrow>
          (if d > 0 then
             (let diff = \<bar>d - vm_duration hit\<bar> in
              if diff \<le> 1 then 15 else if diff \<le> 3 then 10 else if diff \<le> 8 then 5 else 0)
           else 0))"

definition connect_points :: "cdr_candidate \<Rightarrow> vm_call \<Rightarrow> int" where
  "connect_points cdr hit =
     (case connect_duration_sec cdr of
        None \<Rightarrow> 0
      | Some d \<Rightarrow>
          (if d > 0 \<and> vm_connect_duration hit > 0 \<and> \<bar>d - vm_connect_duration hit\<bar> \<le> 2
           then 5 else 0))"

definition any_ip_equal :: "cdr_candidate \<Rightarrow> vm_call \<Rightarrow> bool" where
  "any_ip_equal cdr hit =
     (ip_equal (caller_ip cdr) (vm_sip_caller_ip hit) \<or> ip_equal (caller_ip cdr) (vm_sip_called_ip hit)
      \<or> ip_equal (called_ip cdr) (vm_sip_caller_ip hit) \<or> ip_equal (called_ip cdr) (vm_sip_called_ip hit))"

definition score_one :: "cdr_candidate \<Rightarrow> vm_call \<Rightarrow> int \<Rightarrow> bool \<Rightarrow> scored_call" where
  "score_one cdr hit suffix_len require_strong =
     (let caller_nums = cdr_caller_numbers cdr;
          called_nums = cdr_called_numbers cdr;
          caller_hit = number_suffixes (vm_caller hit) suffix_len;
          called_hit = number_suffixes (vm_called hit) suffix_len;
          cr = best_number_match caller_nums caller_hit called_hit suffix_len;
          cd = best_number_match called_nums called_hit caller_hit suffix_len;
          some = (cr \<noteq> None \<or> cd \<noteq> None);
          both = (cr \<noteq> None \<and> cd \<noteq> None);
          ipk = any_ip_equal cdr hit;
          nums = (if both then 40 + (if cr = Some Swap \<or> cd = Some Swap then 5 else 0)
                  else if some then 18 else 0);
          strong_extra = (require_strong \<and> some \<and> ipk);
          score = nums + (if ipk then 20 else 0) + (if strong_extra then 10 else 0)
                  + time_points cdr hit + duration_points cdr hit + connect_points cdr hit
      in \<lparr>s_call = hit,
          s_score = (if score > 100 then 100 else score),
          number_ok = (both \<or> (some \<and> \<not> require_strong) \<or> strong_extra),
          ip_ok = ipk,
          allow_ip_only = (require_strong \<and> \<not> some \<and> ipk \<and> caller_nums = [] \<and> called_nums = [])\<rparr>)"

definition fallback_cmp :: "scored_call \<Rightarrow> scored_call \<Rightarrow> int" where
  "fallback_cmp a b =
     (if s_score a \<noteq> s_score b then s_score b - s_score a
      else if vm_cdr_id (s_call a) < vm_cdr_id (s_call b) then -1
      else if vm_cdr_id (s_call b) < vm_cdr_id (s_call a) then 1 else 0)"

definition fallback_eligible ::
  "cdr_candidate \<Rightarrow> (string \<Rightarrow> int option) \<Rightarrow> int \<Rightarrow> vm_call \<Rightarrow> bool" where
  "fallback_eligible cdr used window_ms hit =
     (\<not> (vm_cdr_id hit \<noteq> [] \<and> used (vm_cdr_id hit) \<noteq> None)
      \<and> (case vm_call_date hit of None \<Rightarrow> True | Some d \<Rightarrow> \<bar>d - setup_time cdr\<bar> \<le> window_ms))"

definition fallback_keep :: "scored_call \<Rightarrow> bool" where
  "fallback_keep s =
     (s_score s \<noteq> 0 \<and> (number_ok s \<or> ip_ok s) \<and> (number_ok s \<or> allow_ip_only s))"

definition score_fallback_candidates ::
  "cdr_candidate \<Rightarrow> vm_call list \<Rightarrow> (string \<Rightarrow> int option) \<Rightarrow> int \<Rightarrow> int \<Rightarrow> scored_call list" where
  "score_fallback_candidates cdr calls used window_ms suffix_len =
     js_sort fallback_cmp
       (filter fallback_keep
         (map (\<lambda>hit. score_one cdr hit suffix_len True)
           (filter (fallback_eligible cdr used window_ms) calls)))"

definition leg_cmp :: "cdr_candidate \<Rightarrow> scored_call \<Rightarrow> scored_call \<Rightarrow> int" where
  "leg_cmp cdr a b =
     (if s_score a \<noteq> s_score b then s_score b - s_score a
      else if ip_ok a \<noteq> ip_ok b then (if ip_ok a then -1 else 1)
      else if time_delta_ms cdr (s_call a) \<noteq> time_delta_ms cdr (s_call b)
           then time_delta_ms cdr (s_call a) - time_delta_ms cdr (s_call b)
      else if cdr_id_less (vm_cdr_id (s_call a)) (vm_cdr_id (s_call b)) then -1 else 1)"

definition order_legs :: "cdr_candidate \<Rightarrow> vm_call list \<Rightarrow> int \<Rightarrow> vm_call list" where
  "order_legs cdr hits suffix_len =
     map s_call (js_sort (leg_cmp cdr) (map (\<lambda>hit. score_one cdr hit suffix_len False) hits))"

section \<open>Index lookups and reservations\<close>

definition call_id_in_index :: "call_index \<Rightarrow> string \<Rightarrow> bool" where
  "call_id_in_index idx raw =
     list_ex (\<lambda>norm. case by_call_id idx norm of None \<Rightarrow> False | Some g \<Rightarrow> g \<noteq> [])
       (call_id_variants raw)"

definition missing_role_call_ids :: "cdr_candidate \<Rightarrow> call_index \<Rightarrow> string list" where
  "missing_role_call_ids cdr idx =
     filter (\<lambda>t. \<not> call_id_in_index idx t)
       (uniq_by normalize_call_id []
         (filter (\<lambda>t. t \<noteq> [] \<and> normalize_call_id t \<noteq> [])
           (map trim (in_call_ids cdr @ out_call_ids cdr))))"

definition date_key :: "int option \<Rightarrow> string" where
  "date_key d = (case d of None \<Rightarrow> [] | Some ms \<Rightarrow> iso_string ms)"

definition reservation_key :: "vm_call \<Rightarrow> string option" where
  "reservation_key leg =
     (let cdr_id = trim (vm_cdr_id leg); call_id = trim (vm_call_id leg) in
      if cdr_id \<noteq> [] then Some cdr_id
      else if call_id = [] then None
      else Some (call_id @ ''|'' @ date_key (vm_call_date leg)))"

definition free_for :: "(string \<Rightarrow> int option) \<Rightarrow> nat \<Rightarrow> vm_call \<Rightarrow> bool" where
  "free_for used cand leg =
     (case reservation_key leg of
        None \<Rightarrow> False
      | Some key \<Rightarrow> (case used key of None \<Rightarrow> True | Some owner \<Rightarrow> owner = int cand))"

definition pick_unused_leg :: "vm_call list \<Rightarrow> (string \<Rightarrow> int option) \<Rightarrow> nat \<Rightarrow> vm_call option" where
  "pick_unused_leg pool used cand = find (free_for used cand) pool"

definition claim_leg :: "(string \<Rightarrow> int option) \<Rightarrow> nat \<Rightarrow> vm_call option \<Rightarrow> (string \<Rightarrow> int option)" where
  "claim_leg used cand leg =
     (case leg of
        None \<Rightarrow> used
      | Some l \<Rightarrow> (case reservation_key l of None \<Rightarrow> used | Some key \<Rightarrow> used(key \<mapsto> int cand)))"

section \<open>Stage one: the exact Call-ID\<close>

definition hit_key :: "vm_call \<Rightarrow> string" where
  "hit_key hit =
     (if vm_cdr_id hit \<noteq> [] then vm_cdr_id hit
      else vm_call_id hit @ ''|'' @ date_key (vm_call_date hit))"

text \<open>The non-empty groups the double loop meets, with the position of the raw id and the norm.\<close>

definition exact_groups :: "cdr_candidate \<Rightarrow> call_index \<Rightarrow> (nat \<times> string \<times> vm_call list) list" where
  "exact_groups cdr idx =
     concat (map (\<lambda>(i, raw). concat (map (\<lambda>norm.
         case by_call_id idx norm of
           None \<Rightarrow> []
         | Some g \<Rightarrow> (if g = [] then [] else [(i, norm, g)])) (call_id_variants raw)))
       (enumerate 0 (sip_call_ids cdr)))"

definition exact_hits :: "cdr_candidate \<Rightarrow> call_index \<Rightarrow> vm_call list" where
  "exact_hits cdr idx = uniq_by hit_key [] (concat (map (\<lambda>(i, norm, g). g) (exact_groups cdr idx)))"

definition nth_opt :: "'a list \<Rightarrow> nat \<Rightarrow> 'a option" where
  "nth_opt xs n = (if n < length xs then Some (xs ! n) else None)"

fun first_some :: "'a option list \<Rightarrow> 'a option" where
  "first_some [] = None"
| "first_some (Some x # xs) = Some x"
| "first_some (None # xs) = first_some xs"

definition opt_cdr_id :: "vm_call option \<Rightarrow> string" where
  "opt_cdr_id c = (case c of None \<Rightarrow> [] | Some x \<Rightarrow> vm_cdr_id x)"

definition jstrs :: "string list \<Rightarrow> jval" where
  "jstrs xs = JArr (map JStr xs)"

definition legs_in_role :: "cdr_candidate \<Rightarrow> match_opts \<Rightarrow> (bool \<times> bool \<Rightarrow> bool) \<Rightarrow> vm_call list \<Rightarrow> vm_call list" where
  "legs_in_role cdr opts role hits =
     order_legs cdr (filter (\<lambda>x. role (classify_call_id (vm_call_id x) cdr)) hits) (m_suffix_len opts)"

definition exact_winner :: "vm_call list \<Rightarrow> vm_call list \<Rightarrow> vm_call list \<Rightarrow> vm_call \<Rightarrow> vm_call" where
  "exact_winner in_ordered out_ordered conf_ordered h =
     the (first_some [nth_opt in_ordered 0, nth_opt out_ordered 0, nth_opt conf_ordered 0, Some h])"

definition exact_base_evidence :: "cdr_candidate \<Rightarrow> jval list option \<Rightarrow> jobj" where
  "exact_base_evidence cdr probe_attempts =
     (let ev0 = [(''stage'', JStr ''exact_call_id''),
                 (''source_system'', JStr (source_system cdr)),
                 (''source_call_ids_normalized'', jstrs (source_call_id_norms cdr)),
                 (''setup_time'', JStr (iso_string (setup_time cdr)))]
      in case probe_attempts of
           Some (a # as) \<Rightarrow> obj_set ev0 ''call_id_probes'' (JArr (a # as))
         | _ \<Rightarrow> ev0)"

definition exact_evidence ::
  "jobj \<Rightarrow> string \<Rightarrow> string \<Rightarrow> vm_call list \<Rightarrow> vm_call list \<Rightarrow> vm_call list \<Rightarrow> vm_call list \<Rightarrow> jobj" where
  "exact_evidence base norm seed hits in_ordered out_ordered conf_ordered =
     (let winner = exact_winner in_ordered out_ordered conf_ordered (hd hits);
          ev2 = obj_set (obj_set base ''matched_call_id_norm'' (JStr norm)) ''method_seed'' (JStr seed);
          ev3 = obj_set ev2 ''vm_legs_with_same_call_id'' (JNum (int (length hits)));
          ev4 = obj_set ev3 ''selected''
            (JObj [(''cdrId'', JStr (vm_cdr_id winner)), (''callId'', JStr (vm_call_id winner)),
                   (''score'', JNum 100),
                   (''in_leg'', JStr (opt_cdr_id (nth_opt in_ordered 0))),
                   (''out_leg'', JStr (opt_cdr_id (nth_opt out_ordered 0)))]);
          ev5 = (case first_some [nth_opt in_ordered 1, nth_opt out_ordered 1, nth_opt conf_ordered 1] of
                   Some r \<Rightarrow> obj_set ev4 ''runner_up''
                     (JObj [(''cdrId'', JStr (vm_cdr_id r)), (''callId'', JStr (vm_call_id r))])
                 | None \<Rightarrow> ev4)
      in if length hits > 1 then obj_set ev5 ''multi_leg_disambiguated'' (JBool True) else ev5)"

definition stage_exact ::
  "cdr_candidate \<Rightarrow> call_index \<Rightarrow> match_opts \<Rightarrow> jval list option \<Rightarrow> pending_match option" where
  "stage_exact cdr idx opts probe_attempts =
     (if source_call_id_norms cdr = [] \<and> sip_call_ids cdr = [] then None
      else case exact_groups cdr idx of
        [] \<Rightarrow> None
      | (i, norm, g) # _ \<Rightarrow>
          (case exact_hits cdr idx of
             [] \<Rightarrow> None
           | h # hs \<Rightarrow>
               (let hits = h # hs;
                    seed = method_for_call_id_attempt (source_system cdr) i;
                    in_ordered = legs_in_role cdr opts fst hits;
                    out_ordered = legs_in_role cdr opts snd hits;
                    conf_ordered = legs_in_role cdr opts (\<lambda>r. \<not> fst r \<and> \<not> snd r) hits
                in Some \<lparr>cand_idx = 0,
                         p_call = exact_winner in_ordered out_ordered conf_ordered h,
                         p_score = 100,
                         p_method = (if hs \<noteq> [] then seed @ ''_multi_leg'' else seed),
                         p_status = Matched_exact,
                         p_evidence = exact_evidence (exact_base_evidence cdr probe_attempts) norm seed
                                        hits in_ordered out_ordered conf_ordered,
                         in_pool = in_ordered, out_pool = out_ordered\<rparr>)))"

section \<open>Stage two: numbers, addresses, time\<close>

definition classify_fallback_pools ::
  "cdr_candidate \<Rightarrow> vm_call \<Rightarrow> int \<Rightarrow> int \<Rightarrow> int \<Rightarrow> vm_call list \<times> vm_call list" where
  "classify_fallback_pools cdr hit suffix_len margin min_score =
     (let in_scored = s_score (score_one
            (cdr\<lparr>caller := in_caller cdr, called := in_called cdr,
                 caller_numbers := unique_non_empty [in_caller cdr],
                 called_numbers := unique_non_empty [in_called cdr],
                 caller_ip := in_ip cdr, called_ip := []\<rparr>) hit suffix_len True);
          out_scored = s_score (score_one
            (cdr\<lparr>caller := out_caller cdr, called := out_called cdr,
                 caller_numbers := unique_non_empty [out_caller cdr],
                 called_numbers := unique_non_empty [out_called cdr],
                 caller_ip := out_ip cdr, called_ip := []\<rparr>) hit suffix_len True)
      in if in_scored - out_scored \<ge> margin \<and> in_scored \<ge> min_score then ([hit], [])
         else if out_scored - in_scored \<ge> margin \<and> out_scored \<ge> min_score then ([], [hit])
         else ([], []))"

definition fallback_seed :: "cdr_candidate \<Rightarrow> miss_reason" where
  "fallback_seed cdr =
     (if source_call_id_norms cdr \<noteq> [] then Miss_call_id_not_in_index
      else Miss_empty_callid_weak_signal)"

definition fallback_base_evidence :: "cdr_candidate \<Rightarrow> jobj \<Rightarrow> jobj" where
  "fallback_base_evidence cdr fetch_meta =
     [(''stage'', JStr ''fallback''),
      (''source_system'', JStr (source_system cdr)),
      (''source_call_ids_normalized'', jstrs (source_call_id_norms cdr)),
      (''call_id_hits'', JNum 0),
      (''setup_time'', JStr (iso_string (setup_time cdr))),
      (''hour_fetch'', JObj fetch_meta),
      (''miss_reason_seed'', JStr (miss_text (fallback_seed cdr)))]"

text \<open>The candidates, from the near window or else the wide one, and the evidence so far.\<close>

definition fallback_scored ::
  "cdr_candidate \<Rightarrow> call_index \<Rightarrow> match_opts \<Rightarrow> (string \<Rightarrow> int option) \<Rightarrow> scored_call list" where
  "fallback_scored cdr idx opts used =
     (let near = score_fallback_candidates cdr (idx_all idx) used (m_fallback_ms opts) (m_suffix_len opts)
      in if near = [] then
           score_fallback_candidates cdr (idx_all idx) used (m_fallback_max_ms opts) (m_suffix_len opts)
         else near)"

definition fallback_window_evidence ::
  "cdr_candidate \<Rightarrow> call_index \<Rightarrow> match_opts \<Rightarrow> (string \<Rightarrow> int option) \<Rightarrow> jobj \<Rightarrow> jobj" where
  "fallback_window_evidence cdr idx opts used base =
     (let near = score_fallback_candidates cdr (idx_all idx) used (m_fallback_ms opts) (m_suffix_len opts);
          wide = score_fallback_candidates cdr (idx_all idx) used (m_fallback_max_ms opts) (m_suffix_len opts);
          ev1 = obj_set base ''candidates_in_window'' (JNum (int (length near)))
      in if near = [] then
           obj_set (obj_set ev1 ''expanded_window'' (JBool True))
             ''candidates_in_window'' (JNum (int (length wide)))
         else ev1)"

definition fallback_gate_evidence :: "jobj \<Rightarrow> match_opts \<Rightarrow> scored_call \<Rightarrow> scored_call list \<Rightarrow> jobj" where
  "fallback_gate_evidence base opts best rest =
     (let ev3 = obj_set base ''gates''
            (JObj [(''min_score'', JNum (m_min_score opts)), (''margin'', JNum (m_margin opts)),
                   (''best_score'', JNum (s_score best)), (''number_ok'', JBool (number_ok best)),
                   (''ip_ok'', JBool (ip_ok best))]);
          ev4 = obj_set ev3 ''selected''
            (JObj [(''cdrId'', JStr (vm_cdr_id (s_call best))),
                   (''callId'', JStr (vm_call_id (s_call best))), (''score'', JNum (s_score best))])
      in case rest of
           runner # _ \<Rightarrow> obj_set ev4 ''runner_up''
             (JObj [(''cdrId'', JStr (vm_cdr_id (s_call runner))),
                    (''callId'', JStr (vm_call_id (s_call runner))),
                    (''score'', JNum (s_score runner))])
         | [] \<Rightarrow> ev4)"

text \<open>The pair of the source: a miss, or a pending match.\<close>

definition stage_fallback ::
  "cdr_candidate \<Rightarrow> call_index \<Rightarrow> match_opts \<Rightarrow> (string \<Rightarrow> int option) \<Rightarrow> jobj
   \<Rightarrow> match_result + pending_match" where
  "stage_fallback cdr idx opts used fetch_meta =
     (let ev2 = fallback_window_evidence cdr idx opts used (fallback_base_evidence cdr fetch_meta)
      in case fallback_scored cdr idx opts used of
           [] \<Rightarrow> Inl (miss_result (fallback_seed cdr) ev2)
         | best # rest \<Rightarrow>
             (let ev5 = fallback_gate_evidence ev2 opts best rest
              in if \<not> number_ok best \<and> \<not> ip_ok best
                   then Inl (miss_result Miss_empty_callid_weak_signal ev5)
                 else if \<not> number_ok best \<and> \<not> allow_ip_only best
                   then Inl (miss_result Miss_fallback_below_threshold ev5)
                 else if s_score best < m_min_score opts
                   then Inl (miss_result Miss_fallback_below_threshold ev5)
                 else if (case rest of runner # _ \<Rightarrow> s_score best - s_score runner < m_margin opts
                                     | [] \<Rightarrow> False)
                   then Inl \<lparr>r_status = Ambiguous, r_method = fallback_method,
                             r_score = s_score best, r_vm = None, r_card_url = [],
                             r_legs = no_legs,
                             r_evidence = obj_set ev5 ''miss_reason''
                               (JStr (miss_text Miss_fallback_ambiguous)),
                             r_matched_at = None, r_miss_reason = Some Miss_fallback_ambiguous\<rparr>
                 else
                   (let pools = classify_fallback_pools cdr (s_call best) (m_suffix_len opts)
                                  (m_margin opts) (m_min_score opts)
                    in Inr \<lparr>cand_idx = 0, p_call = s_call best, p_score = s_score best,
                            p_method = fallback_method, p_status = Matched_fallback,
                            p_evidence = ev5, in_pool = fst pools, out_pool = snd pools\<rparr>)))"

section \<open>Lemmas on the index\<close>

text \<open>A call of the service carries a trimmed VoIPmonitor id, as \<open>firstString\<close> makes it.\<close>

definition wf_call :: "vm_call \<Rightarrow> bool" where
  "wf_call c \<longleftrightarrow> trim (vm_cdr_id c) = vm_cdr_id c"

definition wf_index :: "call_index \<Rightarrow> bool" where
  "wf_index idx \<longleftrightarrow>
     (\<forall>k g c. by_call_id idx k = Some g \<longrightarrow> c \<in> set g \<longrightarrow>
        k \<in> set (call_id_variants (vm_call_id c)) \<and> wf_call c) \<and>
     (\<forall>c \<in> set (idx_all idx). wf_call c)"

lemma set_append_unique_call: "set (append_unique_call xs c) \<subseteq> insert c (set xs)"
  by (auto simp: append_unique_call_def)

lemma fold_index_call_id:
  assumes "fold (index_call_id call) ks m k = Some g" and "c \<in> set g"
  shows "(\<exists>g'. m k = Some g' \<and> c \<in> set g') \<or> (k \<in> set ks \<and> c = call)"
  using assms
proof (induction ks arbitrary: m)
  case (Cons a ks)
  from Cons.prems have "fold (index_call_id call) ks (index_call_id call a m) k = Some g" by simp
  from Cons.IH [OF this Cons.prems(2)] show ?case
    using set_append_unique_call
    by (fastforce simp: index_call_id_def split: if_splits option.splits)
qed auto

lemma by_call_id_merge_call:
  "by_call_id (merge_call idx call)
     = fold (index_call_id call) (call_id_variants (vm_call_id call)) (by_call_id idx)"
  by (auto simp: merge_call_def Let_def split: option.splits)

lemma idx_all_merge_call: "set (idx_all (merge_call idx call)) \<subseteq> insert call (set (idx_all idx))"
  by (auto simp: merge_call_def Let_def split: option.splits)

lemma wf_index_merge_call:
  assumes wf: "wf_index idx" and c: "wf_call call"
  shows "wf_index (merge_call idx call)"
proof -
  have "k \<in> set (call_id_variants (vm_call_id x)) \<and> wf_call x"
    if "by_call_id (merge_call idx call) k = Some g" "x \<in> set g" for k g x
    using fold_index_call_id [of call "call_id_variants (vm_call_id call)" "by_call_id idx" k g x]
      that wf c by (auto simp: by_call_id_merge_call wf_index_def)
  moreover have "wf_call x" if "x \<in> set (idx_all (merge_call idx call))" for x
    using that idx_all_merge_call [of idx call] wf c by (auto simp: wf_index_def)
  ultimately show ?thesis by (simp add: wf_index_def)
qed

lemma wf_index_merge_calls:
  "wf_index idx \<Longrightarrow> \<forall>c \<in> set calls. wf_call c \<Longrightarrow> wf_index (merge_calls idx calls)"
  by (induction calls arbitrary: idx) (simp_all add: merge_calls_def wf_index_merge_call)

lemma wf_index_build: "\<forall>c \<in> set calls. wf_call c \<Longrightarrow> wf_index (build_call_index calls)"
  unfolding build_call_index_def by (rule wf_index_merge_calls) (simp_all add: wf_index_def)

lemma in_concat_mapI: "y \<in> set xs \<Longrightarrow> x \<in> set (f y) \<Longrightarrow> x \<in> set (concat (map f xs))"
  by auto

lemma in_exact_groups:
  "(i, norm, g) \<in> set (exact_groups cdr idx) \<longleftrightarrow>
     i < length (sip_call_ids cdr) \<and> norm \<in> set (call_id_variants (sip_call_ids cdr ! i))
     \<and> by_call_id idx norm = Some g \<and> g \<noteq> []" (is "?l \<longleftrightarrow> ?r")
proof
  show "?l \<Longrightarrow> ?r"
    by (auto simp: exact_groups_def in_set_enumerate_eq split: option.splits if_splits)
next
  assume r: ?r
  then have "(i, norm, g) \<in> set (case by_call_id idx norm of None \<Rightarrow> []
      | Some g \<Rightarrow> if g = [] then [] else [(i, norm, g)])" by simp
  with r show ?l unfolding exact_groups_def
    by (intro in_concat_mapI [of "(i, sip_call_ids cdr ! i)"])
       (auto simp: in_set_enumerate_eq intro!: bexI [of _ norm] exI [of _ g])
qed

lemma exact_groupsD:
  assumes "(i, norm, g) \<in> set (exact_groups cdr idx)"
  shows "\<exists>raw \<in> set (sip_call_ids cdr). norm \<in> set (call_id_variants raw)
           \<and> by_call_id idx norm = Some g \<and> g \<noteq> []"
  using assms by (auto simp: in_exact_groups intro!: bexI [of _ "sip_call_ids cdr ! i"])

lemma exact_hitsD:
  assumes "wf_index idx" and "h \<in> set (exact_hits cdr idx)"
  shows "wf_call h \<and> (\<exists>raw \<in> set (sip_call_ids cdr). call_ids_equal raw (vm_call_id h))"
proof -
  from assms(2) obtain i norm g where g: "(i, norm, g) \<in> set (exact_groups cdr idx)" "h \<in> set g"
    unfolding exact_hits_def using uniq_by_subset by fastforce
  from exact_groupsD [OF g(1)] obtain raw where "raw \<in> set (sip_call_ids cdr)"
    "norm \<in> set (call_id_variants raw)" "by_call_id idx norm = Some g" by blast
  with assms(1) g(2) show ?thesis unfolding wf_index_def by (meson shared_variant_equal)
qed

lemma exact_groups_iff:
  "exact_groups cdr idx \<noteq> [] \<longleftrightarrow> (\<exists>raw \<in> set (sip_call_ids cdr). call_id_in_index idx raw)"
proof
  assume "exact_groups cdr idx \<noteq> []"
  then obtain x where "x \<in> set (exact_groups cdr idx)" by (meson last_in_set)
  moreover obtain i norm g where "x = (i, norm, g)" by (cases x)
  ultimately obtain raw where "raw \<in> set (sip_call_ids cdr)" "norm \<in> set (call_id_variants raw)"
    "by_call_id idx norm = Some g" "g \<noteq> []" using exact_groupsD by blast
  then show "\<exists>raw \<in> set (sip_call_ids cdr). call_id_in_index idx raw"
    by (auto simp: call_id_in_index_def list_ex_iff intro!: bexI)
next
  assume "\<exists>raw \<in> set (sip_call_ids cdr). call_id_in_index idx raw"
  then obtain raw norm g where r: "raw \<in> set (sip_call_ids cdr)"
    "norm \<in> set (call_id_variants raw)" "by_call_id idx norm = Some g" "g \<noteq> []"
    by (auto simp: call_id_in_index_def list_ex_iff split: option.splits)
  then obtain i where "i < length (sip_call_ids cdr)" "sip_call_ids cdr ! i = raw"
    by (meson in_set_conv_nth)
  with r have "(i, norm, g) \<in> set (exact_groups cdr idx)" by (simp add: in_exact_groups)
  then show "exact_groups cdr idx \<noteq> []" by auto
qed

lemma exact_hits_eq_Nil: "exact_hits cdr idx = [] \<longleftrightarrow> exact_groups cdr idx = []"
proof
  assume e: "exact_hits cdr idx = []"
  show "exact_groups cdr idx = []"
  proof (rule ccontr)
    assume "exact_groups cdr idx \<noteq> []"
    then obtain i norm g where g: "(i, norm, g) \<in> set (exact_groups cdr idx)"
      by (cases "exact_groups cdr idx") auto
    from exact_groupsD [OF g] have "g \<noteq> []" by blast
    with e g show False by (force simp: exact_hits_def uniq_by_eq_Nil)
  qed
qed (simp add: exact_hits_def)

lemma order_legs_set [simp]: "set (order_legs cdr hits n) = set hits"
  by (force simp: order_legs_def score_one_def Let_def)

lemma first_some_mem: "first_some xs = Some x \<Longrightarrow> Some x \<in> set xs"
  by (induction xs rule: first_some.induct) auto

lemma first_some_ex: "Some x \<in> set xs \<Longrightarrow> first_some xs \<noteq> None"
  by (induction xs rule: first_some.induct) auto

lemma nth_opt_mem: "nth_opt xs n = Some x \<Longrightarrow> x \<in> set xs"
  by (auto simp: nth_opt_def split: if_splits)

lemma stage_exact_iff:
  "stage_exact cdr idx opts pa \<noteq> None \<longleftrightarrow> (\<exists>raw \<in> set (sip_call_ids cdr). call_id_in_index idx raw)"
proof -
  have "stage_exact cdr idx opts pa \<noteq> None \<longleftrightarrow> exact_groups cdr idx \<noteq> []"
    using exact_hits_eq_Nil [of cdr idx]
    by (auto simp: stage_exact_def Let_def exact_groups_def split: list.splits prod.splits)
  then show ?thesis by (simp add: exact_groups_iff)
qed

lemma exact_winner_mem:
  assumes "set a \<subseteq> H" "set b \<subseteq> H" "set c \<subseteq> H" "h \<in> H"
  shows "exact_winner a b c h \<in> H"
proof -
  let ?l = "[nth_opt a 0, nth_opt b 0, nth_opt c 0, Some h]"
  have "first_some ?l \<noteq> None" by (rule first_some_ex [of h]) simp
  then obtain x where x: "first_some ?l = Some x" by blast
  from first_some_mem [OF x] have "Some x \<in> set ?l" .
  then have "nth_opt a 0 = Some x \<or> nth_opt b 0 = Some x \<or> nth_opt c 0 = Some x \<or> x = h"
    by (simp add: eq_commute)
  then have "x \<in> H" using assms nth_opt_mem by (metis subsetD)
  with x show ?thesis by (simp add: exact_winner_def)
qed

lemma stage_exactD:
  assumes "stage_exact cdr idx opts pa = Some pm"
  shows "p_status pm = Matched_exact \<and> p_score pm = 100
    \<and> p_call pm \<in> set (exact_hits cdr idx)
    \<and> set (in_pool pm) \<subseteq> set (exact_hits cdr idx) \<and> set (out_pool pm) \<subseteq> set (exact_hits cdr idx)"
proof -
  let ?H = "exact_hits cdr idx"
  have legs: "set (legs_in_role cdr opts role ?H) \<subseteq> set ?H" for role
    by (auto simp: legs_in_role_def)
  from assms obtain h hs where "?H = h # hs"
    by (auto simp: stage_exact_def Let_def split: if_splits list.splits prod.splits)
  then have "p_status pm = Matched_exact \<and> p_score pm = 100
     \<and> in_pool pm = legs_in_role cdr opts fst ?H \<and> out_pool pm = legs_in_role cdr opts snd ?H
     \<and> p_call pm = exact_winner (in_pool pm) (out_pool pm)
         (legs_in_role cdr opts (\<lambda>r. \<not> fst r \<and> \<not> snd r) ?H) h \<and> h \<in> set ?H"
    using assms by (auto simp: stage_exact_def Let_def split: if_splits list.splits prod.splits)
  with legs show ?thesis by (metis exact_winner_mem)
qed

lemma score_bounds: "0 \<le> s_score (score_one cdr hit n b) \<and> s_score (score_one cdr hit n b) \<le> 100"
  by (auto simp: score_one_def Let_def time_points_def duration_points_def connect_points_def
           split: option.splits)

section \<open>Lemmas on the fallback stage\<close>

interpretation fallback_order: js_comparator fallback_cmp
  by unfold_locales (auto simp: fallback_cmp_def split: if_splits)

lemma fallback_cmp_score: "fallback_cmp a b \<le> 0 \<Longrightarrow> s_score b \<le> s_score a"
  by (auto simp: fallback_cmp_def split: if_splits)

lemma s_call_score_one [simp]: "s_call (score_one cdr hit n b) = hit"
  by (simp add: score_one_def Let_def)

lemma fallback_scoredD:
  assumes "s \<in> set (score_fallback_candidates cdr calls used w n)"
  shows "s_call s \<in> set calls \<and> fallback_eligible cdr used w (s_call s)
    \<and> s = score_one cdr (s_call s) n True \<and> fallback_keep s"
proof -
  from assms have "s \<in> (\<lambda>hit. score_one cdr hit n True) ` {c \<in> set calls. fallback_eligible cdr used w c}"
    and "fallback_keep s" by (simp_all add: score_fallback_candidates_def)
  then show ?thesis by (elim imageE) simp
qed

lemma score_fallback_sorted:
  "sorted_wrt (\<lambda>a b. s_score b \<le> s_score a) (score_fallback_candidates cdr calls used w n)"
  unfolding score_fallback_candidates_def
  by (rule sorted_wrt_mono_rel [OF _ fallback_order.sort_sorted]) (rule fallback_cmp_score)

lemma fallback_scored_sorted:
  "sorted_wrt (\<lambda>a b. s_score b \<le> s_score a) (fallback_scored cdr idx opts used)"
  by (simp add: fallback_scored_def Let_def score_fallback_sorted)

lemma fallback_scored_mem:
  assumes "s \<in> set (fallback_scored cdr idx opts used)"
  shows "s_call s \<in> set (idx_all idx)
    \<and> \<not> (vm_cdr_id (s_call s) \<noteq> [] \<and> used (vm_cdr_id (s_call s)) \<noteq> None)
    \<and> s = score_one cdr (s_call s) (m_suffix_len opts) True \<and> fallback_keep s"
  using assms fallback_scoredD unfolding fallback_scored_def Let_def
  by (auto simp: fallback_eligible_def split: if_splits dest!: fallback_scoredD)

lemma classify_fallback_pools_mem:
  "x \<in> set (fst (classify_fallback_pools cdr hit n m s)) \<Longrightarrow> x = hit"
  "x \<in> set (snd (classify_fallback_pools cdr hit n m s)) \<Longrightarrow> x = hit"
  by (auto simp: classify_fallback_pools_def Let_def split: if_splits)

definition miss_like :: "match_result \<Rightarrow> bool" where
  "miss_like r \<longleftrightarrow> (r_status r = Unmatched \<or> r_status r = Ambiguous) \<and> r_card_url r = []
     \<and> r_vm r = None \<and> r_legs r = no_legs \<and> r_miss_reason r \<noteq> None"

lemma miss_like_miss_result [simp]: "miss_like (miss_result reason ev)"
  by (auto simp: miss_like_def miss_result_def)

lemma fallback_evidence_hits:
  "map_of (fallback_gate_evidence
     (fallback_window_evidence cdr idx opts used (fallback_base_evidence cdr fm)) opts best rest)
     ''call_id_hits'' = Some (JNum 0)"
  by (simp add: fallback_gate_evidence_def fallback_window_evidence_def fallback_base_evidence_def
        Let_def split: list.splits)

lemma stage_fallback_miss: "stage_fallback cdr idx opts used fm = Inl r \<Longrightarrow> miss_like r"
  by (auto simp: stage_fallback_def Let_def miss_like_def miss_result_def
           split: list.splits if_splits)

lemma stage_fallbackD:
  assumes "stage_fallback cdr idx opts used fm = Inr pm"
  shows "\<exists>best rest. fallback_scored cdr idx opts used = best # rest
    \<and> p_call pm = s_call best \<and> p_score pm = s_score best \<and> p_status pm = Matched_fallback
    \<and> map_of (p_evidence pm) ''call_id_hits'' = Some (JNum 0)
    \<and> set (in_pool pm) \<subseteq> {p_call pm} \<and> set (out_pool pm) \<subseteq> {p_call pm}
    \<and> (number_ok best \<or> allow_ip_only best) \<and> m_min_score opts \<le> s_score best
    \<and> (\<forall>s \<in> set rest. m_margin opts \<le> s_score best - s_score s)"
proof -
  from assms obtain best rest where fs: "fallback_scored cdr idx opts used = best # rest"
    by (auto simp: stage_fallback_def Let_def split: list.splits)
  have gap: "m_margin opts \<le> s_score best - s_score s"
    if "rest = r # rs" "\<not> s_score best - s_score r < m_margin opts" "s \<in> set rest" for r rs s
    using fallback_scored_sorted [of cdr idx opts used] fs that by fastforce
  show ?thesis
  proof (intro exI [of _ best] exI [of _ rest] conjI)
    show "\<forall>s \<in> set rest. m_margin opts \<le> s_score best - s_score s"
      using assms fs gap by (cases rest) (auto simp: stage_fallback_def Let_def split: if_splits)
  qed (use assms fs in \<open>auto simp: stage_fallback_def Let_def fallback_evidence_hits
        dest: classify_fallback_pools_mem split: if_splits list.splits\<close>)
qed

end
