(* ===== verification/Vm_Assign.thy ===== *)
theory Vm_Assign
  imports Vm_Match
begin

text \<open>
  VoIPmonitor matcher, one hour bucket (\<open>match.ts\<close>: \<open>assignBucket\<close>, \<open>matchBucket\<close>,
  \<open>matchOne\<close>; \<open>probe-budget.ts\<close>). The reservation map \<open>used\<close> sends a key to the candidate
  that holds it, -1 for a call another CDR already has. The VoIPmonitor service is a pair of
  functions of the query (and, for single lookups, of how many lookups came before).
  Wall-clock measurements of the statistics are left out.
\<close>

section \<open>assignBucket\<close>

record bucket_state =
  b_used :: "string \<Rightarrow> int option"
  b_results :: "match_result list"
  b_assigned :: "bool list"

fun reserve_all :: "string list \<Rightarrow> (string \<Rightarrow> int option) \<Rightarrow> (string \<Rightarrow> int option)" where
  "reserve_all [] used = used"
| "reserve_all (c # cs) used =
     reserve_all cs (if trim c \<noteq> [] then used(trim c \<mapsto> -1) else used)"

definition pending_cmp :: "pending_match \<Rightarrow> pending_match \<Rightarrow> int" where
  "pending_cmp a b =
     (if p_score a \<noteq> p_score b then p_score b - p_score a
      else int (cand_idx a) - int (cand_idx b))"

definition bucket_initial :: "matcher_options \<Rightarrow> cdr_candidate list \<Rightarrow> bucket_state" where
  "bucket_initial options cands =
     \<lparr>b_used = reserve_all (o_reserved_cdr_ids options) Map.empty,
      b_results = replicate (length cands) (miss_result Miss_no_candidates_in_window []),
      b_assigned = replicate (length cands) False\<rparr>"

definition exact_pendings ::
  "cdr_candidate list \<Rightarrow> call_index \<Rightarrow> match_opts \<Rightarrow> jobj \<Rightarrow> jval list \<Rightarrow> pending_match list" where
  "exact_pendings cands idx opts fetch_meta probes =
     js_sort pending_cmp
       (List.map_filter (\<lambda>(i, cdr).
          map_option (\<lambda>pm. pm\<lparr>cand_idx := i,
              p_evidence := obj_set (p_evidence pm) ''hour_fetch'' (JObj fetch_meta)\<rparr>)
            (stage_exact cdr idx opts (Some probes)))
         (enumerate 0 cands))"

text \<open>
  \<open>pm.call\<close> is always present, so the primary leg always exists here and the
  assigned-elsewhere branch of the source's first loop has no input.
\<close>

definition exact_step :: "matcher_options \<Rightarrow> int \<Rightarrow> bucket_state \<Rightarrow> pending_match \<Rightarrow> bucket_state" where
  "exact_step options now st pm =
     (if b_assigned st ! cand_idx pm then st
      else
        (let i = cand_idx pm;
             in_leg = pick_unused_leg (in_pool pm) (b_used st) i;
             out_leg = pick_unused_leg (out_pool pm) (b_used st) i;
             used1 = claim_leg (claim_leg (b_used st) i in_leg) i out_leg;
             primary = (case in_leg of Some l \<Rightarrow> l | None \<Rightarrow>
                         (case out_leg of Some l \<Rightarrow> l | None \<Rightarrow> p_call pm));
             used2 = (if in_leg = None \<and> out_leg = None
                      then claim_leg used1 i (Some (p_call pm)) else used1);
             ev = obj_set (p_evidence pm) ''selected''
               (JObj [(''cdrId'', JStr (vm_cdr_id primary)), (''callId'', JStr (vm_call_id primary)),
                      (''score'', JNum (p_score pm))])
         in \<lparr>b_used = used2,
             b_results = (b_results st)[i :=
               success_result (o_gui_base options)
                 (case o_card_template options of Some t \<Rightarrow> t | None \<Rightarrow> [])
                 primary (p_status pm) (p_method pm) (p_score pm) ev now in_leg out_leg],
             b_assigned = (b_assigned st)[i := True]\<rparr>))"

text \<open>One candidate of the first fallback loop: a miss is written, a pending match collected.\<close>

definition fallback_collect ::
  "call_index \<Rightarrow> match_opts \<Rightarrow> jobj \<Rightarrow> bucket_state \<times> pending_match list
   \<Rightarrow> nat \<times> cdr_candidate \<Rightarrow> bucket_state \<times> pending_match list" where
  "fallback_collect idx opts fetch_meta acc ic =
     (let st = fst acc; i = fst ic in
      if b_assigned st ! i then acc
      else (case stage_fallback (snd ic) idx opts (b_used st) fetch_meta of
              Inl miss \<Rightarrow> (st\<lparr>b_results := (b_results st)[i := miss]\<rparr>, snd acc)
            | Inr pm \<Rightarrow> (st, snd acc @ [pm\<lparr>cand_idx := i\<rparr>])))"

definition fallback_step :: "matcher_options \<Rightarrow> int \<Rightarrow> bucket_state \<Rightarrow> pending_match \<Rightarrow> bucket_state" where
  "fallback_step options now st pm =
     (if b_assigned st ! cand_idx pm then st
      else
        (let i = cand_idx pm;
             taken = (case reservation_key (p_call pm) of
                        None \<Rightarrow> None
                      | Some key \<Rightarrow>
                          (case b_used st key of
                             None \<Rightarrow> None
                           | Some owner \<Rightarrow> if owner \<noteq> int i then Some owner else None))
         in case taken of
              Some owner \<Rightarrow>
                st\<lparr>b_results := (b_results st)[i :=
                     miss_result Miss_assigned_elsewhere
                       (obj_set (obj_set (p_evidence pm) ''miss_reason''
                           (JStr (miss_text Miss_assigned_elsewhere)))
                         ''taken_by_candidate'' (JNum owner))]\<rparr>
            | None \<Rightarrow>
                (let used0 = claim_leg (b_used st) i (Some (p_call pm));
                     in_leg = pick_unused_leg (in_pool pm) used0 i;
                     out_leg = pick_unused_leg (out_pool pm) used0 i
                 in \<lparr>b_used = claim_leg (claim_leg used0 i in_leg) i out_leg,
                     b_results = (b_results st)[i :=
                       success_result (o_gui_base options)
                         (case o_card_template options of Some t \<Rightarrow> t | None \<Rightarrow> [])
                         (p_call pm) (p_status pm) (p_method pm) (p_score pm) (p_evidence pm)
                         now in_leg out_leg],
                     b_assigned = (b_assigned st)[i := True]\<rparr>)))"

definition final_result ::
  "cdr_candidate list \<Rightarrow> jobj \<Rightarrow> bucket_state \<Rightarrow> nat \<Rightarrow> match_result" where
  "final_result cands fetch_meta st i =
     (if \<not> b_assigned st ! i \<and> r_status (b_results st ! i) = Status_empty
      then miss_result Miss_no_candidates_in_window
             [(''stage'', JStr ''unassigned''),
              (''source_call_ids_normalized'', jstrs (source_call_id_norms (cands ! i))),
              (''hour_fetch'', JObj fetch_meta)]
      else b_results st ! i)"

definition exact_phase ::
  "matcher_options \<Rightarrow> cdr_candidate list \<Rightarrow> call_index \<Rightarrow> match_opts \<Rightarrow> int \<Rightarrow> jobj \<Rightarrow> jval list
   \<Rightarrow> bucket_state" where
  "exact_phase options cands idx opts now fetch_meta probes =
     foldl (exact_step options now) (bucket_initial options cands)
       (exact_pendings cands idx opts fetch_meta probes)"

definition collect_phase ::
  "cdr_candidate list \<Rightarrow> call_index \<Rightarrow> match_opts \<Rightarrow> jobj \<Rightarrow> bucket_state
   \<Rightarrow> bucket_state \<times> pending_match list" where
  "collect_phase cands idx opts fetch_meta st =
     foldl (fallback_collect idx opts fetch_meta) (st, []) (enumerate 0 cands)"

definition assign_state ::
  "matcher_options \<Rightarrow> cdr_candidate list \<Rightarrow> call_index \<Rightarrow> match_opts \<Rightarrow> int \<Rightarrow> jobj \<Rightarrow> jval list
   \<Rightarrow> bucket_state" where
  "assign_state options cands idx opts now fetch_meta probes =
     (let c = collect_phase cands idx opts fetch_meta
                (exact_phase options cands idx opts now fetch_meta probes)
      in foldl (fallback_step options now) (fst c) (js_sort pending_cmp (snd c)))"

definition assign_bucket ::
  "matcher_options \<Rightarrow> cdr_candidate list \<Rightarrow> call_index \<Rightarrow> match_opts \<Rightarrow> int \<Rightarrow> jobj \<Rightarrow> jval list
   \<Rightarrow> match_result list" where
  "assign_bucket options cands idx opts now fetch_meta probes =
     (let st = assign_state options cands idx opts now fetch_meta probes
      in map (final_result cands fetch_meta st) [0..<length (b_results st)])"

section \<open>matchBucket\<close>

datatype match_lane = Live | Archive

definition probe_budget_for_lane :: "match_lane \<Rightarrow> int \<Rightarrow> int" where
  "probe_budget_for_lane lane max_attempt_count =
     (if lane = Live then live_probe_budget
      else if max_attempt_count \<ge> 1 then archive_retry_probe_budget else 0)"

definition effective_probe_budget :: "int \<Rightarrow> int \<Rightarrow> bool \<Rightarrow> int" where
  "effective_probe_budget requested hour_fetch_count fetch_looks_incomplete =
     (if hour_fetch_count \<le> 0 then 0
      else if fetch_looks_incomplete then max requested archive_retry_probe_budget
      else max 0 requested)"

definition should_fetch_another_archive_hour :: "bool \<Rightarrow> int \<Rightarrow> int \<Rightarrow> bool" where
  "should_fetch_another_archive_hour already_fetched_one now_ms deadline_ms =
     (if \<not> already_fetched_one then True else now_ms < deadline_ms)"

definition looks_like_result_cap :: "nat \<Rightarrow> bool" where
  "looks_like_result_cap count = (count = 500 \<or> count = 1000 \<or> count = 2000)"

record range_fetch_meta =
  slice_splits :: int
  fm_clipped :: bool
  suspected_cap :: bool

record voip_client =
  list_range :: "int \<Rightarrow> int \<Rightarrow> string + vm_call list \<times> range_fetch_meta option"
  get_calls :: "nat \<Rightarrow> string \<Rightarrow> string \<Rightarrow> string \<Rightarrow> string + vm_call list"

record bucket_stats =
  st_hour_fetch_count :: int
  st_probes :: int
  st_probe_budget :: int
  st_slice_splits :: int
  st_clipped :: bool
  st_suspected_cap :: bool

definition empty_stats :: "int \<Rightarrow> int \<Rightarrow> bucket_stats" where
  "empty_stats hour_fetch_count probe_budget =
     \<lparr>st_hour_fetch_count = hour_fetch_count, st_probes = 0, st_probe_budget = probe_budget,
      st_slice_splits = 0, st_clipped = False, st_suspected_cap = False\<rparr>"

definition format_api_time :: "int \<Rightarrow> string" where
  "format_api_time value = (let c = civil_of_ms value in ymd_str c @ '' '' @ hms_str c)"

text \<open>Both bounds of the set-up times; the upper one is one second later.\<close>

definition bucket_bounds :: "cdr_candidate \<Rightarrow> cdr_candidate list \<Rightarrow> int \<times> int" where
  "bucket_bounds c cs =
     (foldl (\<lambda>acc x. if setup_time x < acc then setup_time x else acc) (setup_time c) cs,
      foldl (\<lambda>acc x. if setup_time x > acc then setup_time x else acc) (setup_time c) cs + 1000)"

record probe_state =
  ps_index :: call_index
  ps_attempts :: "jval list"
  ps_seen :: "string list"

text \<open>The query variants of one id: stop at the first lookup that returns calls.\<close>

fun probe_queries :: "voip_client \<Rightarrow> string \<Rightarrow> string \<Rightarrow> string list \<Rightarrow> probe_state \<Rightarrow> probe_state" where
  "probe_queries client t0 t1 [] ps = ps"
| "probe_queries client t0 t1 (q # qs) ps =
     (case get_calls client (length (ps_attempts ps)) t0 t1 q of
        Inr hits \<Rightarrow>
          (let ps1 = ps\<lparr>ps_attempts := ps_attempts ps @
                 [JObj [(''callId'', JStr q), (''hits'', JNum (int (length hits)))]]\<rparr>
           in if hits \<noteq> [] then ps1\<lparr>ps_index := merge_calls (ps_index ps1) hits\<rparr>
              else probe_queries client t0 t1 qs ps1)
      | Inl err \<Rightarrow>
          probe_queries client t0 t1 qs
            (ps\<lparr>ps_attempts := ps_attempts ps @
                 [JObj [(''callId'', JStr q), (''hits'', JNum 0), (''error'', JStr err)]]\<rparr>))"

fun probe_raws ::
  "voip_client \<Rightarrow> string \<Rightarrow> string \<Rightarrow> int \<Rightarrow> string list \<Rightarrow> probe_state \<Rightarrow> probe_state" where
  "probe_raws client t0 t1 budget [] ps = ps"
| "probe_raws client t0 t1 budget (raw # raws) ps =
     (if int (length (ps_seen ps)) \<ge> budget then ps
      else if trim raw = [] then probe_raws client t0 t1 budget raws ps
      else if normalize_call_id (trim raw) \<in> set (ps_seen ps)
           then probe_raws client t0 t1 budget raws ps
      else
        (let ps1 = probe_queries client t0 t1 (call_id_query_variants (trim raw)) ps
         in probe_raws client t0 t1 budget raws
              (ps1\<lparr>ps_seen := ps_seen ps1 @ [normalize_call_id (trim raw)]\<rparr>)))"

fun probe_cands ::
  "voip_client \<Rightarrow> string \<Rightarrow> string \<Rightarrow> int \<Rightarrow> cdr_candidate list \<Rightarrow> probe_state \<Rightarrow> probe_state" where
  "probe_cands client t0 t1 budget [] ps = ps"
| "probe_cands client t0 t1 budget (cdr # cdrs) ps =
     (if int (length (ps_seen ps)) \<ge> budget then ps
      else
        (let ids = missing_role_call_ids cdr (ps_index ps);
             raws = (if ids \<noteq> [] then ids else sip_call_ids cdr)
         in probe_cands client t0 t1 budget cdrs (probe_raws client t0 t1 budget raws ps)))"

record bucket_outcome =
  bo_results :: "match_result list"
  bo_error :: "string option"
  bo_stats :: bucket_stats

definition match_bucket ::
  "matcher_options \<Rightarrow> voip_client \<Rightarrow> int \<Rightarrow> cdr_candidate list \<Rightarrow> bucket_outcome" where
  "match_bucket options client now cands =
     (let opts = resolve_opts options;
          requested = (case o_probe_budget options of Some n \<Rightarrow> n | None \<Rightarrow> 0)
      in case cands of
           [] \<Rightarrow> \<lparr>bo_results = [], bo_error = None, bo_stats = empty_stats 0 requested\<rparr>
         | c # cs \<Rightarrow>
             (let bounds = bucket_bounds c cs;
                  fetch_from = fst bounds - m_call_id_window_ms opts;
                  fetch_to = snd bounds + m_call_id_window_ms opts
              in case list_range client fetch_from fetch_to of
                   Inl err \<Rightarrow>
                     \<lparr>bo_results = map (\<lambda>_. miss_result Miss_api_error
                          [(''stage'', JStr ''hour_fetch''), (''error'', JStr err),
                           (''fetch_from'', JStr (iso_string fetch_from)),
                           (''fetch_to'', JStr (iso_string fetch_to))]) cands,
                      bo_error = Some err, bo_stats = empty_stats 0 0\<rparr>
                 | Inr (hour_calls, meta) \<Rightarrow>
                     (let incomplete = (case meta of None \<Rightarrow> False
                                        | Some m \<Rightarrow> fm_clipped m \<or> suspected_cap m);
                          splits = (case meta of None \<Rightarrow> 0 | Some m \<Rightarrow> slice_splits m);
                          budget = effective_probe_budget requested (int (length hour_calls)) incomplete;
                          idx = build_call_index hour_calls;
                          misses = filter (\<lambda>cdr. stage_exact cdr idx opts None = None
                                             \<or> missing_role_call_ids cdr idx \<noteq> []) cands;
                          ps = probe_cands client (format_api_time fetch_from) (format_api_time fetch_to)
                                 budget misses \<lparr>ps_index = idx, ps_attempts = [], ps_seen = []\<rparr>;
                          fetch_meta =
                            [(''hour_fetch_count'', JNum (int (length hour_calls))),
                             (''fetch_from'', JStr (iso_string fetch_from)),
                             (''fetch_to'', JStr (iso_string fetch_to)),
                             (''probe_budget'', JNum budget),
                             (''slice_splits'', JNum splits),
                             (''suspected_cap'', JBool incomplete),
                             (''call_id_probes'', JNum (int (length (ps_attempts ps))))]
                      in \<lparr>bo_results = assign_bucket options cands (ps_index ps) opts now fetch_meta
                                         (ps_attempts ps),
                          bo_error = None,
                          bo_stats = \<lparr>st_hour_fetch_count = int (length hour_calls),
                            st_probes = int (length (ps_attempts ps)),
                            st_probe_budget = budget, st_slice_splits = splits,
                            st_clipped = (case meta of None \<Rightarrow> False | Some m \<Rightarrow> fm_clipped m),
                            st_suspected_cap = (case meta of None \<Rightarrow> False | Some m \<Rightarrow> suspected_cap m)\<rparr>\<rparr>)))"

definition match_one :: "matcher_options \<Rightarrow> voip_client \<Rightarrow> int \<Rightarrow> cdr_candidate \<Rightarrow> match_result \<times> string option" where
  "match_one options client now cdr =
     (let out = match_bucket options client now [cdr] in
      case bo_results out of
        [] \<Rightarrow> (\<lparr>r_status = Unmatched, r_method = ''none'', r_score = 0, r_vm = None, r_card_url = [],
               r_legs = no_legs, r_evidence = [], r_matched_at = None, r_miss_reason = None\<rparr>,
              bo_error out)
      | r # _ \<Rightarrow> (r, bo_error out))"

end
