(* ===== verification/Vm_Audit.thy ===== *)
theory Vm_Audit
  imports Vm_Assign
begin

text \<open>
  The audit the processor runs over a bucket before it writes (\<open>invariants.ts\<close>), and the proof
  that the matcher passes it: every issue but a legacy \<open>fId\<close> in the card address is ruled out.
  An issue is a constructor with the indices the source prints. \<open>JSON.parse\<close> of the stored
  evidence is the evidence object the model keeps.
\<close>

section \<open>invariants.ts\<close>

datatype link_issue =
    Length_mismatch
  | Url_without_match_status nat
  | Legacy_fid_url nat
  | Missing_miss_reason nat
  | Fallback_with_call_id_hits nat
  | Exact_call_id_invariant nat
  | Duplicate_vm_cdr_id nat nat string

definition is_matched_status :: "match_status \<Rightarrow> bool" where
  "is_matched_status status = (status = Matched_exact \<or> status = Matched_fallback)"

definition audit_exact_call_id_invariant :: "cdr_candidate \<Rightarrow> match_result \<Rightarrow> bool" where
  "audit_exact_call_id_invariant cdr r =
     (if r_status r \<noteq> Matched_exact then True
      else case r_vm r of
             None \<Rightarrow> False
           | Some vm \<Rightarrow> list_ex (\<lambda>raw. call_ids_equal raw (vm_call_id vm)) (sip_call_ids cdr))"

definition opt_leg_id :: "leg_ref option \<Rightarrow> string" where
  "opt_leg_id l = (case l of None \<Rightarrow> [] | Some x \<Rightarrow> leg_cdr_id x)"

definition result_ids :: "match_result \<Rightarrow> string list" where
  "result_ids r =
     uniq (filter (\<lambda>s. s \<noteq> [])
       [opt_cdr_id (r_vm r), opt_leg_id (leg_in (r_legs r)), opt_leg_id (leg_out (r_legs r))])"

fun audit_ids ::
  "match_result list \<Rightarrow> nat \<Rightarrow> string list \<Rightarrow> link_issue list \<times> (string \<Rightarrow> nat option)
   \<Rightarrow> link_issue list \<times> (string \<Rightarrow> nat option)" where
  "audit_ids results i [] acc = acc"
| "audit_ids results i (cdr_id # ids) (issues, used) =
     audit_ids results i ids
       (case used cdr_id of
          Some prev \<Rightarrow>
            (if r_status (results ! i) = Matched_exact \<and> r_status (results ! prev) = Matched_exact
             then issues else issues @ [Duplicate_vm_cdr_id prev i cdr_id], used)
        | None \<Rightarrow> (issues, used(cdr_id \<mapsto> i)))"

definition audit_flags :: "cdr_candidate \<Rightarrow> match_result \<Rightarrow> nat \<Rightarrow> link_issue list" where
  "audit_flags cdr r i =
     (if r_card_url r \<noteq> [] \<and> r_status r \<noteq> Matched_exact \<and> r_status r \<noteq> Matched_fallback
      then [Url_without_match_status i] else [])
     @ (if r_card_url r \<noteq> [] \<and> (str_includes ''fId:'' (r_card_url r)
            \<or> str_includes ''fId%3A'' (r_card_url r) \<or> str_includes ''fId%3a'' (r_card_url r))
        then [Legacy_fid_url i] else [])
     @ (if (r_status r = Unmatched \<or> r_status r = Ambiguous) \<and> r_miss_reason r = None
            \<and> map_of (r_evidence r) ''miss_reason'' = None
        then [Missing_miss_reason i] else [])
     @ (if r_status r = Matched_fallback
            \<and> map_of (r_evidence r) ''call_id_hits'' \<noteq> None
            \<and> map_of (r_evidence r) ''call_id_hits'' \<noteq> Some (JNum 0)
        then [Fallback_with_call_id_hits i] else [])
     @ (if \<not> audit_exact_call_id_invariant cdr r then [Exact_call_id_invariant i] else [])"

definition audit_step ::
  "cdr_candidate list \<Rightarrow> match_result list \<Rightarrow> link_issue list \<times> (string \<Rightarrow> nat option) \<Rightarrow> nat
   \<Rightarrow> link_issue list \<times> (string \<Rightarrow> nat option)" where
  "audit_step cands results acc i =
     (let r = results ! i;
          issues = fst acc @ audit_flags (cands ! i) r i
      in if is_matched_status (r_status r)
         then audit_ids results i (result_ids r) (issues, snd acc)
         else (issues, snd acc))"

definition audit_link_invariants :: "cdr_candidate list \<Rightarrow> match_result list \<Rightarrow> link_issue list" where
  "audit_link_invariants cands results =
     (if length cands \<noteq> length results then [Length_mismatch]
      else fst (foldl (audit_step cands results) ([], Map.empty) [0..<length results]))"

section \<open>What a sound bucket is\<close>

definition sound_result :: "cdr_candidate \<Rightarrow> match_result \<Rightarrow> bool" where
  "sound_result cdr r \<longleftrightarrow>
     miss_like r
     \<or> (r_status r = Matched_exact \<and> audit_exact_call_id_invariant cdr r)
     \<or> (r_status r = Matched_fallback \<and> map_of (r_evidence r) ''call_id_hits'' = Some (JNum 0))"

definition apart :: "match_result \<Rightarrow> match_result \<Rightarrow> bool" where
  "apart r s \<longleftrightarrow>
     is_matched_status (r_status r) \<longrightarrow> is_matched_status (r_status s)
     \<longrightarrow> \<not> (r_status r = Matched_exact \<and> r_status s = Matched_exact)
     \<longrightarrow> set (result_ids r) \<inter> set (result_ids s) = {}"

definition sound_bucket :: "cdr_candidate list \<Rightarrow> match_result list \<Rightarrow> bool" where
  "sound_bucket cands results \<longleftrightarrow>
     length results = length cands
     \<and> (\<forall>i < length cands. sound_result (cands ! i) (results ! i))
     \<and> (\<forall>i < length cands. \<forall>j < length cands. i \<noteq> j \<longrightarrow> apart (results ! i) (results ! j))"

lemma result_ids_miss [simp]: "miss_like r \<Longrightarrow> result_ids r = []"
  by (simp add: miss_like_def result_ids_def opt_cdr_id_def opt_leg_id_def no_legs_def)

lemma matched_not_miss: "miss_like r \<Longrightarrow> \<not> is_matched_status (r_status r)"
  by (auto simp: miss_like_def is_matched_status_def)

lemma audit_flags_sound:
  "sound_result cdr r \<Longrightarrow> set (audit_flags cdr r i) \<subseteq> {Legacy_fid_url i}"
  by (auto simp: sound_result_def audit_flags_def miss_like_def audit_exact_call_id_invariant_def)

definition audit_ok :: "match_result list \<Rightarrow> nat \<Rightarrow> link_issue list \<times> (string \<Rightarrow> nat option) \<Rightarrow> bool" where
  "audit_ok results i acc \<longleftrightarrow>
     set (fst acc) \<subseteq> range Legacy_fid_url
     \<and> (\<forall>k p. snd acc k = Some p \<longrightarrow> p \<le> i \<and> is_matched_status (r_status (results ! p))
                \<and> k \<in> set (result_ids (results ! p)))"

lemma audit_ids_ok:
  assumes "audit_ok results i acc" and "is_matched_status (r_status (results ! i))"
    and "set ids \<subseteq> set (result_ids (results ! i))"
    and "\<forall>p < i. apart (results ! i) (results ! p)"
    and "distinct ids" and "\<forall>k \<in> set ids. snd acc k \<noteq> Some i"
  shows "audit_ok results i (audit_ids results i ids acc)"
  using assms
proof (induction ids arbitrary: acc)
  case (Cons k ids)
  obtain issues used where acc: "acc = (issues, used)" by (cases acc)
  show ?case
  proof (cases "used k")
    case None
    have "audit_ok results i (issues, used(k \<mapsto> i))"
      using Cons.prems(1-3) by (auto simp: audit_ok_def acc)
    moreover have "\<forall>k' \<in> set ids. (used(k \<mapsto> i)) k' \<noteq> Some i"
      using Cons.prems(5,6) by (auto simp: acc)
    ultimately show ?thesis using Cons.IH [of "(issues, used(k \<mapsto> i))"] Cons.prems None
      by (simp add: acc)
  next
    case (Some p)
    with Cons.prems have p: "p < i" "is_matched_status (r_status (results ! p))"
        "k \<in> set (result_ids (results ! p))"
      by (auto simp: audit_ok_def acc le_less)
    with Cons.prems(2-4) have "r_status (results ! i) = Matched_exact \<and> r_status (results ! p) = Matched_exact"
      unfolding apart_def by (metis disjoint_iff list.set_intros(1) subsetD)
    then show ?thesis using Cons.IH [of acc] Cons.prems Some by (simp add: acc)
  qed
qed simp

lemma audit_step_ok:
  assumes "sound_bucket cands results" and "i < length cands"
    and "set (fst acc) \<subseteq> range Legacy_fid_url"
    and "\<forall>k p. snd acc k = Some p \<longrightarrow> p < i \<and> is_matched_status (r_status (results ! p))
                \<and> k \<in> set (result_ids (results ! p))"
  shows "audit_ok results i (audit_step cands results acc i)"
proof -
  let ?iss = "fst acc @ audit_flags (cands ! i) (results ! i) i"
  have "sound_result (cands ! i) (results ! i)" using assms(1,2) by (simp add: sound_bucket_def)
  then have "set ?iss \<subseteq> range Legacy_fid_url" using assms(3) audit_flags_sound by fastforce
  with assms(4) have ok: "audit_ok results i (?iss, snd acc)" by (auto simp: audit_ok_def less_imp_le)
  show ?thesis
  proof (cases "is_matched_status (r_status (results ! i))")
    case True
    have "\<forall>p < i. apart (results ! i) (results ! p)"
      using assms(1,2) by (auto simp: sound_bucket_def)
    moreover have "\<forall>k \<in> set (result_ids (results ! i)). snd (?iss, snd acc) k \<noteq> Some i"
      using assms(4) by auto
    ultimately have "audit_ok results i (audit_ids results i (result_ids (results ! i)) (?iss, snd acc))"
      by (intro audit_ids_ok ok True) (auto simp: result_ids_def)
    with True show ?thesis by (simp add: audit_step_def Let_def)
  qed (use ok in \<open>simp add: audit_step_def Let_def\<close>)
qed

lemma audit_sound:
  assumes "sound_bucket cands results"
  shows "set (audit_link_invariants cands results) \<subseteq> range Legacy_fid_url"
proof -
  have "set (fst (foldl (audit_step cands results) ([], Map.empty) [0..<n])) \<subseteq> range Legacy_fid_url
    \<and> (\<forall>k p. snd (foldl (audit_step cands results) ([], Map.empty) [0..<n]) k = Some p \<longrightarrow> p < n
         \<and> is_matched_status (r_status (results ! p)) \<and> k \<in> set (result_ids (results ! p)))"
    if "n \<le> length cands" for n
    using that
  proof (induction n)
    case (Suc n)
    then have "audit_ok results n (audit_step cands results
        (foldl (audit_step cands results) ([], Map.empty) [0..<n]) n)"
      by (intro audit_step_ok assms) auto
    then show ?case by (auto simp: audit_ok_def less_Suc_eq_le)
  qed simp
  from this [of "length cands"] assms show ?thesis
    by (simp add: audit_link_invariants_def sound_bucket_def)
qed

section \<open>The assignment keeps the bucket sound\<close>

definition owned :: "bucket_state \<Rightarrow> bool" where
  "owned st \<longleftrightarrow> (\<forall>k p. b_used st k = Some p \<longrightarrow>
     p = -1 \<or> (\<exists>j < length (b_assigned st). p = int j \<and> b_assigned st ! j))"

definition bucket_inv :: "cdr_candidate list \<Rightarrow> bucket_state \<Rightarrow> bool" where
  "bucket_inv cands st \<longleftrightarrow>
     length (b_assigned st) = length cands \<and> owned st
     \<and> sound_bucket cands (b_results st)
     \<and> (\<forall>i < length cands. \<not> b_assigned st ! i \<longrightarrow> miss_like (b_results st ! i))
     \<and> (\<forall>i < length cands. set (result_ids (b_results st ! i)) \<subseteq> dom (b_used st))"

lemma wf_reservation_key: "wf_call c \<Longrightarrow> vm_cdr_id c \<noteq> [] \<Longrightarrow> reservation_key c = Some (vm_cdr_id c)"
  by (simp add: wf_call_def reservation_key_def Let_def)

lemma dom_claim_leg: "dom (claim_leg used i leg) =
  dom used \<union> (case leg of None \<Rightarrow> {} | Some l \<Rightarrow> set_option (reservation_key l))"
  by (auto simp: claim_leg_def split: option.splits)

lemma claim_leg_owner:
  "claim_leg used i leg k = Some p \<Longrightarrow> used k = Some p \<or> p = int i"
  by (auto simp: claim_leg_def split: option.splits if_splits)

lemma claim_leg_other: "reservation_key l \<noteq> Some k \<Longrightarrow> claim_leg used i (Some l) k = used k"
  by (auto simp: claim_leg_def split: option.splits)

lemma pick_unused_leg_mem: "pick_unused_leg pool used i = Some l \<Longrightarrow> l \<in> set pool"
  by (simp add: pick_unused_leg_def find_Some_iff) (metis nth_mem)

lemma success_result_simps [simp]:
  "r_status (success_result g t c st m sc ev now li lo) = st"
  "r_vm (success_result g t c st m sc ev now li lo) = Some c"
  "r_evidence (success_result g t c st m sc ev now li lo) = obj_set ev ''selected''
     (JObj [(''cdrId'', JStr (vm_cdr_id c)), (''callId'', JStr (vm_call_id c)),
            (''score'', JNum sc), (''method'', JStr m)])"
  by (simp_all add: success_result_def Let_def)

lemma success_ids:
  "set (result_ids (success_result g t c st m sc ev now li lo))
     \<subseteq> {k. k \<noteq> [] \<and> (k = vm_cdr_id c \<or> (\<exists>l. (li = Some l \<or> lo = Some l) \<and> k = vm_cdr_id l))}"
  by (auto simp: result_ids_def success_result_def Let_def opt_cdr_id_def opt_leg_id_def leg_ref_of_def
           split: option.splits if_splits)

lemma sound_bucket_update:
  assumes "sound_bucket cands rs" and "i < length cands" and "sound_result (cands ! i) r"
    and "\<forall>j < length cands. j \<noteq> i \<longrightarrow> apart r (rs ! j) \<and> apart (rs ! j) r"
  shows "sound_bucket cands (rs[i := r])"
  using assms by (auto simp: sound_bucket_def nth_list_update)

lemma apart_miss: "miss_like r \<Longrightarrow> apart r s \<and> apart s r"
  using matched_not_miss by (auto simp: apart_def)

lemma bucket_inv_miss:
  assumes "bucket_inv cands st" and "i < length cands" and "\<not> b_assigned st ! i" and "miss_like r"
  shows "bucket_inv cands (st\<lparr>b_results := (b_results st)[i := r]\<rparr>)"
proof -
  have "sound_bucket cands ((b_results st)[i := r])"
    using assms apart_miss by (intro sound_bucket_update) (auto simp: bucket_inv_def sound_result_def)
  moreover have "length (b_results st) = length cands"
    using assms(1) by (simp add: bucket_inv_def sound_bucket_def)
  moreover have "owned (st\<lparr>b_results := (b_results st)[i := r]\<rparr>) = owned st" by (simp add: owned_def)
  ultimately show ?thesis
    using assms by (simp add: bucket_inv_def nth_list_update)
qed

text \<open>A result written for a free candidate, with its reservations, keeps the invariant.\<close>

lemma bucket_inv_success:
  assumes inv: "bucket_inv cands st" and i: "i < length cands"
    and snd: "sound_result (cands ! i) r"
    and ap: "\<forall>j < length cands. j \<noteq> i \<longrightarrow> apart r (b_results st ! j) \<and> apart (b_results st ! j) r"
    and dom: "dom (b_used st) \<subseteq> dom used" "set (result_ids r) \<subseteq> dom used"
    and own: "\<forall>k p. used k = Some p \<longrightarrow> b_used st k = Some p \<or> p = int i"
  shows "bucket_inv cands \<lparr>b_used = used, b_results = (b_results st)[i := r],
                            b_assigned = (b_assigned st)[i := True]\<rparr>"
proof -
  let ?st = "\<lparr>b_used = used, b_results = (b_results st)[i := r], b_assigned = (b_assigned st)[i := True]\<rparr>"
  have len: "length (b_results st) = length cands" "length (b_assigned st) = length cands"
    using inv by (simp_all add: bucket_inv_def sound_bucket_def)
  have "owned ?st"
    unfolding owned_def
  proof (intro allI impI)
    fix k p assume "b_used ?st k = Some p"
    then have "b_used st k = Some p \<or> p = int i" using own by simp
    then show "p = -1 \<or> (\<exists>j < length (b_assigned ?st). p = int j \<and> b_assigned ?st ! j)"
    proof
      assume "b_used st k = Some p"
      then have "p = -1 \<or> (\<exists>j < length (b_assigned st). p = int j \<and> b_assigned st ! j)"
        using inv unfolding bucket_inv_def owned_def by blast
      then show ?thesis using i len by (auto simp: nth_list_update)
    next
      assume "p = int i"
      then show ?thesis using i len by auto
    qed
  qed
  moreover have "sound_bucket cands ((b_results st)[i := r])"
    using inv i snd ap by (intro sound_bucket_update) (auto simp: bucket_inv_def)
  moreover have "\<forall>j < length cands. set (result_ids (b_results st ! j)) \<subseteq> dom used"
    using inv dom(1) unfolding bucket_inv_def by blast
  ultimately show ?thesis using inv i dom len by (simp add: bucket_inv_def nth_list_update)
qed

lemma free_index_not_owner:
  "bucket_inv cands st \<Longrightarrow> i < length cands \<Longrightarrow> \<not> b_assigned st ! i \<Longrightarrow> b_used st k \<noteq> Some (int i)"
proof
  assume inv: "bucket_inv cands st" and i: "i < length cands" "\<not> b_assigned st ! i"
    and k: "b_used st k = Some (int i)"
  from inv k have "int i = -1 \<or> (\<exists>j < length (b_assigned st). int i = int j \<and> b_assigned st ! j)"
    unfolding bucket_inv_def owned_def by blast
  with i show False by auto
qed

section \<open>Phase one\<close>

definition exact_pending_ok :: "cdr_candidate list \<Rightarrow> call_index \<Rightarrow> pending_match \<Rightarrow> bool" where
  "exact_pending_ok cands idx pm \<longleftrightarrow>
     cand_idx pm < length cands \<and> p_status pm = Matched_exact
     \<and> p_call pm \<in> set (exact_hits (cands ! cand_idx pm) idx)
     \<and> set (in_pool pm) \<subseteq> set (exact_hits (cands ! cand_idx pm) idx)
     \<and> set (out_pool pm) \<subseteq> set (exact_hits (cands ! cand_idx pm) idx)"

definition only_exact :: "bucket_state \<Rightarrow> bool" where
  "only_exact st \<longleftrightarrow> (\<forall>r \<in> set (b_results st). is_matched_status (r_status r) \<longrightarrow> r_status r = Matched_exact)"

lemma exact_step_inv:
  assumes wf: "wf_index idx" and inv: "bucket_inv cands st" and ex: "only_exact st"
    and pm: "exact_pending_ok cands idx pm"
  shows "bucket_inv cands (exact_step options now st pm) \<and> only_exact (exact_step options now st pm)"
proof (cases "b_assigned st ! cand_idx pm")
  case True
  then show ?thesis using inv ex by (simp add: exact_step_def)
next
  case False
  define i where "i = cand_idx pm"
  define il where "il = pick_unused_leg (in_pool pm) (b_used st) i"
  define ol where "ol = pick_unused_leg (out_pool pm) (b_used st) i"
  define used1 where "used1 = claim_leg (claim_leg (b_used st) i il) i ol"
  define used2 where "used2 = (if il = None \<and> ol = None then claim_leg used1 i (Some (p_call pm)) else used1)"
  define c where "c = (case il of Some l \<Rightarrow> l | None \<Rightarrow> (case ol of Some l \<Rightarrow> l | None \<Rightarrow> p_call pm))"
  define r where "r = success_result (o_gui_base options)
      (case o_card_template options of Some t \<Rightarrow> t | None \<Rightarrow> []) c (p_status pm) (p_method pm) (p_score pm)
      (obj_set (p_evidence pm) ''selected''
         (JObj [(''cdrId'', JStr (vm_cdr_id c)), (''callId'', JStr (vm_call_id c)),
                (''score'', JNum (p_score pm))])) now il ol"
  let ?H = "set (exact_hits (cands ! i) idx)"
  have step: "exact_step options now st pm =
      \<lparr>b_used = used2, b_results = (b_results st)[i := r], b_assigned = (b_assigned st)[i := True]\<rparr>"
    using False unfolding r_def c_def used2_def used1_def il_def ol_def i_def
    by (simp only: exact_step_def Let_def if_False)
  have i: "i < length cands" using pm by (simp add: exact_pending_ok_def i_def)
  have mem: "l \<in> ?H" if "il = Some l \<or> ol = Some l" for l
    using that pm pick_unused_leg_mem unfolding il_def ol_def exact_pending_ok_def i_def by blast
  have c: "c \<in> ?H" using mem pm by (auto simp: c_def exact_pending_ok_def i_def split: option.splits)
  have st: "r_status r = Matched_exact" using pm by (simp add: r_def exact_pending_ok_def)
  have "sound_result (cands ! i) r"
    using exact_hitsD [OF wf c] st
    by (auto simp: sound_result_def audit_exact_call_id_invariant_def r_def list_ex_iff)
  moreover have "apart r s \<and> apart s r" if "s \<in> set (b_results st)" for s
    using that ex st by (auto simp: apart_def only_exact_def)
  moreover have "length (b_results st) = length cands" using inv by (simp add: bucket_inv_def sound_bucket_def)
  moreover have "set (result_ids r) \<subseteq> dom used2"
  proof
    fix k assume "k \<in> set (result_ids r)"
    then have "k \<noteq> []" "k = vm_cdr_id c \<or> (\<exists>l. (il = Some l \<or> ol = Some l) \<and> k = vm_cdr_id l)"
      using success_ids unfolding r_def by blast+
    then obtain l where l: "k = vm_cdr_id l" "k \<noteq> []" "l \<in> ?H"
      "il = Some l \<or> ol = Some l \<or> (il = None \<and> ol = None \<and> l = p_call pm)"
      using mem c by (auto simp: c_def split: option.splits)
    then have "reservation_key l = Some k"
      using exact_hitsD [OF wf] wf_reservation_key by blast
    with l(4) show "k \<in> dom used2" by (auto simp: used2_def used1_def dom_claim_leg)
  qed
  moreover have "dom (b_used st) \<subseteq> dom used2" by (auto simp: used2_def used1_def dom_claim_leg)
  moreover have "\<forall>k p. used2 k = Some p \<longrightarrow> b_used st k = Some p \<or> p = int i"
    by (auto simp: used2_def used1_def split: if_splits dest!: claim_leg_owner)
  ultimately have "bucket_inv cands (exact_step options now st pm)"
    unfolding step by (intro bucket_inv_success inv i) auto
  moreover have "only_exact (exact_step options now st pm)"
    using ex st unfolding step only_exact_def by (auto dest!: set_update_subset_insert [THEN subsetD])
  ultimately show ?thesis by blast
qed

lemma reserve_all_eq:
  "reserve_all cs used k = (if k \<noteq> [] \<and> k \<in> trim ` set cs then Some (- 1) else used k)"
  by (induction cs arbitrary: used) auto

lemma bucket_initial_inv:
  "bucket_inv cands (bucket_initial options cands) \<and> only_exact (bucket_initial options cands)"
proof -
  have "p = -1" if "reserve_all (o_reserved_cdr_ids options) Map.empty k = Some p" for k p
    using that by (simp add: reserve_all_eq split: if_splits)
  then show ?thesis
    by (auto simp: bucket_inv_def bucket_initial_def sound_bucket_def sound_result_def owned_def
          only_exact_def apart_miss miss_like_miss_result [unfolded miss_like_def] is_matched_status_def
          miss_result_def apart_def miss_like_def result_ids_def opt_cdr_id_def opt_leg_id_def no_legs_def)
qed

lemma exact_pendings_ok:
  assumes "pm \<in> set (exact_pendings cands idx opts fm probes)"
  shows "exact_pending_ok cands idx pm"
proof -
  from assms obtain i pm0 where "i < length cands" "stage_exact (cands ! i) idx opts (Some probes) = Some pm0"
    "pm = pm0\<lparr>cand_idx := i, p_evidence := obj_set (p_evidence pm0) ''hour_fetch'' (JObj fm)\<rparr>"
    by (auto simp: exact_pendings_def List.map_filter_def in_set_enumerate_eq)
  with stage_exactD show ?thesis by (fastforce simp: exact_pending_ok_def)
qed

lemma exact_phase_inv:
  assumes "wf_index idx"
  shows "bucket_inv cands (exact_phase options cands idx opts now fm probes)
       \<and> only_exact (exact_phase options cands idx opts now fm probes)"
proof -
  have "bucket_inv cands (foldl (exact_step options now) st pms) \<and> only_exact (foldl (exact_step options now) st pms)"
    if "bucket_inv cands st \<and> only_exact st" "\<forall>pm \<in> set pms. exact_pending_ok cands idx pm" for st pms
    using that
  proof (induction pms arbitrary: st)
    case (Cons pm pms)
    then show ?case using exact_step_inv [OF assms, of cands st pm options now] by simp
  qed simp
  then show ?thesis
    unfolding exact_phase_def using bucket_initial_inv exact_pendings_ok by blast
qed

section \<open>Phase two\<close>

definition fallback_pending_ok :: "cdr_candidate list \<Rightarrow> call_index \<Rightarrow> pending_match \<Rightarrow> bool" where
  "fallback_pending_ok cands idx pm \<longleftrightarrow>
     cand_idx pm < length cands \<and> p_status pm = Matched_fallback
     \<and> p_call pm \<in> set (idx_all idx)
     \<and> map_of (p_evidence pm) ''call_id_hits'' = Some (JNum 0)
     \<and> set (in_pool pm) \<subseteq> {p_call pm} \<and> set (out_pool pm) \<subseteq> {p_call pm}"

lemma fallback_collect_inv:
  assumes "bucket_inv cands (fst acc)" and "\<forall>pm \<in> set (snd acc). fallback_pending_ok cands idx pm"
    and "fst ic < length cands" and "snd ic = cands ! fst ic"
  shows "bucket_inv cands (fst (fallback_collect idx opts fm acc ic))
    \<and> (\<forall>pm \<in> set (snd (fallback_collect idx opts fm acc ic)). fallback_pending_ok cands idx pm)"
proof (cases "b_assigned (fst acc) ! fst ic")
  case False
  show ?thesis
  proof (cases "stage_fallback (snd ic) idx opts (b_used (fst acc)) fm")
    case (Inl miss)
    then show ?thesis using False assms stage_fallback_miss bucket_inv_miss
      by (simp add: fallback_collect_def Let_def)
  next
    case (Inr pm)
    from stage_fallbackD [OF Inr] obtain best rest where
      "fallback_scored (snd ic) idx opts (b_used (fst acc)) = best # rest" "p_call pm = s_call best"
      "p_status pm = Matched_fallback" "map_of (p_evidence pm) ''call_id_hits'' = Some (JNum 0)"
      "set (in_pool pm) \<subseteq> {p_call pm}" "set (out_pool pm) \<subseteq> {p_call pm}" by blast
    moreover from this(1) have "s_call best \<in> set (idx_all idx)"
      using fallback_scored_mem [of best "snd ic" idx opts "b_used (fst acc)"] by simp
    ultimately show ?thesis using Inr False assms
      by (simp add: fallback_collect_def Let_def fallback_pending_ok_def)
  qed
qed (use assms in \<open>simp add: fallback_collect_def Let_def\<close>)

lemma collect_phase_inv:
  assumes "bucket_inv cands st"
  shows "bucket_inv cands (fst (collect_phase cands idx opts fm st))
    \<and> (\<forall>pm \<in> set (snd (collect_phase cands idx opts fm st)). fallback_pending_ok cands idx pm)"
proof -
  have "bucket_inv cands (fst (foldl (fallback_collect idx opts fm) acc ics))
      \<and> (\<forall>pm \<in> set (snd (foldl (fallback_collect idx opts fm) acc ics)). fallback_pending_ok cands idx pm)"
    if "bucket_inv cands (fst acc)" "\<forall>pm \<in> set (snd acc). fallback_pending_ok cands idx pm"
      "\<forall>ic \<in> set ics. fst ic < length cands \<and> snd ic = cands ! fst ic" for acc ics
    using that
  proof (induction ics arbitrary: acc)
    case (Cons ic ics)
    then have "bucket_inv cands (fst (fallback_collect idx opts fm acc ic))
      \<and> (\<forall>pm \<in> set (snd (fallback_collect idx opts fm acc ic)). fallback_pending_ok cands idx pm)"
      by (intro fallback_collect_inv) auto
    with Cons.prems(3) show ?case unfolding foldl_Cons by (intro Cons.IH) auto
  qed simp
  from this [of "(st, [])" "enumerate 0 cands"] assms show ?thesis
    by (simp add: collect_phase_def in_set_enumerate_eq split_def)
qed

lemma fallback_step_inv:
  assumes wf: "wf_index idx" and inv: "bucket_inv cands st" and pm: "fallback_pending_ok cands idx pm"
  shows "bucket_inv cands (fallback_step options now st pm)"
proof (cases "b_assigned st ! cand_idx pm")
  case True
  then show ?thesis using inv by (simp add: fallback_step_def)
next
  case False
  define i where "i = cand_idx pm"
  let ?c = "p_call pm"
  define taken where "taken = (case reservation_key ?c of None \<Rightarrow> None
      | Some key \<Rightarrow> (case b_used st key of None \<Rightarrow> None
                     | Some owner \<Rightarrow> if owner \<noteq> int i then Some owner else None))"
  define used0 where "used0 = claim_leg (b_used st) i (Some ?c)"
  define il where "il = pick_unused_leg (in_pool pm) used0 i"
  define ol where "ol = pick_unused_leg (out_pool pm) used0 i"
  define r where "r = success_result (o_gui_base options)
      (case o_card_template options of Some t \<Rightarrow> t | None \<Rightarrow> []) ?c (p_status pm) (p_method pm) (p_score pm)
      (p_evidence pm) now il ol"
  let ?used = "claim_leg (claim_leg used0 i il) i ol"
  have i: "i < length cands" and na: "\<not> b_assigned st ! i"
    using pm False by (simp_all add: fallback_pending_ok_def i_def)
  show ?thesis
  proof (cases taken)
    case (Some owner)
    then have "fallback_step options now st pm = st\<lparr>b_results := (b_results st)[i :=
        miss_result Miss_assigned_elsewhere (obj_set (obj_set (p_evidence pm) ''miss_reason''
          (JStr (miss_text Miss_assigned_elsewhere))) ''taken_by_candidate'' (JNum owner))]\<rparr>"
      using False unfolding taken_def i_def by (simp add: fallback_step_def Let_def)
    then show ?thesis using bucket_inv_miss [OF inv i na] by simp
  next
    case None
    then have step: "fallback_step options now st pm = \<lparr>b_used = ?used,
        b_results = (b_results st)[i := r], b_assigned = (b_assigned st)[i := True]\<rparr>"
      using False unfolding taken_def r_def used0_def il_def ol_def i_def
      by (simp add: fallback_step_def Let_def)
    have wfc: "wf_call ?c" using wf pm by (simp add: wf_index_def fallback_pending_ok_def)
    have legs: "l = ?c" if "il = Some l \<or> ol = Some l" for l
      using that pm pick_unused_leg_mem unfolding il_def ol_def fallback_pending_ok_def by blast
    have st: "r_status r = Matched_fallback" using pm by (simp add: r_def fallback_pending_ok_def)
    have "set (result_ids r) \<subseteq> {k. k \<noteq> [] \<and> (k = vm_cdr_id ?c \<or>
        (\<exists>l. (il = Some l \<or> ol = Some l) \<and> k = vm_cdr_id l))}"
      unfolding r_def by (rule success_ids)
    then have ids: "k \<noteq> [] \<and> k = vm_cdr_id ?c \<and> reservation_key ?c = Some k"
      if "k \<in> set (result_ids r)" for k
      using that legs wf_reservation_key [OF wfc] by blast
    have fresh: "b_used st k = None" if "k \<in> set (result_ids r)" for k
      using ids [OF that] None free_index_not_owner [OF inv i na, of k]
      by (auto simp: taken_def split: option.splits if_splits)
    have disj: "set (result_ids r) \<inter> set (result_ids (b_results st ! j)) = {}"
      if "j < length cands" for j
      using that inv fresh unfolding bucket_inv_def by fastforce
    have "sound_result (cands ! i) r"
      using st pm by (simp add: sound_result_def r_def fallback_pending_ok_def)
    moreover have "\<forall>j < length cands. j \<noteq> i \<longrightarrow> apart r (b_results st ! j) \<and> apart (b_results st ! j) r"
      using disj by (auto simp: apart_def)
    moreover have "dom (b_used st) \<subseteq> dom ?used" by (auto simp: used0_def dom_claim_leg)
    moreover have "set (result_ids r) \<subseteq> dom ?used"
      using ids by (auto simp: used0_def dom_claim_leg)
    moreover have "\<forall>k p. ?used k = Some p \<longrightarrow> b_used st k = Some p \<or> p = int i"
      by (auto simp: used0_def dest!: claim_leg_owner)
    ultimately show ?thesis unfolding step by (intro bucket_inv_success inv i) auto
  qed
qed

lemma assign_state_inv:
  assumes "wf_index idx"
  shows "bucket_inv cands (assign_state options cands idx opts now fm probes)"
proof -
  have "bucket_inv cands (foldl (fallback_step options now) st pms)"
    if "bucket_inv cands st" "\<forall>pm \<in> set pms. fallback_pending_ok cands idx pm" for st pms
    using that
  proof (induction pms arbitrary: st)
    case (Cons pm pms)
    then show ?case using fallback_step_inv [OF assms, of cands st pm options now] by simp
  qed simp
  moreover have "bucket_inv cands (exact_phase options cands idx opts now fm probes)"
    using exact_phase_inv [OF assms] by blast
  note collect_phase_inv [OF this, of idx opts fm]
  ultimately show ?thesis by (simp add: assign_state_def Let_def)
qed

text \<open>The last loop of the source finds no result without a status.\<close>

lemma sound_status: "sound_result cdr r \<Longrightarrow> r_status r \<noteq> Status_empty"
  by (auto simp: sound_result_def miss_like_def)

lemma assign_bucket_eq:
  assumes "wf_index idx"
  shows "assign_bucket options cands idx opts now fm probes
       = b_results (assign_state options cands idx opts now fm probes)"
proof -
  let ?st = "assign_state options cands idx opts now fm probes"
  have "bucket_inv cands ?st" by (rule assign_state_inv [OF assms])
  then have "final_result cands fm ?st i = b_results ?st ! i" if "i < length (b_results ?st)" for i
    using that sound_status by (auto simp: final_result_def bucket_inv_def sound_bucket_def)
  then have "map (final_result cands fm ?st) [0..<length (b_results ?st)]
      = map ((!) (b_results ?st)) [0..<length (b_results ?st)]" by (intro map_cong) auto
  then show ?thesis unfolding assign_bucket_def Let_def by (simp only: map_nth)
qed

lemma assign_bucket_sound:
  assumes "wf_index idx"
  shows "sound_bucket cands (assign_bucket options cands idx opts now fm probes)"
  using assign_state_inv [OF assms] by (simp add: assign_bucket_eq [OF assms] bucket_inv_def)

section \<open>The probes keep the index well formed\<close>

text \<open>What the matcher relies on of the service: every call it returns has a trimmed id.\<close>

locale vm_service =
  fixes client :: voip_client
  assumes range_wf: "list_range client a b = Inr (calls, meta) \<Longrightarrow> c \<in> set calls \<Longrightarrow> wf_call c"
    and calls_wf: "get_calls client n t0 t1 q = Inr calls \<Longrightarrow> c \<in> set calls \<Longrightarrow> wf_call c"
begin

lemma probe_queries_wf:
  "wf_index (ps_index ps) \<Longrightarrow> wf_index (ps_index (probe_queries client t0 t1 qs ps))"
  by (induction qs arbitrary: ps)
     (auto simp: Let_def split: sum.splits intro!: wf_index_merge_calls dest: calls_wf)

lemma probe_raws_wf:
  "wf_index (ps_index ps) \<Longrightarrow> wf_index (ps_index (probe_raws client t0 t1 budget raws ps))"
  by (induction raws arbitrary: ps) (auto simp: Let_def probe_queries_wf)

lemma probe_cands_wf:
  "wf_index (ps_index ps) \<Longrightarrow> wf_index (ps_index (probe_cands client t0 t1 budget cdrs ps))"
  by (induction cdrs arbitrary: ps) (auto simp: Let_def probe_raws_wf)

lemma match_bucket_sound: "sound_bucket cands (bo_results (match_bucket options client now cands))"
proof (cases cands)
  case Nil
  then show ?thesis by (simp add: match_bucket_def Let_def sound_bucket_def)
next
  case (Cons c cs)
  let ?opts = "resolve_opts options"
  let ?from = "fst (bucket_bounds c cs) - m_call_id_window_ms ?opts"
  let ?to = "snd (bucket_bounds c cs) + m_call_id_window_ms ?opts"
  show ?thesis
  proof (cases "list_range client ?from ?to")
    case (Inl err)
    have "sound_bucket cands (map (\<lambda>_. miss_result Miss_api_error ev) cands)" for ev
      by (auto simp: sound_bucket_def sound_result_def apart_miss)
    then show ?thesis using Inl Cons by (simp add: match_bucket_def Let_def)
  next
    case (Inr cm)
    obtain calls meta where cm: "cm = (calls, meta)" by (cases cm)
    with Inr have "wf_index (build_call_index calls)"
      by (intro wf_index_build) (auto dest: range_wf)
    then show ?thesis using Inr cm Cons
      by (simp add: match_bucket_def Let_def assign_bucket_sound probe_cands_wf)
  qed
qed

lemma match_bucket_audit:
  "set (audit_link_invariants cands (bo_results (match_bucket options client now cands)))
     \<subseteq> range Legacy_fid_url"
  by (rule audit_sound [OF match_bucket_sound])

end

section \<open>Which candidates match, and with what\<close>

lemma exact_step_lengths [simp]:
  "length (b_assigned (exact_step options now st pm)) = length (b_assigned st)"
  "length (b_results (exact_step options now st pm)) = length (b_results st)"
  by (simp_all add: exact_step_def Let_def)

lemma exact_step_assigned:
  "cand_idx pm < length (b_assigned st) \<Longrightarrow>
   b_assigned (exact_step options now st pm) ! i \<longleftrightarrow> b_assigned st ! i \<or> i = cand_idx pm"
  by (auto simp: exact_step_def Let_def nth_upd)

lemma exact_foldl_assigned:
  assumes "\<forall>pm \<in> set pms. cand_idx pm < length (b_assigned st)"
  shows "b_assigned (foldl (exact_step options now) st pms) ! i
     \<longleftrightarrow> b_assigned st ! i \<or> (\<exists>pm \<in> set pms. i = cand_idx pm)"
  using assms by (induction pms arbitrary: st) (auto simp: exact_step_assigned)

lemma exact_pendings_idx:
  "(\<exists>pm \<in> set (exact_pendings cands idx opts fm probes). i = cand_idx pm)
   \<longleftrightarrow> i < length cands \<and> stage_exact (cands ! i) idx opts (Some probes) \<noteq> None"
proof -
  have "(\<exists>pm \<in> set (exact_pendings cands idx opts fm probes). i = cand_idx pm)
    \<longleftrightarrow> (\<exists>j < length cands. \<exists>pm. stage_exact (cands ! j) idx opts (Some probes) = Some pm \<and> i = j)"
    by (auto simp: exact_pendings_def List.map_filter_def in_set_enumerate_eq)
  then show ?thesis by auto
qed

lemma exact_phase_assigned:
  assumes "i < length cands"
  shows "b_assigned (exact_phase options cands idx opts now fm probes) ! i
     \<longleftrightarrow> (\<exists>raw \<in> set (sip_call_ids (cands ! i)). call_id_in_index idx raw)"
proof -
  have "\<forall>pm \<in> set (exact_pendings cands idx opts fm probes).
      cand_idx pm < length (b_assigned (bucket_initial options cands))"
    using exact_pendings_ok by (auto simp: exact_pending_ok_def bucket_initial_def)
  from exact_foldl_assigned [OF this] assms show ?thesis
    unfolding exact_phase_def exact_pendings_idx stage_exact_iff
    by (simp add: bucket_initial_def)
qed

lemma exact_step_result:
  assumes "p_status pm = Matched_exact" and "b_assigned st ! i \<longrightarrow> r_status (b_results st ! i) = Matched_exact"
    and "cand_idx pm < length (b_results st)"
  shows "b_assigned (exact_step options now st pm) ! i
     \<longrightarrow> r_status (b_results (exact_step options now st pm) ! i) = Matched_exact"
  using assms by (auto simp: exact_step_def Let_def nth_upd)

lemma exact_phase_result:
  assumes "i < length cands" and "b_assigned (exact_phase options cands idx opts now fm probes) ! i"
  shows "r_status (b_results (exact_phase options cands idx opts now fm probes) ! i) = Matched_exact"
proof -
  have "b_assigned (foldl (exact_step options now) st pms) ! i
      \<longrightarrow> r_status (b_results (foldl (exact_step options now) st pms) ! i) = Matched_exact"
    if "b_assigned st ! i \<longrightarrow> r_status (b_results st ! i) = Matched_exact"
      "\<forall>pm \<in> set pms. p_status pm = Matched_exact \<and> cand_idx pm < length (b_results st)" for st pms
    using that
  proof (induction pms arbitrary: st)
    case (Cons pm pms)
    then show ?case using exact_step_result [of pm st i options now] by simp
  qed simp
  moreover have "\<forall>pm \<in> set (exact_pendings cands idx opts fm probes).
      p_status pm = Matched_exact \<and> cand_idx pm < length (b_results (bucket_initial options cands))"
    using exact_pendings_ok by (auto simp: exact_pending_ok_def bucket_initial_def)
  ultimately show ?thesis
    using assms unfolding exact_phase_def by (simp add: bucket_initial_def)
qed

text \<open>
  Phase two relative to the state \<open>st0\<close> that phase one left: assigned candidates keep their
  result, the others end as a miss or a fallback match above the threshold on ids that
  \<open>st0\<close> did not hold.
\<close>

definition fallback_result_ok :: "match_opts \<Rightarrow> (string \<Rightarrow> int option) \<Rightarrow> match_result \<Rightarrow> bool" where
  "fallback_result_ok opts used0 r \<longleftrightarrow>
     miss_like r \<or> (r_status r = Matched_fallback \<and> m_min_score opts \<le> r_score r \<and> r_score r \<le> 100
       \<and> set (result_ids r) \<inter> dom used0 = {})"

definition extends :: "match_opts \<Rightarrow> bucket_state \<Rightarrow> bucket_state \<Rightarrow> bool" where
  "extends opts st0 st \<longleftrightarrow>
     length (b_assigned st) = length (b_assigned st0) \<and> length (b_results st) = length (b_results st0)
     \<and> dom (b_used st0) \<subseteq> dom (b_used st)
     \<and> (\<forall>i < length (b_assigned st0).
          if b_assigned st0 ! i then b_assigned st ! i \<and> b_results st ! i = b_results st0 ! i
          else fallback_result_ok opts (b_used st0) (b_results st ! i))"

definition scored_pending :: "match_opts \<Rightarrow> pending_match \<Rightarrow> bool" where
  "scored_pending opts pm \<longleftrightarrow> m_min_score opts \<le> p_score pm \<and> p_score pm \<le> 100"

lemma stage_fallback_scored:
  assumes "stage_fallback cdr idx opts used fm = Inr pm"
  shows "scored_pending opts pm"
proof -
  from stage_fallbackD [OF assms] obtain best rest where
    b: "fallback_scored cdr idx opts used = best # rest" "p_score pm = s_score best"
      "m_min_score opts \<le> s_score best" by blast
  then have "best = score_one cdr (s_call best) (m_suffix_len opts) True"
    using fallback_scored_mem [of best cdr idx opts used] by simp
  then have "s_score best \<le> 100" by (metis score_bounds)
  with b show ?thesis by (simp add: scored_pending_def)
qed

lemma results_write_eq: "st\<lparr>b_results := rs\<rparr> =
  \<lparr>b_used = b_used st, b_results = rs, b_assigned = b_assigned (st :: bucket_state)\<rparr>"
  by (cases st) simp

lemma extends_write:
  assumes "extends opts st0 st" and "\<not> b_assigned st ! i"
    and "fallback_result_ok opts (b_used st0) r" and "dom (b_used st0) \<subseteq> dom used"
    and "length (b_results st0) = length (b_assigned st0)"
    and "asg = b_assigned st \<or> asg = (b_assigned st)[i := True]"
  shows "extends opts st0 \<lparr>b_used = used, b_results = (b_results st)[i := r], b_assigned = asg\<rparr>"
  using assms unfolding extends_def by (auto simp: nth_upd)

lemma fallback_result_miss [simp]: "miss_like r \<Longrightarrow> fallback_result_ok opts used r"
  by (simp add: fallback_result_ok_def)

lemma fallback_collect_extends:
  assumes "extends opts st0 (fst acc)" and "length (b_results st0) = length (b_assigned st0)"
    and "\<forall>pm \<in> set (snd acc). scored_pending opts pm"
  shows "extends opts st0 (fst (fallback_collect idx opts fm acc ic))
    \<and> (\<forall>pm \<in> set (snd (fallback_collect idx opts fm acc ic)). scored_pending opts pm)"
proof (cases "b_assigned (fst acc) ! fst ic")
  case False
  show ?thesis
  proof (cases "stage_fallback (snd ic) idx opts (b_used (fst acc)) fm")
    case (Inl miss)
    then have "miss_like miss" by (rule stage_fallback_miss)
    then have "extends opts st0 \<lparr>b_used = b_used (fst acc), b_results = (b_results (fst acc))[fst ic := miss],
        b_assigned = b_assigned (fst acc)\<rparr>"
      using assms(1,2) False by (intro extends_write) (auto simp: extends_def)
    then show ?thesis using False Inl assms(3) by (simp add: fallback_collect_def Let_def results_write_eq)
  next
    case (Inr pm)
    then have "scored_pending opts pm" by (rule stage_fallback_scored)
    then show ?thesis using False Inr assms
      by (auto simp: fallback_collect_def Let_def scored_pending_def)
  qed
qed (use assms in \<open>simp add: fallback_collect_def Let_def\<close>)

lemma fallback_step_extends:
  assumes wf: "wf_index idx" and inv: "bucket_inv cands st" and pm: "fallback_pending_ok cands idx pm"
    and ext: "extends opts st0 st" and sc: "scored_pending opts pm"
    and len: "length (b_results st0) = length (b_assigned st0)"
  shows "extends opts st0 (fallback_step options now st pm)"
proof (cases "b_assigned st ! cand_idx pm")
  case True
  then show ?thesis using ext by (simp add: fallback_step_def)
next
  case False
  let ?i = "cand_idx pm" and ?c = "p_call pm"
  show ?thesis
  proof (cases "\<exists>k owner. reservation_key ?c = Some k \<and> b_used st k = Some owner \<and> owner \<noteq> int ?i")
    case True
    then obtain ev where "fallback_step options now st pm = \<lparr>b_used = b_used st, b_results =
        (b_results st)[?i := miss_result Miss_assigned_elsewhere ev], b_assigned = b_assigned st\<rparr>"
      using False by (auto simp: fallback_step_def Let_def results_write_eq)
    moreover have "extends opts st0 \<lparr>b_used = b_used st, b_results =
        (b_results st)[?i := miss_result Miss_assigned_elsewhere ev], b_assigned = b_assigned st\<rparr>"
      using ext by (intro extends_write ext False len) (auto simp: extends_def)
    ultimately show ?thesis by simp
  next
    case free: False
    define used0 where "used0 = claim_leg (b_used st) ?i (Some ?c)"
    define il where "il = pick_unused_leg (in_pool pm) used0 ?i"
    define ol where "ol = pick_unused_leg (out_pool pm) used0 ?i"
    define r where "r = success_result (o_gui_base options)
        (case o_card_template options of Some t \<Rightarrow> t | None \<Rightarrow> []) ?c (p_status pm) (p_method pm)
        (p_score pm) (p_evidence pm) now il ol"
    have step: "fallback_step options now st pm = \<lparr>b_used = claim_leg (claim_leg used0 ?i il) ?i ol,
        b_results = (b_results st)[?i := r], b_assigned = (b_assigned st)[?i := True]\<rparr>"
      using False free unfolding r_def used0_def il_def ol_def
      by (auto simp: fallback_step_def Let_def split: option.splits)
    have legs: "l = ?c" if "il = Some l \<or> ol = Some l" for l
      using that pm pick_unused_leg_mem unfolding il_def ol_def fallback_pending_ok_def by blast
    have wfc: "wf_call ?c" using wf pm by (simp add: wf_index_def fallback_pending_ok_def)
    have fresh: "b_used st k = None" if "k \<in> set (result_ids r)" for k
    proof -
      have "k \<noteq> [] \<and> k = vm_cdr_id ?c"
        using that success_ids legs unfolding r_def by blast
      then have "reservation_key ?c = Some k" using wf_reservation_key [OF wfc] by blast
      with free have "b_used st k = None \<or> b_used st k = Some (int ?i)" by (cases "b_used st k") auto
      then show ?thesis
        using free_index_not_owner [OF inv _ False, of k] pm by (auto simp: fallback_pending_ok_def)
    qed
    have "dom (b_used st0) \<subseteq> dom (b_used st)" using ext by (simp add: extends_def)
    with fresh have "set (result_ids r) \<inter> dom (b_used st0) = {}" by blast
    then have "fallback_result_ok opts (b_used st0) r"
      using pm sc by (simp add: fallback_result_ok_def r_def fallback_pending_ok_def scored_pending_def
          success_result_def Let_def)
    moreover have "dom (b_used st0) \<subseteq> dom (claim_leg (claim_leg used0 ?i il) ?i ol)"
      using ext by (auto simp: extends_def used0_def dom_claim_leg)
    ultimately show ?thesis unfolding step by (intro extends_write ext False len) auto
  qed
qed

lemma assign_state_extends:
  assumes wf: "wf_index idx"
  shows "extends opts (exact_phase options cands idx opts now fm probes)
           (assign_state options cands idx opts now fm probes)"
proof -
  let ?st0 = "exact_phase options cands idx opts now fm probes"
  have inv0: "bucket_inv cands ?st0" using exact_phase_inv [OF wf] by blast
  then have len: "length (b_results ?st0) = length (b_assigned ?st0)"
    by (simp add: bucket_inv_def sound_bucket_def)
  have ext0: "extends opts ?st0 ?st0"
    using inv0 by (auto simp: extends_def fallback_result_ok_def bucket_inv_def)
  have coll: "extends opts ?st0 (fst (foldl (fallback_collect idx opts fm) acc ics))
      \<and> (\<forall>pm \<in> set (snd (foldl (fallback_collect idx opts fm) acc ics)). scored_pending opts pm)"
    if "extends opts ?st0 (fst acc)" "\<forall>pm \<in> set (snd acc). scored_pending opts pm" for acc ics
    using that
  proof (induction ics arbitrary: acc)
    case (Cons ic ics)
    from fallback_collect_extends [OF Cons.prems(1) len Cons.prems(2), of idx fm ic]
    show ?case unfolding foldl_Cons by (intro Cons.IH) auto
  qed simp
  have steps: "extends opts ?st0 (foldl (fallback_step options now) st pms)"
    if "bucket_inv cands st" "extends opts ?st0 st"
      "\<forall>pm \<in> set pms. fallback_pending_ok cands idx pm \<and> scored_pending opts pm" for st pms
    using that
  proof (induction pms arbitrary: st)
    case (Cons pm pms)
    then have "bucket_inv cands (fallback_step options now st pm)"
      and "extends opts ?st0 (fallback_step options now st pm)"
      using fallback_step_inv [OF wf] fallback_step_extends [OF wf _ _ _ _ len] by simp_all
    with Cons show ?case by simp
  qed simp
  let ?c = "collect_phase cands idx opts fm ?st0"
  have "extends opts ?st0 (fst ?c) \<and> (\<forall>pm \<in> set (snd ?c). scored_pending opts pm)"
    unfolding collect_phase_def by (rule coll) (simp_all add: ext0)
  with collect_phase_inv [OF inv0, of idx opts fm] show ?thesis
    unfolding assign_state_def Let_def by (intro steps) auto
qed

lemma assign_bucket_cases:
  assumes wf: "wf_index idx" and i: "i < length cands"
  shows "if \<exists>raw \<in> set (sip_call_ids (cands ! i)). call_id_in_index idx raw
         then r_status (assign_bucket options cands idx opts now fm probes ! i) = Matched_exact
         else fallback_result_ok opts (b_used (exact_phase options cands idx opts now fm probes))
                (assign_bucket options cands idx opts now fm probes ! i)"
proof -
  have "bucket_inv cands (exact_phase options cands idx opts now fm probes)"
    using exact_phase_inv [OF wf] by blast
  then have "i < length (b_assigned (exact_phase options cands idx opts now fm probes))"
    using i by (simp add: bucket_inv_def)
  with assign_state_extends [OF wf, of opts options cands now fm probes]
    exact_phase_assigned [OF i] exact_phase_result [OF i]
  show ?thesis unfolding extends_def assign_bucket_eq [OF wf] by metis
qed

lemma exact_phase_reserved:
  "k \<in> trim ` set (o_reserved_cdr_ids options) \<Longrightarrow> k \<noteq> [] \<Longrightarrow>
   k \<in> dom (b_used (exact_phase options cands idx opts now fm probes))"
proof -
  assume k: "k \<in> trim ` set (o_reserved_cdr_ids options)" "k \<noteq> []"
  have step: "dom (b_used st) \<subseteq> dom (b_used (exact_step options now st pm))" for st pm
    by (auto simp: exact_step_def Let_def dom_claim_leg)
  have "dom (b_used st) \<subseteq> dom (b_used (foldl (exact_step options now) st pms))" for st pms
    by (induction pms arbitrary: st) (use step in \<open>simp, fastforce\<close>)
  moreover have "k \<in> dom (b_used (bucket_initial options cands))"
    using k by (auto simp: bucket_initial_def reserve_all_eq)
  ultimately show ?thesis unfolding exact_phase_def by blast
qed

end
