(* ===== verification/Vm_Client.thy ===== *)
theory Vm_Client
  imports Vm_Audit Civil_Time Js_Json
begin

text \<open>
  The VoIPmonitor HTTP client (\<open>src/src/modules/voipmonitor/client.ts\<close>) and the stored legs
  (\<open>legs.ts\<close>: \<open>parseVoipmonitorLegs\<close>). The network is a parameter: a function of the
  endpoint and the form fields that gives an error text or a status and a body. The slices of
  a range are fetched one after another here (the code overlaps them under a semaphore), so
  the first failing slice gives the error. The texts of engine exceptions are fixed stand-ins.
\<close>

section \<open>Reading a row\<close>

fun js_text :: "jval \<Rightarrow> string" where
  "js_text JNull = ''null''"
| "js_text (JBool b) = (if b then ''true'' else ''false'')"
| "js_text (JNum n) = int_str n"
| "js_text (JFrac m k) = json_stringify (JFrac m k)"
| "js_text (JStr s) = s"
| "js_text (JArr vs) = sep_concat '','' (map (\<lambda>v. if v = JNull then [] else js_text v) vs)"
| "js_text (JObj ps) = ''[object Object]''"

definition js_trunc :: "int \<Rightarrow> nat \<Rightarrow> int" where
  "js_trunc m k = (if m < 0 then - (\<bar>m\<bar> div 10 ^ k) else m div 10 ^ k)"

fun first_string :: "jobj \<Rightarrow> string list \<Rightarrow> string" where
  "first_string row [] = []"
| "first_string row (k # ks) =
     (case map_of row k of
        None \<Rightarrow> first_string row ks
      | Some JNull \<Rightarrow> first_string row ks
      | Some (JNum n) \<Rightarrow> int_str n
      | Some (JFrac m e) \<Rightarrow> int_str (js_trunc m e)
      | Some (JStr s) \<Rightarrow> (if trim s \<noteq> [] then trim s else first_string row ks)
      | Some v \<Rightarrow>
          (if trim (js_text v) \<noteq> [] \<and> trim (js_text v) \<noteq> ''<nil>'' then trim (js_text v)
           else first_string row ks))"

text \<open>\<open>Number.parseInt\<close> in base ten: an optional sign and the leading digits, if any.\<close>

definition parse_int10 :: "string \<Rightarrow> int option" where
  "parse_int10 s =
     (let t = trim_start s;
          neg = (t \<noteq> [] \<and> hd t = CHR ''-'');
          r = (if t \<noteq> [] \<and> (hd t = CHR ''-'' \<or> hd t = CHR ''+'') then tl t else t);
          ds = takeWhile is_digit r
      in if ds = [] then None
         else Some (if neg then - int (digits_val ds) else int (digits_val ds)))"

fun first_int :: "jobj \<Rightarrow> string list \<Rightarrow> int" where
  "first_int row [] = 0"
| "first_int row (k # ks) =
     (case map_of row k of
        Some (JNum n) \<Rightarrow> n
      | Some (JFrac m e) \<Rightarrow> js_trunc m e
      | Some (JStr s) \<Rightarrow>
          (case parse_int10 (trim s) of Some n \<Rightarrow> n | None \<Rightarrow> first_int row ks)
      | _ \<Rightarrow> first_int row ks)"

fun first_time :: "(string \<Rightarrow> int option) \<Rightarrow> jobj \<Rightarrow> string list \<Rightarrow> int option" where
  "first_time date_parse row [] = None"
| "first_time date_parse row (k # ks) =
     (if first_string row [k] = [] then first_time date_parse row ks
      else case parse_naive_date_time date_parse (first_string row [k]) of
             Some d \<Rightarrow> Some d
           | None \<Rightarrow> first_time date_parse row ks)"

definition vm_call_of_row :: "(string \<Rightarrow> int option) \<Rightarrow> jobj \<Rightarrow> vm_call" where
  "vm_call_of_row date_parse row =
     \<lparr>vm_cdr_id = first_string row [''cdrId'', ''cdr_id'', ''ID''],
      vm_call_id = first_string row [''callId'', ''callid'', ''fcallid''],
      vm_call_date = first_time date_parse row [''calldate'', ''callDate'', ''start''],
      vm_call_end = first_time date_parse row [''callend'', ''callEnd'', ''end''],
      vm_duration = first_int row [''duration''],
      vm_connect_duration = first_int row [''connect_duration'', ''connectduration''],
      vm_caller = first_string row [''caller'', ''sipcaller''],
      vm_called = first_string row [''called'', ''sipcalled''],
      vm_sip_caller_ip = first_string row [''sipcallerip'', ''callerip''],
      vm_sip_called_ip = first_string row [''sipcalledip'', ''calledip'']\<rparr>"

text \<open>A property of anything but an object is absent; of \<open>null\<close> it is a \<open>TypeError\<close>.\<close>

definition row_fields :: "jval \<Rightarrow> jobj" where
  "row_fields v = (case v of JObj ps \<Rightarrow> ps | _ \<Rightarrow> [])"

fun map_vm_calls :: "(string \<Rightarrow> int option) \<Rightarrow> jval list \<Rightarrow> string + vm_call list" where
  "map_vm_calls date_parse [] = Inr []"
| "map_vm_calls date_parse (v # vs) =
     (if v = JNull then Inl ''TypeError''
      else
        (let call = vm_call_of_row date_parse (row_fields v)
         in case map_vm_calls date_parse vs of
              Inl e \<Rightarrow> Inl e
            | Inr calls \<Rightarrow>
                Inr (if vm_cdr_id call = [] \<and> vm_call_id call = [] then calls else call # calls)))"

definition is_empty_envelope :: "jobj \<Rightarrow> bool" where
  "is_empty_envelope envelope =
     (let msg = to_lower (first_string envelope [''error'', ''msg'', ''message''])
      in msg \<noteq> [] \<and> (str_includes ''no match'' msg \<or> str_includes ''not found'' msg
           \<or> str_includes ''no cdr'' msg \<or> str_includes ''no calls'' msg))"

definition api_error_message :: "jobj \<Rightarrow> string" where
  "api_error_message envelope =
     (let failed = (case map_of envelope ''success'' of
                      Some (JBool b) \<Rightarrow> \<not> b
                    | Some (JStr s) \<Rightarrow> \<not> (to_lower s = ''true'' \<or> s = ''1'')
                    | _ \<Rightarrow> False)
      in if \<not> failed \<or> is_empty_envelope envelope then []
         else (let t = first_string envelope [''error'', ''msg'', ''message'']
               in if t \<noteq> [] then t else ''request failed''))"

fun first_array :: "jobj \<Rightarrow> string list \<Rightarrow> jval list option" where
  "first_array envelope [] = None"
| "first_array envelope (k # ks) =
     (case map_of envelope k of Some (JArr vs) \<Rightarrow> Some vs | _ \<Rightarrow> first_array envelope ks)"

definition parse_voip_calls_response :: "(string \<Rightarrow> int option) \<Rightarrow> string \<Rightarrow> string + vm_call list" where
  "parse_voip_calls_response date_parse payload =
     (let trimmed = trim payload in
      if trimmed = [] \<or> trimmed = ''null'' then Inr []
      else case json_parse trimmed of
             None \<Rightarrow> Inl ''SyntaxError''
           | Some (JArr vs) \<Rightarrow> map_vm_calls date_parse vs
           | Some (JObj envelope) \<Rightarrow>
               (if is_empty_envelope envelope then Inr []
                else if api_error_message envelope \<noteq> []
                     then Inl (''voipmonitor API: '' @ api_error_message envelope)
                else case first_array envelope [''cdr'', ''results'', ''data'', ''rows''] of
                       Some vs \<Rightarrow> map_vm_calls date_parse vs
                     | None \<Rightarrow> map_vm_calls date_parse [JObj envelope])
           | Some _ \<Rightarrow> Inl ''decode voipmonitor response'')"

section \<open>Requests\<close>

definition ends_with :: "string \<Rightarrow> string \<Rightarrow> bool" where
  "ends_with s t = suffix t s"

definition api_endpoint :: "string \<Rightarrow> string + string" where
  "api_endpoint base =
     (let trimmed = strip_trailing_slashes (trim base);
          lower = to_lower trimmed
      in if trimmed = [] then Inl ''voipmonitor API URL is not configured''
         else if ends_with lower ''/php/api.php'' \<or> ends_with lower ''/api.php'' then Inr trimmed
         else if ends_with lower ''/php'' then Inr (trimmed @ ''/api.php'')
         else Inr (trimmed @ ''/php/api.php''))"

record client_config =
  cc_api_url :: string
  cc_user :: string
  cc_password :: string
  cc_max_bytes :: "nat option"

type_synonym http_fetch = "string \<Rightarrow> (string \<times> string) list \<Rightarrow> string + int \<times> string"

definition max_response_bytes :: nat where
  "max_response_bytes = 32 * 1024 * 1024"

definition post_task ::
  "http_fetch \<Rightarrow> client_config \<Rightarrow> string \<Rightarrow> jobj \<Rightarrow> string + string \<times> bool" where
  "post_task fetch cfg task params =
     (if trim (cc_api_url cfg) = [] then Inl ''voipmonitor API URL is not configured''
      else case api_endpoint (cc_api_url cfg) of
             Inl e \<Rightarrow> Inl e
           | Inr endpoint \<Rightarrow>
               (case fetch endpoint [(''task'', task), (''user'', cc_user cfg),
                      (''password'', cc_password cfg), (''params'', json_stringify (JObj params))] of
                  Inl e \<Rightarrow> Inl e
                | Inr (status, text) \<Rightarrow>
                    (let max_bytes = (case cc_max_bytes cfg of Some n \<Rightarrow> n | None \<Rightarrow> max_response_bytes);
                         clipped = (length text > max_bytes);
                         body = (if clipped then take max_bytes text else text)
                     in if status \<ge> 300
                        then Inl (''voipmonitor API HTTP '' @ int_str status @ '': '' @ take 200 body)
                        else Inr (body, clipped))))"

definition fetch_calls ::
  "(string \<Rightarrow> int option) \<Rightarrow> http_fetch \<Rightarrow> client_config \<Rightarrow> jobj \<Rightarrow> string + vm_call list \<times> bool" where
  "fetch_calls date_parse fetch cfg params =
     (case post_task fetch cfg ''getVoipCalls'' params of
        Inl e \<Rightarrow> Inl e
      | Inr (text, clipped) \<Rightarrow>
          (if clipped then Inr ([], True)
           else case parse_voip_calls_response date_parse text of
                  Inl e \<Rightarrow> Inl e
                | Inr calls \<Rightarrow> Inr (calls, False)))"

definition get_voip_calls ::
  "(string \<Rightarrow> int option) \<Rightarrow> http_fetch \<Rightarrow> client_config \<Rightarrow> jobj \<Rightarrow> string + vm_call list" where
  "get_voip_calls date_parse fetch cfg params =
     (case fetch_calls date_parse fetch cfg params of
        Inl e \<Rightarrow> Inl e
      | Inr (calls, clipped) \<Rightarrow>
          (if clipped then Inl ''voipmonitor API response truncated'' else Inr calls))"

text \<open>
  The throttle keeps the next free slot. \<open>gap\<close> is 1000 / rate. The answer is the slot after
  this request and the wait before it.
\<close>

definition throttle :: "int \<Rightarrow> int \<Rightarrow> int \<Rightarrow> int \<times> int" where
  "throttle gap now next_slot = (let start = max now next_slot in (start + gap, start - now))"

section \<open>Ranges\<close>

function range_slices :: "int \<Rightarrow> int \<Rightarrow> (int \<times> int) list" where
  "range_slices cursor stop =
     (if cursor < stop
      then (let nxt = min (cursor + range_slice_ms) stop
            in if nxt = stop then [(cursor, nxt)] else (cursor, nxt) # range_slices nxt stop)
      else [])"
  by auto
termination
  by (relation "measure (\<lambda>(c, e). nat (e - c))") (auto simp: range_slice_ms_def)

declare range_slices.simps [simp del]

definition slice_params :: "int \<Rightarrow> int \<Rightarrow> jobj" where
  "slice_params a b =
     [(''startTime'', JStr (format_api_time a)), (''startTimeTo'', JStr (format_api_time b))]"

text \<open>
  One slice, split in half while it looks clipped or capped. \<open>fetch\<close> is \<open>fetchCalls\<close> of the
  slice; the statistics of the range are threaded through.
\<close>

function fetch_slice_adaptive ::
  "(int \<Rightarrow> int \<Rightarrow> string + vm_call list \<times> bool) \<Rightarrow> int \<Rightarrow> int \<Rightarrow> range_fetch_meta
   \<Rightarrow> string + vm_call list \<times> range_fetch_meta" where
  "fetch_slice_adaptive fetch a b meta =
     (case fetch a b of
        Inl e \<Rightarrow> Inl e
      | Inr (calls, clipped) \<Rightarrow>
          (let capped = looks_like_result_cap (length calls) in
           if (clipped \<or> capped) \<and> b - a > range_min_slice_ms then
             (let meta1 = \<lparr>slice_splits = slice_splits meta + 1,
                           fm_clipped = (clipped \<or> fm_clipped meta),
                           suspected_cap = (capped \<or> suspected_cap meta)\<rparr>;
                  mid = a + (b - a) div 2
              in case fetch_slice_adaptive fetch a mid meta1 of
                   Inl e \<Rightarrow> Inl e
                 | Inr (left, meta2) \<Rightarrow>
                     (case fetch_slice_adaptive fetch mid b meta2 of
                        Inl e \<Rightarrow> Inl e
                      | Inr (right, meta3) \<Rightarrow> Inr (left @ right, meta3)))
           else if clipped then Inl ''voipmonitor API response truncated''
           else Inr (calls, meta\<lparr>suspected_cap := (capped \<or> suspected_cap meta)\<rparr>)))"
  by pat_completeness auto
termination
  by (relation "measure (\<lambda>(f, a, b, m). nat (b - a))") (auto simp: range_min_slice_ms_def)

declare fetch_slice_adaptive.simps [simp del]

fun fetch_slices ::
  "(int \<Rightarrow> int \<Rightarrow> string + vm_call list \<times> bool) \<Rightarrow> (int \<times> int) list \<Rightarrow> range_fetch_meta
   \<Rightarrow> string + vm_call list list \<times> range_fetch_meta" where
  "fetch_slices fetch [] meta = Inr ([], meta)"
| "fetch_slices fetch (s # ss) meta =
     (case fetch_slice_adaptive fetch (fst s) (snd s) meta of
        Inl e \<Rightarrow> Inl e
      | Inr (calls, meta1) \<Rightarrow>
          (case fetch_slices fetch ss meta1 of
             Inl e \<Rightarrow> Inl e
           | Inr (parts, meta2) \<Rightarrow> Inr (calls # parts, meta2)))"

definition range_key :: "vm_call \<Rightarrow> string" where
  "range_key hit =
     (if vm_cdr_id hit \<noteq> [] then vm_cdr_id hit
      else vm_call_id hit @ ''|''
           @ (case vm_call_date hit of Some d \<Rightarrow> iso_string d | None \<Rightarrow> []))"

definition list_voip_calls_range ::
  "(int \<Rightarrow> int \<Rightarrow> string + vm_call list \<times> bool) \<Rightarrow> int \<Rightarrow> int
   \<Rightarrow> string + vm_call list \<times> range_fetch_meta" where
  "list_voip_calls_range fetch from to =
     (let stop = (if to \<le> from then from + 1000 else to)
      in case fetch_slices fetch (range_slices from stop)
                \<lparr>slice_splits = 0, fm_clipped = False, suspected_cap = False\<rparr> of
           Inl e \<Rightarrow> Inl e
         | Inr (parts, meta) \<Rightarrow> Inr (uniq_by range_key [] (concat parts), meta))"

section \<open>The client the matcher sees\<close>

text \<open>
  \<open>fetches n\<close> is the network during the n-th phase of a run: 0 for the range, and one phase
  per single lookup, in the order of the lookups.
\<close>

definition voip_client_of ::
  "(string \<Rightarrow> int option) \<Rightarrow> (nat \<Rightarrow> http_fetch) \<Rightarrow> client_config \<Rightarrow> voip_client" where
  "voip_client_of date_parse fetches cfg =
     \<lparr>list_range = (\<lambda>a b. map_sum id (map_prod id Some)
        (list_voip_calls_range
          (\<lambda>x y. fetch_calls date_parse (fetches 0) cfg (slice_params x y)) a b)),
      get_calls = (\<lambda>n t0 t1 q. get_voip_calls date_parse (fetches (Suc n)) cfg
        [(''startTime'', JStr t0), (''startTimeTo'', JStr t1), (''callId'', JStr q)])\<rparr>"

section \<open>Stored legs\<close>

definition str_field :: "jobj \<Rightarrow> string \<Rightarrow> string" where
  "str_field ps k = (case map_of ps k of Some (JStr s) \<Rightarrow> s | _ \<Rightarrow> [])"

definition parse_leg_ref :: "jval option \<Rightarrow> leg_ref option" where
  "parse_leg_ref v =
     (case v of
        Some (JObj ps) \<Rightarrow>
          (if str_field ps ''url'' = [] \<and> str_field ps ''cdrId'' = [] \<and> str_field ps ''callId'' = []
           then None
           else Some \<lparr>leg_url = str_field ps ''url'', leg_cdr_id = str_field ps ''cdrId'',
                      leg_call_id = str_field ps ''callId''\<rparr>)
      | _ \<Rightarrow> None)"

definition parse_voipmonitor_legs :: "jval \<Rightarrow> vm_legs" where
  "parse_voipmonitor_legs v =
     (case v of
        JObj ps \<Rightarrow> \<lparr>leg_in = parse_leg_ref (map_of ps ''in''), leg_out = parse_leg_ref (map_of ps ''out'')\<rparr>
      | _ \<Rightarrow> \<lparr>leg_in = None, leg_out = None\<rparr>)"

text \<open>\<open>JSON.stringify(result.legs)\<close>, an absent leg is left out.\<close>

definition leg_json :: "leg_ref \<Rightarrow> jval" where
  "leg_json l = JObj [(''url'', JStr (leg_url l)), (''cdrId'', JStr (leg_cdr_id l)),
                      (''callId'', JStr (leg_call_id l))]"

definition legs_json :: "vm_legs \<Rightarrow> jval" where
  "legs_json ls =
     JObj ((case leg_in ls of Some l \<Rightarrow> [(''in'', leg_json l)] | None \<Rightarrow> [])
           @ (case leg_out ls of Some l \<Rightarrow> [(''out'', leg_json l)] | None \<Rightarrow> []))"


section \<open>Rows are read with trimmed ids\<close>

lemma trim_no_ws: "\<forall>c \<in> set s. \<not> js_ws c \<Longrightarrow> trim s = s"
proof -
  assume a: "\<forall>c \<in> set s. \<not> js_ws c"
  then have s: "trim_start s = s" by (cases s) (auto simp: trim_start_def)
  have "trim_end s = s"
  proof (rule trim_end_no_ws)
    show "s = [] \<or> \<not> js_ws (last s)" using a by (metis last_in_set)
  qed
  with s show ?thesis by (simp add: trim_def)
qed

lemma digit_no_ws: "is_digit c \<Longrightarrow> \<not> js_ws c"
  by (auto simp: is_digit_def js_ws_def)

lemma trim_int_str [simp]: "trim (int_str n) = int_str n"
  by (rule trim_no_ws) (auto simp: int_str_def js_ws_def [of "CHR ''-''"] dest!: nat_digits_digits digit_no_ws)

lemma first_string_trimmed [simp]: "trim (first_string row ks) = first_string row ks"
  by (induction row ks rule: first_string.induct) (auto split: option.splits jval.splits)

lemma wf_call_of_row: "wf_call (vm_call_of_row date_parse row)"
  by (simp add: wf_call_def vm_call_of_row_def del: first_string.simps)

lemma map_vm_calls_wf: "map_vm_calls date_parse vs = Inr calls \<Longrightarrow> c \<in> set calls \<Longrightarrow> wf_call c"
  by (induction vs arbitrary: calls) (auto simp: Let_def wf_call_of_row split: if_splits sum.splits)

lemma parse_response_cases:
  "parse_voip_calls_response date_parse text = Inr calls \<Longrightarrow>
   calls = [] \<or> (\<exists>vs. map_vm_calls date_parse vs = Inr calls)"
  unfolding parse_voip_calls_response_def Let_def
  by (split if_split_asm option.split_asm jval.split_asm | simp only: sum.inject sum.distinct | blast)+

lemma parse_response_wf:
  "parse_voip_calls_response date_parse text = Inr calls \<Longrightarrow> c \<in> set calls \<Longrightarrow> wf_call c"
  using parse_response_cases [of date_parse "text" calls] map_vm_calls_wf by fastforce

lemma fetch_calls_wf:
  "fetch_calls date_parse fetch cfg params = Inr (calls, clipped) \<Longrightarrow> c \<in> set calls \<Longrightarrow> wf_call c"
  by (auto simp: fetch_calls_def split: if_splits sum.splits prod.splits dest: parse_response_wf)

section \<open>A range returns what its slices returned\<close>

lemma fetch_slice_adaptive_from:
  assumes "fetch_slice_adaptive fetch a b meta = Inr (calls, meta')"
    and "\<And>x y cs cl c. fetch x y = Inr (cs, cl) \<Longrightarrow> c \<in> set cs \<Longrightarrow> P c"
  shows "\<forall>c \<in> set calls. P c"
  using assms
proof (induction fetch a b meta arbitrary: calls meta' rule: fetch_slice_adaptive.induct)
  case (1 fetch a b meta)
  obtain cs cl where f: "fetch a b = Inr (cs, cl)"
    using "1.prems"(1) by (auto simp: fetch_slice_adaptive.simps [of fetch a b] split: sum.splits)
  show ?case
  proof (cases "(cl \<or> looks_like_result_cap (length cs)) \<and> b - a > range_min_slice_ms")
    case False
    then show ?thesis using "1.prems" f
      by (auto simp: fetch_slice_adaptive.simps [of fetch a b] Let_def split: if_splits)
  next
    case True
    from "1.prems"(1) True f obtain m1 m2 l r where
      "fetch_slice_adaptive fetch a (a + (b - a) div 2) m1 = Inr (l, m2)"
      "m1 = \<lparr>slice_splits = slice_splits meta + 1, fm_clipped = (cl \<or> fm_clipped meta),
        suspected_cap = (looks_like_result_cap (length cs) \<or> suspected_cap meta)\<rparr>"
      "fetch_slice_adaptive fetch (a + (b - a) div 2) b m2 = Inr (r, meta')" "calls = l @ r"
      by (auto simp: fetch_slice_adaptive.simps [of fetch a b] Let_def split: sum.splits)
    with "1.IH" [OF f _ refl True] "1.prems"(2) show ?thesis by (metis Un_iff set_append)
  qed
qed

lemma fetch_slices_from:
  assumes "fetch_slices fetch ss meta = Inr (parts, meta')"
    and "\<And>x y cs cl c. fetch x y = Inr (cs, cl) \<Longrightarrow> c \<in> set cs \<Longrightarrow> P c"
  shows "\<forall>part \<in> set parts. \<forall>c \<in> set part. P c"
  using assms(1)
proof (induction ss arbitrary: meta parts)
  case (Cons s ss)
  then obtain calls m1 ps where s: "fetch_slice_adaptive fetch (fst s) (snd s) meta = Inr (calls, m1)"
    "fetch_slices fetch ss m1 = Inr (ps, meta')" "parts = calls # ps" by (auto split: sum.splits)
  have "\<forall>c \<in> set calls. P c" by (rule fetch_slice_adaptive_from [OF s(1) assms(2)])
  with s Cons.IH show ?case by simp
qed simp

lemma list_range_from:
  assumes "list_voip_calls_range fetch a b = Inr (calls, meta)"
    and "\<And>x y cs cl c. fetch x y = Inr (cs, cl) \<Longrightarrow> c \<in> set cs \<Longrightarrow> P c"
    and "c \<in> set calls"
  shows "P c"
proof -
  from assms(1) obtain parts stop where
    p: "fetch_slices fetch (range_slices a stop) \<lparr>slice_splits = 0, fm_clipped = False, suspected_cap = False\<rparr>
        = Inr (parts, meta)" "calls = uniq_by range_key [] (concat parts)"
    by (auto simp: list_voip_calls_range_def Let_def split: sum.splits)
  have "c \<in> set (concat parts)" using assms(3) unfolding p(2) by (rule subsetD [OF uniq_by_subset])
  then show ?thesis using fetch_slices_from [where P = P, OF p(1) assms(2)] by auto
qed

text \<open>The client keeps the contract the matcher relies on.\<close>

interpretation vm_client: vm_service "voip_client_of date_parse fetches cfg"
  for date_parse fetches cfg
proof
  fix a b calls meta c
  assume "list_range (voip_client_of date_parse fetches cfg) a b = Inr (calls, meta)" "c \<in> set calls"
  then show "wf_call c"
    by (auto simp: voip_client_of_def map_sum_def split: sum.splits
             elim!: list_range_from [where P = wf_call] intro: fetch_calls_wf)
next
  fix n t0 t1 q calls c
  assume "get_calls (voip_client_of date_parse fetches cfg) n t0 t1 q = Inr calls" "c \<in> set calls"
  then show "wf_call c"
    by (auto simp: voip_client_of_def get_voip_calls_def split: sum.splits if_splits intro: fetch_calls_wf)
qed


section \<open>Nothing of a range is lost unless a cap is suspected\<close>

text \<open>What the service owes: an answer that is neither clipped nor of a capped length is complete.\<close>

definition complete_source ::
  "(int \<Rightarrow> int \<Rightarrow> string + vm_call list \<times> bool) \<Rightarrow> vm_call set \<Rightarrow> bool" where
  "complete_source fetch world \<longleftrightarrow>
     (\<forall>a b cs c d. fetch a b = Inr (cs, False) \<longrightarrow> \<not> looks_like_result_cap (length cs) \<longrightarrow>
        c \<in> world \<longrightarrow> vm_call_date c = Some d \<longrightarrow> a \<le> d \<longrightarrow> d \<le> b \<longrightarrow> c \<in> set cs)"

lemma fetch_slice_adaptive_cases:
  assumes "fetch_slice_adaptive fetch a b meta = Inr (calls, meta')"
  obtains (leaf) cl where "fetch a b = Inr (calls, cl)" "\<not> cl"
      "suspected_cap meta' \<longleftrightarrow> looks_like_result_cap (length calls) \<or> suspected_cap meta"
    | (split) cs cl m1 l m2 r where "fetch a b = Inr (cs, cl)"
      "(cl \<or> looks_like_result_cap (length cs)) \<and> b - a > range_min_slice_ms"
      "m1 = \<lparr>slice_splits = slice_splits meta + 1, fm_clipped = (cl \<or> fm_clipped meta),
        suspected_cap = (looks_like_result_cap (length cs) \<or> suspected_cap meta)\<rparr>"
      "fetch_slice_adaptive fetch a (a + (b - a) div 2) m1 = Inr (l, m2)"
      "fetch_slice_adaptive fetch (a + (b - a) div 2) b m2 = Inr (r, meta')" "calls = l @ r"
proof -
  obtain cs cl where f: "fetch a b = Inr (cs, cl)"
    using assms by (auto simp: fetch_slice_adaptive.simps [of fetch a b] split: sum.splits)
  show thesis
  proof (cases "(cl \<or> looks_like_result_cap (length cs)) \<and> b - a > range_min_slice_ms")
    case False
    then have "\<not> cl \<and> calls = cs \<and> meta' = meta\<lparr>suspected_cap := looks_like_result_cap (length cs) \<or> suspected_cap meta\<rparr>"
      using assms f by (auto simp: fetch_slice_adaptive.simps [of fetch a b] Let_def split: if_splits)
    then show thesis using f by (intro leaf [of cl]) simp_all
  next
    case True
    define m1 where "m1 = \<lparr>slice_splits = slice_splits meta + 1, fm_clipped = (cl \<or> fm_clipped meta),
        suspected_cap = (looks_like_result_cap (length cs) \<or> suspected_cap meta)\<rparr>"
    from assms True f obtain m2 l r where
      "fetch_slice_adaptive fetch a (a + (b - a) div 2) m1 = Inr (l, m2)"
      "fetch_slice_adaptive fetch (a + (b - a) div 2) b m2 = Inr (r, meta')" "calls = l @ r"
      by (auto simp: fetch_slice_adaptive.simps [of fetch a b] Let_def m1_def split: sum.splits)
    then show thesis using f True m1_def by (intro split)
  qed
qed

lemma adaptive_cap_mono:
  "fetch_slice_adaptive fetch a b meta = Inr (calls, meta') \<Longrightarrow> suspected_cap meta \<Longrightarrow> suspected_cap meta'"
proof (induction fetch a b meta arbitrary: calls meta' rule: fetch_slice_adaptive.induct)
  case (1 fetch a b meta)
  from "1.prems"(1) show ?case
  proof (cases rule: fetch_slice_adaptive_cases)
    case (split cs cl m1 l m2 r)
    have "suspected_cap m1" using split(3) "1.prems"(2) by simp
    with "1.IH"(1) [OF split(1) _ refl split(2,3) refl] split(4) have m2: "suspected_cap m2" by blast
    with "1.IH"(2) [OF split(1) _ refl split(2,3) refl split(4)] split(5) show ?thesis by blast
  qed (use "1.prems" in blast)
qed

lemma adaptive_complete:
  "fetch_slice_adaptive fetch a b meta = Inr (calls, meta') \<Longrightarrow> \<not> suspected_cap meta' \<Longrightarrow>
   complete_source fetch world \<Longrightarrow> c \<in> world \<Longrightarrow> vm_call_date c = Some d \<Longrightarrow> a \<le> d \<Longrightarrow> d \<le> b \<Longrightarrow>
   c \<in> set calls"
proof (induction fetch a b meta arbitrary: calls meta' rule: fetch_slice_adaptive.induct)
  case (1 fetch a b meta)
  from "1.prems"(1) show ?case
  proof (cases rule: fetch_slice_adaptive_cases)
    case (leaf cl)
    then have "fetch a b = Inr (calls, False)" "\<not> looks_like_result_cap (length calls)"
      using "1.prems"(2) by simp_all
    then show ?thesis using "1.prems"(3-) unfolding complete_source_def by blast
  next
    case (split cs cl m1 l m2 r)
    have m2: "\<not> suspected_cap m2" using adaptive_cap_mono [OF split(5)] "1.prems"(2) by blast
    show ?thesis
    proof (cases "d \<le> a + (b - a) div 2")
      case True
      then have "c \<in> set l"
        using "1.IH"(1) [OF split(1) _ refl split(2,3) refl split(4) m2] "1.prems"(3-) by blast
      then show ?thesis by (simp add: split(6))
    next
      case False
      then have "c \<in> set r"
        using "1.IH"(2) [OF split(1) _ refl split(2,3) refl split(4) _ split(5) "1.prems"(2)]
          "1.prems"(3-) by force
      then show ?thesis by (simp add: split(6))
    qed
  qed
qed

lemma fetch_slices_complete:
  "fetch_slices fetch ss meta = Inr (parts, meta') \<Longrightarrow> \<not> suspected_cap meta' \<Longrightarrow>
   complete_source fetch world \<Longrightarrow> c \<in> world \<Longrightarrow> vm_call_date c = Some d \<Longrightarrow>
   (x, y) \<in> set ss \<Longrightarrow> x \<le> d \<Longrightarrow> d \<le> y \<Longrightarrow> (suspected_cap meta \<longrightarrow> suspected_cap meta') \<and> c \<in> set (concat parts)"
proof (induction ss arbitrary: meta parts)
  case (Cons s ss)
  then obtain calls m1 ps where s: "fetch_slice_adaptive fetch (fst s) (snd s) meta = Inr (calls, m1)"
    "fetch_slices fetch ss m1 = Inr (ps, meta')" "parts = calls # ps" by (auto split: sum.splits)
  have mono: "fetch_slices fetch ts m = Inr (qs, m') \<Longrightarrow> suspected_cap m \<Longrightarrow> suspected_cap m'" for ts m qs m'
  proof (induction ts arbitrary: m qs)
    case (Cons t ts)
    then obtain cs m1 rs where "fetch_slice_adaptive fetch (fst t) (snd t) m = Inr (cs, m1)"
      "fetch_slices fetch ts m1 = Inr (rs, m')" by (auto split: sum.splits)
    with Cons.IH Cons.prems(2) show ?case using adaptive_cap_mono by blast
  qed simp
  have m1: "\<not> suspected_cap m1" using mono [OF s(2)] Cons.prems(2) by blast
  then have "\<not> suspected_cap meta" using adaptive_cap_mono [OF s(1)] by blast
  moreover have "c \<in> set (concat parts)"
  proof (cases "s = (x, y)")
    case True
    then have "c \<in> set calls" using adaptive_complete [OF s(1) m1 Cons.prems(3,4,5)] Cons.prems(7,8) by simp
    then show ?thesis by (simp add: s(3))
  next
    case False
    then have "(x, y) \<in> set ss" using Cons.prems(6) by auto
    then show ?thesis using Cons.IH [OF s(2)] Cons.prems s(3) by auto
  qed
  ultimately show ?case by blast
qed simp

lemma range_slices_cover:
  "a < b \<Longrightarrow> a \<le> d \<Longrightarrow> d \<le> b \<Longrightarrow> \<exists>x y. (x, y) \<in> set (range_slices a b) \<and> x \<le> d \<and> d \<le> y"
proof (induction a b rule: range_slices.induct)
  case (1 a b)
  let ?n = "min (a + range_slice_ms) b"
  have eq: "range_slices a b = (if ?n = b then [(a, ?n)] else (a, ?n) # range_slices ?n b)"
    using 1(2) by (simp only: range_slices.simps [of a b] Let_def if_True)
  show ?case
  proof (cases "d \<le> ?n")
    case True
    then have "(a, ?n) \<in> set (range_slices a b)" by (simp add: eq)
    with True 1(3) show ?thesis by blast
  next
    case False
    then have "?n \<noteq> b" "?n < b" "?n \<le> d" using 1(4) by auto
    with 1(1) [OF 1(2) refl] 1(4) obtain x y where
      "(x, y) \<in> set (range_slices ?n b)" "x \<le> d" "d \<le> y" by blast
    then show ?thesis using \<open>?n \<noteq> b\<close> by (auto simp: eq)
  qed
qed

lemma range_slices_bounds:
  "(x, y) \<in> set (range_slices a b) \<Longrightarrow> a \<le> x \<and> x < y \<and> y \<le> b \<and> y - x \<le> range_slice_ms"
proof (induction a b rule: range_slices.induct)
  case (1 a b)
  show ?case
  proof (cases "a < b")
    case True
    let ?n = "min (a + range_slice_ms) b"
    have n: "a < ?n" "?n \<le> b" "?n - a \<le> range_slice_ms" using True by (auto simp: range_slice_ms_def)
    have "(x, y) = (a, ?n) \<or> (?n \<noteq> b \<and> (x, y) \<in> set (range_slices ?n b))"
      using 1(2) True by (auto simp: range_slices.simps [of a b] Let_def split: if_splits)
    then show ?thesis using 1(1) [OF True refl] n by force
  qed (use 1(2) in \<open>simp add: range_slices.simps [of a b]\<close>)
qed

lemma list_range_complete:
  assumes "list_voip_calls_range fetch a b = Inr (calls, meta)" and "\<not> suspected_cap meta"
    and "complete_source fetch world" and "c \<in> world" and "vm_call_date c = Some d"
    and "a \<le> d" and "d \<le> b"
  shows "\<exists>c' \<in> set calls. range_key c' = range_key c"
proof -
  define stop where "stop = (if b \<le> a then a + 1000 else b)"
  from assms(1) obtain parts where
    p: "fetch_slices fetch (range_slices a stop) \<lparr>slice_splits = 0, fm_clipped = False, suspected_cap = False\<rparr>
        = Inr (parts, meta)" "calls = uniq_by range_key [] (concat parts)"
    by (auto simp: list_voip_calls_range_def Let_def stop_def split: sum.splits)
  have "a < stop" "d \<le> stop" using assms(6,7) by (auto simp: stop_def)
  with assms(6) range_slices_cover obtain x y where
    s: "(x, y) \<in> set (range_slices a stop)" "x \<le> d" "d \<le> y" by blast
  have "c \<in> set (concat parts)"
    using fetch_slices_complete [OF p(1) assms(2-5) s] by simp
  then have "range_key c \<in> range_key ` set (uniq_by range_key [] (concat parts))"
    by (simp only: uniq_by_keys) simp
  then show ?thesis unfolding p(2) by force
qed

section \<open>Legs written and read back\<close>

definition leg_ok :: "leg_ref \<Rightarrow> bool" where
  "leg_ok l \<longleftrightarrow> \<not> (leg_url l = [] \<and> leg_cdr_id l = [] \<and> leg_call_id l = [])"

lemma parse_leg_json: "leg_ok l \<Longrightarrow> parse_leg_ref (Some (leg_json l)) = Some l"
  by (auto simp: parse_leg_ref_def leg_json_def str_field_def leg_ok_def)

lemma parse_leg_None: "parse_leg_ref None = None"
  by (simp add: parse_leg_ref_def)

lemma parse_legs_json:
  "(\<forall>l. leg_in ls = Some l \<longrightarrow> leg_ok l) \<Longrightarrow> (\<forall>l. leg_out ls = Some l \<longrightarrow> leg_ok l) \<Longrightarrow>
   parse_voipmonitor_legs (legs_json ls) = ls"
  by (cases ls) (auto simp: parse_voipmonitor_legs_def legs_json_def parse_leg_json parse_leg_None
      split: option.splits)

lemma wf_legs_json: "wf_jval (legs_json ls)"
  by (simp add: legs_json_def leg_json_def split: option.splits)

section \<open>Throttle\<close>

fun throttle_starts :: "int \<Rightarrow> int \<Rightarrow> int list \<Rightarrow> int list" where
  "throttle_starts gap slot [] = []"
| "throttle_starts gap slot (now # nows) =
     (now + snd (throttle gap now slot)) # throttle_starts gap (fst (throttle gap now slot)) nows"

lemma throttle_starts_ge: "s \<in> set (throttle_starts gap slot nows) \<Longrightarrow> 0 \<le> gap \<Longrightarrow> slot \<le> s"
  by (induction nows arbitrary: slot) (fastforce simp: throttle_def Let_def)+

lemma throttle_spaced: "0 \<le> gap \<Longrightarrow> sorted_wrt (\<lambda>s t. s + gap \<le> t) (throttle_starts gap slot nows)"
  by (induction nows arbitrary: slot) (auto simp: throttle_def Let_def dest!: throttle_starts_ge)

end
