(* ===== verification/Vm_Queue.thy ===== *)
theory Vm_Queue
  imports Vm_Client
begin

text \<open>
  The VoIPmonitor work queue and its job (\<open>src/src/modules/voipmonitor/\<close>: \<open>candidates.ts\<close>,
  \<open>lanes.ts\<close>, \<open>backoff.ts\<close>, \<open>queue-filter.ts\<close>, \<open>open-queue-sql.ts\<close>, \<open>count.ts\<close>,
  \<open>continue.ts\<close>, \<open>release-parked.ts\<close>, \<open>processor.ts\<close>). The two tables are a list of CDR rows
  and a map from the row id to its link row; a query is its predicate over them, and an order
  the query leaves open is the order of the list. Database failures, logging, the audit log
  and the wall-clock figures of the job meta are left out.
\<close>

section \<open>candidates.ts\<close>

record satel_row =
  row_id :: string
  row_cdr_id :: string
  row_cdr_at :: "int option"
  row_imported_at :: int
  bill_ani :: string
  bill_dnis :: string
  in_ani :: string
  in_dnis :: string
  out_ani :: string
  out_dnis :: string
  elapsed_time :: string
  connect_time :: string
  disconnect_time :: string
  remote_src_sig_address :: string
  remote_dst_sig_address :: string
  local_src_sig_address :: string
  local_dst_sig_address :: string
  out_leg_call_id :: string
  src_out_leg_call_id :: string
  in_leg_call_id :: string
  src_in_leg_call_id :: string
  src_in_leg_conf_id :: string
  conf_id :: string

fun comma_to_dot :: "string \<Rightarrow> string" where
  "comma_to_dot [] = []"
| "comma_to_dot (c # cs) = (if c = CHR '','' then CHR ''.'' # cs else c # comma_to_dot cs)"

definition ceil_div :: "int \<Rightarrow> int \<Rightarrow> int" where
  "ceil_div a b = - ((- a) div b)"

text \<open>Milliseconds in, whole seconds out, rounded up.\<close>

definition parse_seconds :: "string \<Rightarrow> int option" where
  "parse_seconds raw =
     (let trimmed = comma_to_dot (trim raw) in
      if trimmed = [] then None
      else case js_number trimmed of
             None \<Rightarrow> None
           | Some (m, e) \<Rightarrow>
               (if m < 0 then None
                else Some (if e \<ge> 0 then ceil_div (m * 10 ^ nat e) 1000
                           else ceil_div m (1000 * 10 ^ nat (- e)))))"

definition parse_connect_duration :: "(string \<Rightarrow> int option) \<Rightarrow> string \<Rightarrow> string \<Rightarrow> int option" where
  "parse_connect_duration date_parse connect disconnect =
     (case (parse_naive_date_time date_parse connect, parse_naive_date_time date_parse disconnect) of
        (Some s, Some e) \<Rightarrow> (if e \<le> s then None else Some ((e - s + 500) div 1000))
      | _ \<Rightarrow> None)"

definition strip_host_port :: "string \<Rightarrow> string" where
  "strip_host_port raw = trim (takeWhile (\<lambda>c. c \<noteq> CHR '':'') (trim raw))"

definition candidate_from_satel_row ::
  "(string \<Rightarrow> int option) \<Rightarrow> satel_row \<Rightarrow> cdr_candidate option" where
  "candidate_from_satel_row date_parse row =
     (case row_cdr_at row of
        None \<Rightarrow> None
      | Some at \<Rightarrow>
          (let ip_in = first_non_empty [strip_host_port (remote_src_sig_address row),
                                        strip_host_port (local_src_sig_address row)];
               ip_out = first_non_empty [strip_host_port (remote_dst_sig_address row),
                                         strip_host_port (local_dst_sig_address row)]
           in Some \<lparr>source_record_id = row_id row, source_system = source_satel,
                source_cdr_id = row_cdr_id row, setup_time = at,
                duration_sec = parse_seconds (elapsed_time row),
                connect_duration_sec =
                  parse_connect_duration date_parse (connect_time row) (disconnect_time row),
                caller = first_non_empty [bill_ani row, out_ani row, in_ani row],
                called = first_non_empty [bill_dnis row, out_dnis row, in_dnis row],
                caller_numbers = unique_non_empty [bill_ani row, out_ani row, in_ani row],
                called_numbers = unique_non_empty [bill_dnis row, out_dnis row, in_dnis row],
                caller_ip = ip_in, called_ip = ip_out,
                sip_call_ids = unique_non_empty [out_leg_call_id row, src_out_leg_call_id row,
                  in_leg_call_id row, src_in_leg_call_id row, src_in_leg_conf_id row, conf_id row],
                in_call_ids = unique_non_empty [in_leg_call_id row, src_in_leg_call_id row],
                out_call_ids = unique_non_empty [out_leg_call_id row, src_out_leg_call_id row],
                in_caller = in_ani row, in_called = in_dnis row, out_caller = out_ani row,
                out_called = out_dnis row, in_ip = ip_in, out_ip = ip_out\<rparr>))"

section \<open>lanes.ts, queue-filter.ts, backoff.ts\<close>

definition live_cutoff_at :: "int \<Rightarrow> int" where
  "live_cutoff_at now = now - live_priority_ms"

definition grace_cutoff_at :: "int \<Rightarrow> int" where
  "grace_cutoff_at now = now - grace_ms"

text \<open>Inclusive lower and exclusive upper bound.\<close>

definition lane_cdr_at_where :: "int \<Rightarrow> int \<Rightarrow> match_lane \<Rightarrow> int \<Rightarrow> int \<times> int" where
  "lane_cdr_at_where hour hour_end lane now =
     (let live_cutoff = live_cutoff_at now in
      if lane = Live then (if live_cutoff > hour then live_cutoff else hour, hour_end)
      else (hour, if live_cutoff < hour_end then live_cutoff else hour_end))"

text \<open>The search of \<open>/"miss_reason"\s*:\s*"([^"]*)"/\<close>.\<close>

definition miss_reason_here :: "string \<Rightarrow> string option" where
  "miss_reason_here s =
     (let key = [CHR 0x22] @ ''miss_reason'' @ [CHR 0x22] in
      if \<not> prefix key s then None
      else case dropWhile js_ws (drop (length key) s) of
             [] \<Rightarrow> None
           | c # cs \<Rightarrow>
               (if c \<noteq> CHR '':'' then None
                else case dropWhile js_ws cs of
                       [] \<Rightarrow> None
                     | q # qs \<Rightarrow>
                         (if q \<noteq> CHR 0x22 \<or> CHR 0x22 \<notin> set qs then None
                          else Some (takeWhile (\<lambda>x. x \<noteq> CHR 0x22) qs))))"

fun scan_miss_reason :: "string \<Rightarrow> string option" where
  "scan_miss_reason [] = None"
| "scan_miss_reason (c # cs) =
     (case miss_reason_here (c # cs) of Some r \<Rightarrow> Some r | None \<Rightarrow> scan_miss_reason cs)"

definition miss_reason_of :: "string \<Rightarrow> string option" where
  "miss_reason_of evidence_json =
     (case json_parse evidence_json of
        Some (JObj ps) \<Rightarrow>
          (case map_of ps ''miss_reason'' of
             Some (JStr r) \<Rightarrow> Some r
           | _ \<Rightarrow> scan_miss_reason evidence_json)
      | _ \<Rightarrow> scan_miss_reason evidence_json)"

definition terminal_not_found_miss :: "string list" where
  "terminal_not_found_miss =
     map miss_text [Miss_call_id_not_in_index, Miss_empty_callid_weak_signal,
                    Miss_no_candidates_in_window, Miss_fallback_below_threshold]"

definition is_terminal_not_found_exhausted :: "int \<Rightarrow> string \<Rightarrow> bool" where
  "is_terminal_not_found_exhausted attempt_count evidence_json =
     (if attempt_count < max_match_attempts then False
      else case miss_reason_of evidence_json of
             None \<Rightarrow> False
           | Some reason \<Rightarrow> reason \<noteq> [] \<and> reason \<in> set terminal_not_found_miss)"

definition next_attempt_at :: "int \<Rightarrow> int \<Rightarrow> int" where
  "next_attempt_at attempt_count now =
     (let index = min (max 0 (attempt_count - 1)) (int (length retry_backoff_ms) - 1)
      in now + retry_backoff_ms ! nat index)"

definition next_attempt_at_for_miss :: "int \<Rightarrow> string \<Rightarrow> int \<Rightarrow> int" where
  "next_attempt_at_for_miss attempt_count evidence_json now =
     (if is_terminal_not_found_exhausted attempt_count evidence_json then queue_exhausted_at
      else next_attempt_at attempt_count now)"

definition evidence_json_max_chars :: nat where
  "evidence_json_max_chars = 2048"

definition opt_pair :: "string \<Rightarrow> jval option \<Rightarrow> jobj" where
  "opt_pair k v = (case v of Some x \<Rightarrow> [(k, x)] | None \<Rightarrow> [])"

definition compact_evidence :: "match_result \<Rightarrow> string" where
  "compact_evidence result =
     (if is_matched_status (r_status result) then []
      else
        (let raw = json_stringify (JObj (r_evidence result)) in
         if length raw \<le> evidence_json_max_chars then raw
         else case json_parse raw of
                Some (JObj parsed) \<Rightarrow>
                  take evidence_json_max_chars (json_stringify (JObj
                    (opt_pair ''miss_reason''
                       (case r_miss_reason result of
                          Some m \<Rightarrow> Some (JStr (miss_text m))
                        | None \<Rightarrow> map_of parsed ''miss_reason'')
                     @ opt_pair ''stage'' (map_of parsed ''stage''))))
              | _ \<Rightarrow> take evidence_json_max_chars raw))"

section \<open>The tables\<close>

record vm_link =
  lk_url :: string
  lk_vm_cdr_id :: string
  lk_vm_call_id :: string
  lk_status :: match_status
  lk_method :: string
  lk_score :: int
  lk_matched_at :: "int option"
  lk_attempts :: int
  lk_next :: "int option"
  lk_evidence :: string
  lk_legs :: "jval option"
  lk_updated :: int

record vm_db =
  db_rows :: "satel_row list"
  db_links :: "string \<Rightarrow> vm_link option"

definition due_link :: "int \<Rightarrow> vm_link \<Rightarrow> bool" where
  "due_link now l =
     (lk_url l = [] \<and> (case lk_next l of None \<Rightarrow> True | Some t \<Rightarrow> t \<le> now))"

text \<open>\<open>openQueueWhereSql\<close>; no lane means both.\<close>

definition open_row :: "vm_db \<Rightarrow> int \<Rightarrow> match_lane option \<Rightarrow> satel_row \<Rightarrow> bool" where
  "open_row db now lane row =
     (case row_cdr_at row of
        None \<Rightarrow> False
      | Some at \<Rightarrow>
          row_imported_at row \<le> grace_cutoff_at now
          \<and> (case db_links db (row_id row) of None \<Rightarrow> True | Some l \<Rightarrow> due_link now l)
          \<and> (case lane of
               None \<Rightarrow> True
             | Some Live \<Rightarrow> live_cutoff_at now \<le> at
             | Some Archive \<Rightarrow> at < live_cutoff_at now))"

definition has_voipmonitor_work :: "vm_db \<Rightarrow> int \<Rightarrow> match_lane option \<Rightarrow> bool" where
  "has_voipmonitor_work db now lane = list_ex (open_row db now lane) (db_rows db)"

definition count_unenriched :: "vm_db \<Rightarrow> int" where
  "count_unenriched db =
     max 0 (int (length (db_rows db))
            - int (length (filter (\<lambda>r. case db_links db (row_id r) of
                                         Some l \<Rightarrow> lk_url l \<noteq> [] | None \<Rightarrow> False) (db_rows db))))"

definition parked_link :: "vm_link \<Rightarrow> bool" where
  "parked_link l = (lk_url l = [] \<and> (case lk_next l of None \<Rightarrow> False | Some t \<Rightarrow> queue_exhausted_at \<le> t))"

definition hour_of :: "int \<Rightarrow> int" where
  "hour_of t = t div 3600000 * 3600000"

definition pick_next_hour :: "vm_db \<Rightarrow> int \<Rightarrow> match_lane \<Rightarrow> int option" where
  "pick_next_hour db now lane =
     (case List.map_filter row_cdr_at (filter (open_row db now (Some lane)) (db_rows db)) of
        [] \<Rightarrow> None
      | t # ts \<Rightarrow> Some (foldl max (hour_of t) (map hour_of ts)))"

section \<open>processor.ts\<close>

definition max_candidates_per_hour :: nat where
  "max_candidates_per_hour = 8000"

definition link_of_result :: "int \<Rightarrow> int \<Rightarrow> match_result \<Rightarrow> vm_link" where
  "link_of_result now attempt_count result =
     (let matched_ok = is_matched_status (r_status result);
          evidence = compact_evidence result
      in \<lparr>lk_url = (if matched_ok then r_card_url result else []),
          lk_vm_cdr_id = (case r_vm result of Some c \<Rightarrow> vm_cdr_id c | None \<Rightarrow> []),
          lk_vm_call_id = (case r_vm result of Some c \<Rightarrow> vm_call_id c | None \<Rightarrow> []),
          lk_status = (if r_status result = Status_empty then Pending else r_status result),
          lk_method = r_method result, lk_score = r_score result,
          lk_matched_at = r_matched_at result, lk_attempts = attempt_count,
          lk_next = (if matched_ok then None
                     else Some (next_attempt_at_for_miss attempt_count evidence now)),
          lk_evidence = evidence,
          lk_legs = (if matched_ok then Some (legs_json (r_legs result)) else None),
          lk_updated = now\<rparr>)"

definition attempts_of :: "(string \<Rightarrow> vm_link option) \<Rightarrow> string \<Rightarrow> int" where
  "attempts_of links rid = (case links rid of Some l \<Rightarrow> lk_attempts l | None \<Rightarrow> 0)"

text \<open>Counts are (matched, written, invariant issues); \<open>links0\<close> holds the earlier attempts.\<close>

definition write_hour_results ::
  "int \<Rightarrow> cdr_candidate list \<Rightarrow> match_result list \<Rightarrow> (string \<Rightarrow> vm_link option)
   \<Rightarrow> (string \<Rightarrow> vm_link option) \<times> nat \<times> nat \<times> nat" where
  "write_hour_results now cands results links0 =
     (let pairs = zip cands results in
      (foldl (\<lambda>links (c, r). links(source_record_id c \<mapsto>
           link_of_result now (attempts_of links0 (source_record_id c) + 1) r)) links0 pairs,
       length (filter (\<lambda>(c, r). is_matched_status (r_status r)) pairs),
       length pairs,
       length (audit_link_invariants cands results)))"

record hour_meta =
  hm_lane :: match_lane
  hm_hour :: int
  hm_matched :: nat
  hm_written :: nat
  hm_candidates :: nat
  hm_issues :: nat
  hm_error :: "string option"
  hm_probe_budget :: int
  hm_exact :: nat
  hm_fallback :: nat

text \<open>The rows of the hour and lane that are due, the latest first, at most 8000.\<close>

definition hour_rows :: "vm_db \<Rightarrow> match_lane \<Rightarrow> int \<Rightarrow> int \<Rightarrow> satel_row list" where
  "hour_rows db lane hour now =
     (let b = lane_cdr_at_where hour (hour + 3600000) lane now;
          at = (\<lambda>r. case row_cdr_at r of Some t \<Rightarrow> t | None \<Rightarrow> 0)
      in take max_candidates_per_hour
           (js_sort (\<lambda>x y. at y - at x)
             (filter (\<lambda>r. row_imported_at r \<le> grace_cutoff_at now
                 \<and> (case row_cdr_at r of None \<Rightarrow> False | Some t \<Rightarrow> fst b \<le> t \<and> t < snd b)
                 \<and> (case db_links db (row_id r) of None \<Rightarrow> True | Some l \<Rightarrow> due_link now l))
               (db_rows db))))"

definition hour_candidates ::
  "(string \<Rightarrow> int option) \<Rightarrow> vm_db \<Rightarrow> match_lane \<Rightarrow> int \<Rightarrow> int \<Rightarrow> cdr_candidate list" where
  "hour_candidates date_parse db lane hour now =
     List.map_filter (candidate_from_satel_row date_parse) (hour_rows db lane hour now)"

text \<open>VoIPmonitor ids other CDRs of the same hour and lane already hold.\<close>

definition sibling_ids :: "vm_db \<Rightarrow> match_lane \<Rightarrow> int \<Rightarrow> int \<Rightarrow> string list \<Rightarrow> string list" where
  "sibling_ids db lane hour now taken =
     (let b = lane_cdr_at_where hour (hour + 3600000) lane now in
      uniq (concat (map (\<lambda>r.
        case (row_cdr_at r, db_links db (row_id r)) of
          (Some t, Some l) \<Rightarrow>
            (if fst b \<le> t \<and> t < snd b \<and> lk_url l \<noteq> [] \<and> row_id r \<notin> set taken
             then (if lk_vm_cdr_id l \<noteq> [] then [lk_vm_cdr_id l] else [])
                  @ collect_leg_cdr_ids (parse_voipmonitor_legs
                      (case lk_legs l of Some j \<Rightarrow> j | None \<Rightarrow> JNull))
             else [])
        | _ \<Rightarrow> []) (db_rows db))))"

definition hour_options ::
  "vm_db \<Rightarrow> match_lane \<Rightarrow> int \<Rightarrow> int \<Rightarrow> string \<Rightarrow> cdr_candidate list \<Rightarrow> matcher_options" where
  "hour_options db lane hour now gui_url cands =
     (let ids = map source_record_id cands;
          max_attempt = foldl max 0 (map (attempts_of (db_links db)) ids)
      in \<lparr>o_gui_base = gui_url, o_card_template = None, o_call_id_window_ms = None,
          o_fallback_window_ms = None, o_fallback_window_max_ms = None, o_min_score = None,
          o_disambiguity_margin = None, o_number_suffix_len = None,
          o_probe_budget = Some (probe_budget_for_lane lane max_attempt),
          o_reserved_cdr_ids = (if cands = [] then [] else sibling_ids db lane hour now ids)\<rparr>)"

definition process_hour ::
  "(string \<Rightarrow> int option) \<Rightarrow> voip_client \<Rightarrow> string \<Rightarrow> match_lane \<Rightarrow> int \<Rightarrow> int \<Rightarrow> vm_db
   \<Rightarrow> vm_db \<times> hour_meta" where
  "process_hour date_parse client gui_url lane hour now db =
     (let cands = hour_candidates date_parse db lane hour now;
          options = hour_options db lane hour now gui_url cands;
          budget = (case o_probe_budget options of Some n \<Rightarrow> n | None \<Rightarrow> 0);
          outcome = match_bucket options client now cands
      in case bo_error outcome of
           Some err \<Rightarrow>
             (db, \<lparr>hm_lane = lane, hm_hour = hour, hm_matched = 0, hm_written = 0,
                   hm_candidates = length cands, hm_issues = 0, hm_error = Some err,
                   hm_probe_budget = budget, hm_exact = 0, hm_fallback = 0\<rparr>)
         | None \<Rightarrow>
             (let (links, matched, written, issues) =
                    write_hour_results now cands (bo_results outcome) (db_links db)
              in (db\<lparr>db_links := links\<rparr>,
                  \<lparr>hm_lane = lane, hm_hour = hour, hm_matched = matched, hm_written = written,
                   hm_candidates = length cands, hm_issues = issues, hm_error = None,
                   hm_probe_budget = budget,
                   hm_exact = length (filter (\<lambda>r. r_status r = Matched_exact) (bo_results outcome)),
                   hm_fallback =
                     length (filter (\<lambda>r. r_status r = Matched_fallback) (bo_results outcome))\<rparr>)))"

definition process_lane ::
  "(string \<Rightarrow> int option) \<Rightarrow> voip_client \<Rightarrow> string \<Rightarrow> match_lane \<Rightarrow> int \<Rightarrow> vm_db
   \<Rightarrow> (vm_db \<times> hour_meta) option" where
  "process_lane date_parse client gui_url lane now db =
     (case pick_next_hour db now lane of
        None \<Rightarrow> None
      | Some hour \<Rightarrow> Some (process_hour date_parse client gui_url lane hour now db))"

text \<open>
  The archive loop. Each turn reads the clock for the deadline test and again for the lane,
  and talks to the service; \<open>turns\<close> lists the readings. \<open>None\<close>: the readings ran out.
\<close>

fun archive_loop ::
  "(string \<Rightarrow> int option) \<Rightarrow> string \<Rightarrow> int \<Rightarrow> (int \<times> int \<times> voip_client) list \<Rightarrow> bool
   \<Rightarrow> vm_db \<Rightarrow> hour_meta list \<Rightarrow> (vm_db \<times> hour_meta list) option" where
  "archive_loop date_parse gui_url deadline [] fetched db hours = None"
| "archive_loop date_parse gui_url deadline ((check, now, client) # turns) fetched db hours =
     (if \<not> should_fetch_another_archive_hour fetched check deadline then Some (db, hours)
      else case process_lane date_parse client gui_url Archive now db of
             None \<Rightarrow> Some (db, hours)
           | Some (db1, h) \<Rightarrow>
               archive_loop date_parse gui_url deadline turns True db1 (hours @ [h]))"

datatype job_status = Job_running | Job_success | Job_failed

record match_job_result =
  mj_status :: job_status
  mj_phones_parsed :: nat
  mj_changes_count :: nat
  mj_error :: "string option"
  mj_skipped :: bool
  mj_hours :: nat

definition job_budget_ms :: int where
  "job_budget_ms = 2 * 60 * 1000"

definition lane_text :: "match_lane \<Rightarrow> string" where
  "lane_text lane = (case lane of Live \<Rightarrow> ''live'' | Archive \<Rightarrow> ''archive'')"

definition hour_attempted :: "hour_meta \<Rightarrow> bool" where
  "hour_attempted h = (hm_candidates h > 0 \<or> (hm_error h \<noteq> None \<and> hm_error h \<noteq> Some []))"

definition hour_failed :: "hour_meta \<Rightarrow> bool" where
  "hour_failed h = (hm_error h \<noteq> None \<and> hm_error h \<noteq> Some [])"

text \<open>The end of the job, from the hours it ran.\<close>

definition job_summary :: "hour_meta list \<Rightarrow> match_job_result" where
  "job_summary hours =
     (let matched = sum_list (map hm_matched hours);
          written = sum_list (map hm_written hours);
          hour_errors = filter hour_failed hours;
          attempted = filter hour_attempted hours;
          any_progress = (written > 0 \<or> list_ex (\<lambda>h. \<not> hour_failed h \<and> hm_candidates h > 0) attempted)
      in if attempted = []
         then \<lparr>mj_status = Job_success, mj_phones_parsed = 0, mj_changes_count = 0,
               mj_error = None, mj_skipped = False, mj_hours = 0\<rparr>
         else if \<not> any_progress
         then \<lparr>mj_status = Job_failed, mj_phones_parsed = 0, mj_changes_count = 0,
               mj_error = Some (case hour_errors of
                   h # _ \<Rightarrow> the (hm_error h) | [] \<Rightarrow> ''voipmonitor match failed''),
               mj_skipped = False, mj_hours = length attempted\<rparr>
         else \<lparr>mj_status = Job_success, mj_phones_parsed = matched, mj_changes_count = written,
               mj_error = (if hour_errors = [] then None
                   else Some (sep_concat ''; ''
                     (map (\<lambda>h. lane_text (hm_lane h) @ '': '' @ the (hm_error h)) hour_errors))),
               mj_skipped = False, mj_hours = length attempted\<rparr>)"

definition process_voipmonitor_match ::
  "(string \<Rightarrow> int option) \<Rightarrow> bool \<Rightarrow> string \<Rightarrow> int \<Rightarrow> int \<Rightarrow> voip_client
   \<Rightarrow> (int \<times> int \<times> voip_client) list \<Rightarrow> vm_db \<Rightarrow> (vm_db \<times> match_job_result) option" where
  "process_voipmonitor_match date_parse ready gui_url started_at live_now live_client turns db =
     (if \<not> ready
      then Some (db, \<lparr>mj_status = Job_success, mj_phones_parsed = 0, mj_changes_count = 0,
                      mj_error = None, mj_skipped = True, mj_hours = 0\<rparr>)
      else
        (let (db1, hours) =
               (case process_lane date_parse live_client gui_url Live live_now db of
                  None \<Rightarrow> (db, []) | Some (d, h) \<Rightarrow> (d, [h]))
         in map_option (\<lambda>(d, hs). (d, job_summary hs))
              (archive_loop date_parse gui_url (started_at + job_budget_ms) turns False db1 hours)))"

section \<open>continue.ts, release-parked.ts\<close>

definition should_chain_voipmonitor_match :: "match_job_result option \<Rightarrow> bool" where
  "should_chain_voipmonitor_match result =
     (case result of
        None \<Rightarrow> False
      | Some r \<Rightarrow> \<not> mj_skipped r \<and> mj_status r = Job_success \<and> mj_hours r \<ge> 1)"

record vm_settings =
  set_enabled :: bool
  set_api_url :: string
  set_user :: string
  set_password_ciphertext :: string
  set_gui_url :: string

definition can_enqueue_voipmonitor_match ::
  "bool \<Rightarrow> bool \<Rightarrow> vm_settings option \<Rightarrow> vm_db \<Rightarrow> int \<Rightarrow> bool" where
  "can_enqueue_voipmonitor_match in_flight vacuum_active settings db now =
     (if in_flight then False
      else if vacuum_active then False
      else case settings of
             None \<Rightarrow> False
           | Some s \<Rightarrow>
               (if \<not> set_enabled s \<or> trim (set_api_url s) = [] \<or> trim (set_user s) = []
                    \<or> set_password_ciphertext s = [] \<or> trim (set_gui_url s) = []
                then False
                else has_voipmonitor_work db now None))"

text \<open>The whole value of the field is one of two reasons (\<open>FALSELY_PARKED_EVIDENCE_RE\<close>).\<close>

fun scan_falsely_parked :: "string \<Rightarrow> bool" where
  "scan_falsely_parked [] = False"
| "scan_falsely_parked (c # cs) =
     (miss_reason_here (c # cs) \<in> {Some ''assigned_elsewhere'', Some ''fallback_ambiguous''}
      \<or> scan_falsely_parked cs)"

definition falsely_parked :: "vm_link \<Rightarrow> bool" where
  "falsely_parked l =
     ((lk_status l = Unmatched \<or> lk_status l = Ambiguous)
      \<and> (case lk_next l of None \<Rightarrow> False | Some t \<Rightarrow> queue_exhausted_at \<le> t)
      \<and> scan_falsely_parked (lk_evidence l))"

definition attempt_count_of :: "int \<Rightarrow> int" where
  "attempt_count_of n = (if n < 1 then 1 else n)"

definition release_link :: "int \<Rightarrow> vm_link \<Rightarrow> vm_link" where
  "release_link now l = l\<lparr>lk_next := Some (next_attempt_at (attempt_count_of (lk_attempts l)) now)\<rparr>"

definition release_batch :: nat where
  "release_batch = 500"

text \<open>
  One pass takes at most a batch of the parked links of \<open>ids\<close> (the ids of the link table) and
  gives each the due time of its attempt count. The grouping by attempt count of the code
  writes the same rows.
\<close>

definition release_pass :: "int \<Rightarrow> string list \<Rightarrow> (string \<Rightarrow> vm_link option)
  \<Rightarrow> (string \<Rightarrow> vm_link option) \<times> nat" where
  "release_pass now ids links =
     (let rows = take release_batch
            (filter (\<lambda>i. case links i of Some l \<Rightarrow> falsely_parked l | None \<Rightarrow> False) ids)
      in (foldl (\<lambda>m i. m(i := map_option (release_link now) (m i))) links rows, length rows))"

text \<open>Every pass but the last shortens the parked ids by a batch, so the length of \<open>ids\<close> is fuel.\<close>

fun release_loop :: "nat \<Rightarrow> int \<Rightarrow> string list \<Rightarrow> (string \<Rightarrow> vm_link option) \<Rightarrow> nat
  \<Rightarrow> ((string \<Rightarrow> vm_link option) \<times> nat) option" where
  "release_loop 0 now ids links released = None"
| "release_loop (Suc fuel) now ids links released =
     (let (links1, n) = release_pass now ids links in
      if n = 0 then Some (links, released)
      else if n < release_batch then Some (links1, released + n)
      else release_loop fuel now ids links1 (released + n))"

end
