(* ===== verification/Vm_Progress.thy ===== *)
theory Vm_Progress
  imports Vm_Queue
begin

text \<open>
  What a pass of the VoIPmonitor job leaves behind: the evidence of a miss is read back by the
  queue filter, so the due time follows from the attempt count and the reason; a processed row
  leaves the open queue; a released row is due again.
\<close>

section \<open>The stored evidence can be read back\<close>

lemma keys_obj_set: "fst ` set (obj_set ps k v) = insert k (fst ` set ps)"
  by (induction ps k v rule: obj_set.induct) auto

lemma distinct_obj_set: "distinct (map fst ps) \<Longrightarrow> distinct (map fst (obj_set ps k v))"
  by (induction ps k v rule: obj_set.induct) (auto simp: keys_obj_set)

lemma wf_obj_set [simp]:
  "wf_jval (JObj ps) \<Longrightarrow> wf_jval v \<Longrightarrow> wf_jval (JObj (obj_set ps k v))"
proof -
  assume a: "wf_jval (JObj ps)" "wf_jval v"
  have "wf_jval v \<Longrightarrow> list_all (\<lambda>p. wf_jval (snd p)) ps \<Longrightarrow> list_all (\<lambda>p. wf_jval (snd p)) (obj_set ps k v)"
    by (induction ps k v rule: obj_set.induct) auto
  with a show ?thesis by (simp add: distinct_obj_set)
qed

lemma wf_JStr: "wf_jval (JStr s)"
  by simp

lemma wf_jstrs [simp]: "wf_jval (jstrs xs)"
  by (simp add: jstrs_def list_all_iff)

text \<open>A miss whose evidence is well formed, names its reason and has a stage of at most 100 units.\<close>

definition readable_miss :: "match_result \<Rightarrow> bool" where
  "readable_miss r \<longleftrightarrow>
     wf_jval (JObj (r_evidence r))
     \<and> (\<exists>m. r_miss_reason r = Some m \<and> map_of (r_evidence r) ''miss_reason'' = Some (JStr (miss_text m)))
     \<and> (\<exists>s. map_of (r_evidence r) ''stage'' \<in> {None, Some (JStr s)} \<and> length s \<le> 100)"

definition readable :: "match_result \<Rightarrow> bool" where
  "readable r \<longleftrightarrow> is_matched_status (r_status r) \<or> readable_miss r"

lemma readable_miss_result:
  assumes "wf_jval (JObj ev)" and "map_of ev ''stage'' \<in> {None, Some (JStr s)}" "length s \<le> 100"
  shows "readable (miss_result reason ev)"
  using assms unfolding readable_def readable_miss_def miss_result_def
  by (auto simp: wf_JStr simp del: wf_jval.simps intro!: wf_obj_set)

lemma length_json_escape: "length (json_escape s) \<le> 6 * length s"
proof (induction s)
  case (Cons c s)
  have "length (json_char c) \<le> 6" by (simp add: json_char_def Let_def)
  with Cons show ?case by (simp add: json_escape_def)
qed (simp add: json_escape_def)

lemma length_miss_text: "length (miss_text m) \<le> 40"
  by (cases m) simp_all

lemma miss_text_plain: "length (json_string (miss_text m)) \<le> 242"
  using length_json_escape [of "miss_text m"] length_miss_text [of m] by (simp add: json_string_def)

lemma json_string_key: "json_string ''miss_reason'' = [CHR 0x22] @ ''miss_reason'' @ [CHR 0x22]"
  "json_string ''stage'' = [CHR 0x22] @ ''stage'' @ [CHR 0x22]"
  by (simp_all add: json_string_def json_escape_def json_char_def)

lemma compact_reason:
  assumes "readable_miss r" and "r_miss_reason r = Some m" and "\<not> is_matched_status (r_status r)"
  shows "miss_reason_of (compact_evidence r) = Some (miss_text m)"
proof -
  let ?raw = "json_stringify (JObj (r_evidence r))"
  from assms(1,2) have wf: "wf_jval (JObj (r_evidence r))"
    and mr: "map_of (r_evidence r) ''miss_reason'' = Some (JStr (miss_text m))"
    by (auto simp: readable_miss_def)
  from assms(1) obtain s where st: "map_of (r_evidence r) ''stage'' \<in> {None, Some (JStr s)}" "length s \<le> 100"
    by (auto simp: readable_miss_def)
  have parse: "json_parse ?raw = Some (JObj (r_evidence r))" by (rule json_parse_stringify [OF wf])
  show ?thesis
  proof (cases "length ?raw \<le> evidence_json_max_chars")
    case True
    then show ?thesis using assms(3) parse mr by (simp add: compact_evidence_def miss_reason_of_def)
  next
    case False
    define ps where "ps = [(''miss_reason'', JStr (miss_text m))]
        @ opt_pair ''stage'' (map_of (r_evidence r) ''stage'')"
    have wps: "wf_jval (JObj ps)" using st(1) by (auto simp: ps_def opt_pair_def)
    have "length (json_stringify (JObj ps)) \<le> evidence_json_max_chars"
      using st miss_text_plain [of m] length_json_escape [of s]
      by (auto simp: ps_def opt_pair_def json_string_key json_string_def [of s] evidence_json_max_chars_def)
    moreover have "compact_evidence r = take evidence_json_max_chars (json_stringify (JObj ps))"
      unfolding compact_evidence_def Let_def parse using False assms(2,3)
      by (simp add: ps_def opt_pair_def [of "''miss_reason''"])
    ultimately have "compact_evidence r = json_stringify (JObj ps)" by simp
    moreover have "json_parse (json_stringify (JObj ps)) = Some (JObj ps)" by (rule json_parse_stringify [OF wps])
    ultimately show ?thesis by (simp add: miss_reason_of_def) (simp add: ps_def)
  qed
qed

lemma terminal_iff: "miss_text m \<in> set terminal_not_found_miss \<longleftrightarrow>
  m \<in> {Miss_call_id_not_in_index, Miss_empty_callid_weak_signal, Miss_no_candidates_in_window,
       Miss_fallback_below_threshold}"
  by (cases m) (simp_all add: terminal_not_found_miss_def)

lemma miss_text_ne [simp]: "miss_text m \<noteq> []"
  by (cases m) simp_all

lemma next_attempt_of_miss:
  assumes "readable_miss r" and "r_miss_reason r = Some m" and "\<not> is_matched_status (r_status r)"
  shows "next_attempt_at_for_miss n (compact_evidence r) now =
    (if max_match_attempts \<le> n \<and> m \<in> {Miss_call_id_not_in_index, Miss_empty_callid_weak_signal,
          Miss_no_candidates_in_window, Miss_fallback_below_threshold}
     then queue_exhausted_at else next_attempt_at n now)"
proof -
  have t: "is_terminal_not_found_exhausted n (compact_evidence r)
      \<longleftrightarrow> max_match_attempts \<le> n \<and> miss_text m \<in> set terminal_not_found_miss"
    unfolding is_terminal_not_found_exhausted_def compact_reason [OF assms] by auto
  show ?thesis unfolding next_attempt_at_for_miss_def t terminal_iff by (rule refl)
qed

section \<open>Every result of a bucket is readable\<close>

text \<open>A property of single results holds of the whole bucket when every place that writes keeps it.\<close>

lemma exact_step_results:
  "b_results (exact_step options now st pm) = b_results st
   \<or> (\<exists>g t c m sc ev li lo. b_results (exact_step options now st pm)
        = (b_results st)[cand_idx pm := success_result g t c (p_status pm) m sc ev now li lo])"
  by (cases "b_assigned st ! cand_idx pm") (simp add: exact_step_def, simp add: exact_step_def Let_def, blast)

lemma fallback_step_results:
  "b_results (fallback_step options now st pm) = b_results st
   \<or> (\<exists>g t c m sc ev li lo. b_results (fallback_step options now st pm)
        = (b_results st)[cand_idx pm := success_result g t c (p_status pm) m sc ev now li lo])
   \<or> (\<exists>owner. b_results (fallback_step options now st pm)
        = (b_results st)[cand_idx pm := miss_result Miss_assigned_elsewhere
             (obj_set (obj_set (p_evidence pm) ''miss_reason'' (JStr (miss_text Miss_assigned_elsewhere)))
                ''taken_by_candidate'' (JNum owner))])"
proof (cases "b_assigned st ! cand_idx pm")
  case False
  define taken where "taken = (case reservation_key (p_call pm) of None \<Rightarrow> None
      | Some key \<Rightarrow> (case b_used st key of None \<Rightarrow> None
                     | Some owner \<Rightarrow> if owner \<noteq> int (cand_idx pm) then Some owner else None))"
  show ?thesis
  proof (cases taken)
    case None
    then show ?thesis using False by (simp add: fallback_step_def Let_def flip: taken_def) blast
  next
    case (Some owner)
    then show ?thesis using False by (simp add: fallback_step_def Let_def flip: taken_def) blast
  qed
qed (simp add: fallback_step_def)

lemma assign_state_all:
  fixes P :: "match_result \<Rightarrow> bool"
  assumes init: "P (miss_result Miss_no_candidates_in_window [])"
    and succ: "\<And>g t c st m sc ev li lo. is_matched_status st \<Longrightarrow> P (success_result g t c st m sc ev now li lo)"
    and miss: "\<And>cdr used r. stage_fallback cdr idx opts used fm = Inl r \<Longrightarrow> P r"
    and taken: "\<And>cdr used pm owner. stage_fallback cdr idx opts used fm = Inr pm \<Longrightarrow>
       P (miss_result Miss_assigned_elsewhere (obj_set (obj_set (p_evidence pm) ''miss_reason''
           (JStr (miss_text Miss_assigned_elsewhere))) ''taken_by_candidate'' (JNum owner)))"
    and r: "r \<in> set (b_results (assign_state options cands idx opts now fm probes))"
  shows "P r"
proof -
  define good where "good st \<longleftrightarrow> (\<forall>r \<in> set (b_results st). P r)" for st :: bucket_state
  have upd: "good st'" if "good st" "P r" "b_results st' = (b_results st)[i := r]" for st st' i r
    using that set_update_subset_insert [of "b_results st" i r] by (auto simp: good_def)
  have same: "good st'" if "good st" "b_results st' = b_results st" for st st'
    using that by (simp add: good_def)
  have e1: "good (exact_step options now st pm)" if "good st" "is_matched_status (p_status pm)" for st pm
    using exact_step_results [of options now st pm] same [OF that(1)] upd [OF that(1) succ [OF that(2)]] by blast
  have e2: "good (foldl (exact_step options now) st pms)"
    if "good st" "\<forall>pm \<in> set pms. is_matched_status (p_status pm)" for st pms
    using that by (induction pms arbitrary: st) (auto simp: e1)
  have "\<forall>pm \<in> set (exact_pendings cands idx opts fm probes). is_matched_status (p_status pm)"
    using exact_pendings_ok [of _ cands idx opts fm probes]
    by (auto simp: exact_pending_ok_def is_matched_status_def)
  moreover have "good (bucket_initial options cands)" using init by (simp add: good_def bucket_initial_def)
  ultimately have ex: "good (exact_phase options cands idx opts now fm probes)"
    unfolding exact_phase_def by (rule e2 [rotated])
  define pend where "pend pm \<longleftrightarrow> (\<exists>cdr used pm0. stage_fallback cdr idx opts used fm = Inr pm0
      \<and> p_evidence pm = p_evidence pm0 \<and> is_matched_status (p_status pm))" for pm :: pending_match
  have c1: "good (fst (fallback_collect idx opts fm acc ic))
      \<and> (\<forall>pm \<in> set (snd (fallback_collect idx opts fm acc ic)). pend pm)"
    if "good (fst acc)" "\<forall>pm \<in> set (snd acc). pend pm" for acc ic
  proof (cases "stage_fallback (snd ic) idx opts (b_used (fst acc)) fm")
    case (Inl m)
    then have "P m" by (rule miss)
    then have "good ((fst acc)\<lparr>b_results := (b_results (fst acc))[fst ic := m]\<rparr>)"
      by (rule upd [OF that(1)]) simp
    then show ?thesis using that Inl by (simp add: fallback_collect_def Let_def)
  next
    case (Inr pm)
    then have "is_matched_status (p_status pm)"
      using stage_fallbackD by (fastforce simp: is_matched_status_def)
    then have "pend (pm\<lparr>cand_idx := fst ic\<rparr>)" using Inr by (auto simp: pend_def)
    then show ?thesis using that Inr by (auto simp: fallback_collect_def Let_def)
  qed
  have c2: "good (fst (foldl (fallback_collect idx opts fm) acc ics))
      \<and> (\<forall>pm \<in> set (snd (foldl (fallback_collect idx opts fm) acc ics)). pend pm)"
    if "good (fst acc)" "\<forall>pm \<in> set (snd acc). pend pm" for acc ics
    using that
  proof (induction ics arbitrary: acc)
    case (Cons ic ics)
    show ?case
      using Cons.IH [of "fallback_collect idx opts fm acc ic"] c1 [OF Cons.prems, of ic]
      unfolding foldl_Cons by blast
  qed simp
  have col: "good (fst (collect_phase cands idx opts fm (exact_phase options cands idx opts now fm probes)))
      \<and> (\<forall>pm \<in> set (snd (collect_phase cands idx opts fm (exact_phase options cands idx opts now fm probes))). pend pm)"
    unfolding collect_phase_def by (rule c2) (use ex in simp_all)
  have f1: "good (fallback_step options now st pm)" if "good st" "pend pm" for st pm
  proof -
    from that(2) obtain cdr used pm0 where p: "stage_fallback cdr idx opts used fm = Inr pm0"
      "p_evidence pm = p_evidence pm0" "is_matched_status (p_status pm)" by (auto simp: pend_def)
    show ?thesis
      using fallback_step_results [of options now st pm, unfolded p(2)] same [OF that(1)]
        upd [OF that(1) succ [OF p(3)]] upd [OF that(1) taken [OF p(1)]] by blast
  qed
  have "good (foldl (fallback_step options now) st pms)" if "good st" "\<forall>pm \<in> set pms. pend pm" for st pms
    using that by (induction pms arbitrary: st) (auto simp: f1)
  then have "good (assign_state options cands idx opts now fm probes)"
    unfolding assign_state_def Let_def using col by simp
  with r show ?thesis by (simp add: good_def)
qed


definition stage_short :: "jobj \<Rightarrow> bool" where
  "stage_short ev \<longleftrightarrow> wf_jval (JObj ev) \<and> map_of ev ''stage'' = Some (JStr ''fallback'')"

lemma stage_short_set: "stage_short ev \<Longrightarrow> wf_jval v \<Longrightarrow> k \<noteq> ''stage'' \<Longrightarrow> stage_short (obj_set ev k v)"
  by (simp add: stage_short_def del: wf_jval.simps)

lemma stage_short_base: "wf_jval (JObj fm) \<Longrightarrow> stage_short (fallback_base_evidence cdr fm)"
  by (simp add: stage_short_def fallback_base_evidence_def wf_jstrs)

lemma stage_short_window: "stage_short ev \<Longrightarrow> stage_short (fallback_window_evidence cdr idx opts used ev)"
  by (simp add: fallback_window_evidence_def Let_def stage_short_set)

lemma stage_short_gate: "stage_short ev \<Longrightarrow> stage_short (fallback_gate_evidence ev opts best rest)"
  by (simp add: fallback_gate_evidence_def Let_def stage_short_set split: list.splits)

lemma readable_of_short: "stage_short ev \<Longrightarrow> readable (miss_result reason ev)"
  by (rule readable_miss_result [of ev "''fallback''"]) (simp_all add: stage_short_def)

lemma stage_fallback_readable:
  assumes "wf_jval (JObj fm)"
  shows "stage_fallback cdr idx opts used fm = Inl r \<Longrightarrow> readable r"
    and "stage_fallback cdr idx opts used fm = Inr pm \<Longrightarrow> stage_short (p_evidence pm)"
proof -
  define ev where "ev = fallback_window_evidence cdr idx opts used (fallback_base_evidence cdr fm)"
  have ev: "stage_short ev" unfolding ev_def by (rule stage_short_window [OF stage_short_base [OF assms]])
  then have gate: "stage_short (fallback_gate_evidence ev opts best rest)" for best rest
    by (rule stage_short_gate)
  have amb: "readable \<lparr>r_status = Ambiguous, r_method = me, r_score = sc, r_vm = None, r_card_url = [],
      r_legs = no_legs, r_evidence = obj_set (fallback_gate_evidence ev opts best rest) ''miss_reason''
        (JStr (miss_text Miss_fallback_ambiguous)),
      r_matched_at = None, r_miss_reason = Some Miss_fallback_ambiguous\<rparr>" for me sc best rest
    using gate [of best rest]
    by (auto simp: readable_def readable_miss_def stage_short_def wf_JStr
             simp del: wf_jval.simps miss_text.simps intro!: exI [of _ "''fallback''"])
  show "stage_fallback cdr idx opts used fm = Inl r \<Longrightarrow> readable r"
    unfolding stage_fallback_def Let_def ev_def [symmetric]
    by (auto simp del: miss_text.simps split: list.splits if_splits
             intro: readable_of_short ev gate amb)
  show "stage_fallback cdr idx opts used fm = Inr pm \<Longrightarrow> stage_short (p_evidence pm)"
    unfolding stage_fallback_def Let_def ev_def [symmetric]
    by (auto split: list.splits if_splits intro: gate)
qed

lemma assign_bucket_readable:
  assumes "wf_jval (JObj fm)" and "wf_index idx"
    and r: "r \<in> set (assign_bucket options cands idx opts now fm probes)"
  shows "readable r"
proof -
  have "r \<in> set (b_results (assign_state options cands idx opts now fm probes))"
    using r by (simp add: assign_bucket_eq [OF assms(2)])
  then show ?thesis
  proof (rule assign_state_all [rotated -1])
    show "readable (miss_result Miss_no_candidates_in_window [])"
      by (rule readable_miss_result [of _ "[]"]) simp_all
    show "readable (success_result g t c st m sc ev now li lo)" if "is_matched_status st" for g t c st m sc ev li lo
      using that by (simp add: readable_def)
    show "readable r" if "stage_fallback cdr idx opts used fm = Inl r" for cdr used r
      using that by (rule stage_fallback_readable(1) [OF assms(1)])
    show "readable (miss_result Miss_assigned_elsewhere (obj_set (obj_set (p_evidence pm) ''miss_reason''
         (JStr (miss_text Miss_assigned_elsewhere))) ''taken_by_candidate'' (JNum owner)))"
      if "stage_fallback cdr idx opts used fm = Inr pm" for cdr used pm owner
      using stage_fallback_readable(2) [OF assms(1) that]
      by (intro readable_of_short stage_short_set) simp_all
  qed
qed

lemma wf_fetch_meta: "wf_jval (JObj [(''hour_fetch_count'', JNum a), (''fetch_from'', JStr b),
    (''fetch_to'', JStr c), (''probe_budget'', JNum d), (''slice_splits'', JNum e),
    (''suspected_cap'', JBool f), (''call_id_probes'', JNum g)])"
  by simp

context vm_service
begin

lemma match_bucket_readable:
  assumes "bo_error (match_bucket options client now cands) = None"
    and "r \<in> set (bo_results (match_bucket options client now cands))"
  shows "readable r"
proof (cases cands)
  case Nil
  then show ?thesis using assms(2) by (simp add: match_bucket_def Let_def)
next
  case (Cons c cs)
  let ?opts = "resolve_opts options"
  let ?from = "fst (bucket_bounds c cs) - m_call_id_window_ms ?opts"
  let ?to = "snd (bucket_bounds c cs) + m_call_id_window_ms ?opts"
  obtain calls meta where lr: "list_range client ?from ?to = Inr (calls, meta)"
    using assms(1) Cons by (auto simp: match_bucket_def Let_def split: sum.splits)
  have "\<forall>x \<in> set calls. wf_call x" using range_wf [OF lr] by blast
  then have idx: "wf_index (build_call_index calls)" by (rule wf_index_build)
  have w: "wf_index (ps_index (probe_cands client t0 t1 budget ms
      \<lparr>ps_index = build_call_index calls, ps_attempts = [], ps_seen = []\<rparr>))" for t0 t1 budget ms
    by (rule probe_cands_wf) (simp add: idx)
  show ?thesis
    using assms(2) unfolding Cons match_bucket_def Let_def list.case lr sum.case prod.case
      bucket_outcome.simps
    by (rule assign_bucket_readable [OF wf_fetch_meta w])
qed

end


section \<open>Due times\<close>

lemma retry_backoff_nth: "i < 4 \<Longrightarrow> retry_backoff_ms ! i \<in> {15000, 60000, 300000, 900000}"
  by (cases "i = 0"; cases "i = 1"; cases "i = 2") (simp_all add: retry_backoff_ms_def less_Suc_eq numeral_eq_Suc)

lemma next_attempt_at_cases:
  "next_attempt_at n now = now + (if n \<le> 1 then 15000 else if n = 2 then 60000
     else if n = 3 then 300000 else 900000)"
proof -
  consider "n \<le> 1" | "n = 2" | "n = 3" | "4 \<le> n" by linarith
  then show ?thesis by cases (simp_all add: next_attempt_at_def retry_backoff_ms_def Let_def min_def max_def)
qed

lemma next_attempt_bounds: "now + 15000 \<le> next_attempt_at n now \<and> next_attempt_at n now \<le> now + 900000"
  by (simp add: next_attempt_at_cases)

lemma next_miss_later:
  "now < queue_exhausted_at \<Longrightarrow> now < next_attempt_at_for_miss n ev now"
  using next_attempt_bounds [of now n] by (simp add: next_attempt_at_for_miss_def)

section \<open>Rows of an hour\<close>

lemma lane_window:
  assumes "hour \<le> t" and "t < hour + 3600000"
  shows "(fst (lane_cdr_at_where hour (hour + 3600000) lane now) \<le> t
          \<and> t < snd (lane_cdr_at_where hour (hour + 3600000) lane now))
     \<longleftrightarrow> (if lane = Live then live_cutoff_at now \<le> t else t < live_cutoff_at now)"
  using assms by (auto simp: lane_cdr_at_where_def Let_def)

lemma lane_window_hour:
  "fst (lane_cdr_at_where hour (hour + 3600000) lane now) \<le> t \<Longrightarrow>
   t < snd (lane_cdr_at_where hour (hour + 3600000) lane now) \<Longrightarrow> hour \<le> t \<and> t < hour + 3600000"
  by (auto simp: lane_cdr_at_where_def Let_def split: if_splits)

lemma hour_of_bounds: "hour_of t \<le> t \<and> t < hour_of t + 3600000"
  by (simp add: hour_of_def) presburger

lemma set_take_subset: "x \<in> set (take n xs) \<Longrightarrow> x \<in> set xs"
  by (meson in_set_takeD)

lemma open_row_lane:
  "open_row db now (Some lane) r \<longleftrightarrow>
   (\<exists>t. row_cdr_at r = Some t \<and> row_imported_at r \<le> grace_cutoff_at now
      \<and> (case db_links db (row_id r) of None \<Rightarrow> True | Some l \<Rightarrow> due_link now l)
      \<and> (if lane = Live then live_cutoff_at now \<le> t else t < live_cutoff_at now))"
  by (cases lane) (auto simp: open_row_def split: option.splits)

lemma hour_rows_open:
  assumes "r \<in> set (hour_rows db lane hour now)"
  shows "r \<in> set (db_rows db) \<and> open_row db now (Some lane) r
    \<and> (\<exists>t. row_cdr_at r = Some t \<and> hour \<le> t \<and> t < hour + 3600000)"
proof -
  let ?b = "lane_cdr_at_where hour (hour + 3600000) lane now"
  from assms have r: "r \<in> set (db_rows db)" "row_imported_at r \<le> grace_cutoff_at now"
    "case row_cdr_at r of None \<Rightarrow> False | Some t \<Rightarrow> fst ?b \<le> t \<and> t < snd ?b"
    "case db_links db (row_id r) of None \<Rightarrow> True | Some l \<Rightarrow> due_link now l"
    by (auto simp: hour_rows_def Let_def dest!: set_take_subset)
  then obtain t where t: "row_cdr_at r = Some t" "fst ?b \<le> t" "t < snd ?b" by (auto split: option.splits)
  with lane_window_hour [OF t(2,3)] lane_window [of hour t lane now] r show ?thesis
    by (simp add: open_row_lane)
qed

lemma hour_rows_nonempty:
  assumes "r \<in> set (db_rows db)" and "open_row db now (Some lane) r" and "row_cdr_at r = Some t"
  shows "hour_rows db lane (hour_of t) now \<noteq> []"
proof -
  have "r \<in> set (filter (\<lambda>r. row_imported_at r \<le> grace_cutoff_at now
      \<and> (case row_cdr_at r of None \<Rightarrow> False
         | Some u \<Rightarrow> fst (lane_cdr_at_where (hour_of t) (hour_of t + 3600000) lane now) \<le> u
             \<and> u < snd (lane_cdr_at_where (hour_of t) (hour_of t + 3600000) lane now))
      \<and> (case db_links db (row_id r) of None \<Rightarrow> True | Some l \<Rightarrow> due_link now l)) (db_rows db))"
    using assms hour_of_bounds [of t] lane_window [of "hour_of t" t lane now]
    by (simp add: open_row_lane)
  then show ?thesis
    by (auto simp: hour_rows_def Let_def max_candidates_per_hour_def simp del: set_filter filter_empty_conv
        dest: length_pos_if_in_set)
qed

lemma foldl_max_mem: "foldl max (x :: int) xs \<in> insert x (set xs)"
  by (induction xs arbitrary: x) (auto simp: max_def)

lemma pick_next_hour_row:
  assumes "pick_next_hour db now lane = Some hour"
  shows "\<exists>r \<in> set (db_rows db). \<exists>t. open_row db now (Some lane) r \<and> row_cdr_at r = Some t \<and> hour = hour_of t"
proof -
  let ?l = "List.map_filter row_cdr_at (filter (open_row db now (Some lane)) (db_rows db))"
  from assms obtain t ts where l: "?l = t # ts" "hour = foldl max (hour_of t) (map hour_of ts)"
    by (auto simp: pick_next_hour_def split: list.splits)
  have "hour \<in> hour_of ` set ?l" using foldl_max_mem [of "hour_of t" "map hour_of ts"] l by auto
  then show ?thesis by (auto simp: List.map_filter_def)
qed

lemma pick_next_hour_None: "pick_next_hour db now lane = None \<longleftrightarrow> \<not> has_voipmonitor_work db now (Some lane)"
proof -
  have "List.map_filter row_cdr_at (filter (open_row db now (Some lane)) rs) = []
      \<longleftrightarrow> \<not> list_ex (open_row db now (Some lane)) rs" for rs
    by (induction rs) (auto simp: List.map_filter_def open_row_lane)
  from this [of "db_rows db"] show ?thesis unfolding pick_next_hour_def has_voipmonitor_work_def
    by (cases "List.map_filter row_cdr_at (filter (open_row db now (Some lane)) (db_rows db))") simp_all
qed

section \<open>A processed row leaves the queue\<close>

lemma hour_candidates_rows:
  "map source_record_id (hour_candidates dp db lane hour now) = map row_id (hour_rows db lane hour now)"
proof -
  have "map source_record_id (List.map_filter (candidate_from_satel_row dp) rs) = map row_id rs"
    if "\<forall>r \<in> set rs. row_cdr_at r \<noteq> None" for rs
    using that by (induction rs) (auto simp: List.map_filter_def candidate_from_satel_row_def Let_def)
  then show ?thesis using hour_rows_open unfolding hour_candidates_def by (metis option.distinct(1))
qed

lemma foldl_links_other:
  "k \<notin> (\<lambda>(c, r). key c) ` set ps \<Longrightarrow> foldl (\<lambda>m (c, r). m(key c \<mapsto> f c r)) m ps k = m k"
  by (induction ps arbitrary: m) auto

lemma foldl_links:
  "distinct (map (\<lambda>(c, r). key c) ps) \<Longrightarrow> (c, r) \<in> set ps \<Longrightarrow>
   foldl (\<lambda>m (c, r). m(key c \<mapsto> f c r)) m ps (key c) = Some (f c r)"
  by (induction ps arbitrary: m) (auto simp: foldl_links_other)

lemma subset_distinct_rows: "distinct (map row_id (db_rows db)) \<Longrightarrow> distinct (map row_id (hour_rows db lane hour now))"
proof -
  assume d: "distinct (map row_id (db_rows db))"
  have ins: "distinct (map f (js_insert cmp x xs)) \<longleftrightarrow> distinct (map f (x # xs))" for f :: "'a \<Rightarrow> 'b" and cmp x xs
    by (induction xs) auto
  have srt: "distinct (map f (js_sort cmp xs)) \<longleftrightarrow> distinct (map f xs)" for f :: "'a \<Rightarrow> 'b" and cmp xs
    by (induction xs rule: rev_induct) (auto simp: js_sort_snoc ins)
  show ?thesis
    unfolding hour_rows_def Let_def take_map [symmetric]
    by (intro distinct_take) (simp add: srt distinct_map_filter d)
qed


lemma process_hour_ok:
  assumes "hm_error (snd (process_hour dp client gui lane hour now db)) = None"
  defines "cands \<equiv> hour_candidates dp db lane hour now"
  defines "out \<equiv> match_bucket (hour_options db lane hour now gui cands) client now cands"
  shows "bo_error out = None
    \<and> db_links (fst (process_hour dp client gui lane hour now db))
      = foldl (\<lambda>links (c, r). links(source_record_id c \<mapsto>
          link_of_result now (attempts_of (db_links db) (source_record_id c) + 1) r))
          (db_links db) (zip cands (bo_results out))
    \<and> db_rows (fst (process_hour dp client gui lane hour now db)) = db_rows db"
  using assms(1) unfolding process_hour_def Let_def cands_def [symmetric] out_def [symmetric]
  by (cases "bo_error out") (simp_all add: write_hour_results_def Let_def)

lemma process_hour_rows [simp]: "db_rows (fst (process_hour dp client gui lane hour now db)) = db_rows db"
  by (simp add: process_hour_def Let_def split: option.splits prod.splits)

text \<open>A result that is matched but carries no card address.\<close>

definition blank_match :: "vm_link \<Rightarrow> bool" where
  "blank_match l \<longleftrightarrow> is_matched_status (lk_status l) \<and> lk_url l = []"

lemma link_due:
  assumes "readable r" and "now < queue_exhausted_at" and "due_link now (link_of_result now n r)"
  shows "blank_match (link_of_result now n r)"
proof (cases "is_matched_status (r_status r)")
  case True
  then have "r_status r \<noteq> Status_empty" by (auto simp: is_matched_status_def)
  then show ?thesis using True assms(3) by (simp add: blank_match_def due_link_def link_of_result_def Let_def)
next
  case False
  then show ?thesis using assms(3) next_miss_later [OF assms(2), of n "compact_evidence r"]
    by (simp add: due_link_def link_of_result_def Let_def)
qed

lemma foldl_links_zip:
  assumes "distinct (map key cs)" and "length rs = length cs" and "i < length cs"
  shows "foldl (\<lambda>m (c, r). m(key c \<mapsto> f c r)) m (zip cs rs) (key (cs ! i)) = Some (f (cs ! i) (rs ! i))"
proof (rule foldl_links)
  have "map (\<lambda>(c, r). key c) (zip cs rs) = map key (map fst (zip cs rs))" by (simp add: case_prod_beta o_def)
  then show "distinct (map (\<lambda>(c, r). key c) (zip cs rs))" using assms by simp
  show "(cs ! i, rs ! i) \<in> set (zip cs rs)" using assms by (metis in_set_zip fst_conv snd_conv)
qed

context vm_service
begin

lemma process_hour_link:
  assumes err: "hm_error (snd (process_hour dp client gui lane hour now db)) = None"
    and d: "distinct (map row_id (db_rows db))" and r: "r \<in> set (hour_rows db lane hour now)"
  shows "\<exists>res. readable res \<and> db_links (fst (process_hour dp client gui lane hour now db)) (row_id r)
     = Some (link_of_result now (attempts_of (db_links db) (row_id r) + 1) res)"
proof -
  define cands where "cands = hour_candidates dp db lane hour now"
  define out where "out = match_bucket (hour_options db lane hour now gui cands) client now cands"
  note ok = process_hour_ok [OF err, folded cands_def, folded out_def]
  have len: "length (bo_results out) = length cands"
    using match_bucket_sound unfolding out_def sound_bucket_def by blast
  have ids: "map source_record_id cands = map row_id (hour_rows db lane hour now)"
    unfolding cands_def by (rule hour_candidates_rows)
  then have dist: "distinct (map source_record_id cands)" using subset_distinct_rows [OF d] by simp
  have "row_id r \<in> set (map source_record_id cands)" unfolding ids using r by simp
  then obtain i where i: "i < length cands" "source_record_id (cands ! i) = row_id r"
    by (auto simp: in_set_conv_nth)
  have "readable (bo_results out ! i)"
    using match_bucket_readable ok i(1) len unfolding out_def by (metis nth_mem)
  moreover have "db_links (fst (process_hour dp client gui lane hour now db)) (row_id r)
      = Some (link_of_result now (attempts_of (db_links db) (row_id r) + 1) (bo_results out ! i))"
    using foldl_links_zip [OF dist len i(1), of
        "\<lambda>c r. link_of_result now (attempts_of (db_links db) (source_record_id c) + 1) r" "db_links db"]
      i(2) ok by simp
  ultimately show ?thesis by blast
qed

lemma process_hour_closes:
  assumes "hm_error (snd (process_hour dp client gui lane hour now db)) = None"
    and "distinct (map row_id (db_rows db))" and "r \<in> set (hour_rows db lane hour now)"
    and "now < queue_exhausted_at"
    and "open_row (fst (process_hour dp client gui lane hour now db)) now any_lane r"
  shows "\<exists>l. db_links (fst (process_hour dp client gui lane hour now db)) (row_id r) = Some l
    \<and> blank_match l \<and> lk_attempts l = attempts_of (db_links db) (row_id r) + 1"
proof -
  from process_hour_link [OF assms(1-3)] obtain res where
    r: "readable res" "db_links (fst (process_hour dp client gui lane hour now db)) (row_id r)
      = Some (link_of_result now (attempts_of (db_links db) (row_id r) + 1) res)" by blast
  then have "due_link now (link_of_result now (attempts_of (db_links db) (row_id r) + 1) res)"
    using assms(5) by (auto simp: open_row_def split: option.splits)
  from link_due [OF r(1) assms(4) this] r(2) show ?thesis by (simp add: link_of_result_def Let_def)
qed

lemma process_hour_other:
  assumes "r \<notin> set (hour_rows db lane hour now)" and "distinct (map row_id (db_rows db))"
    and "r \<in> set (db_rows db)"
  shows "db_links (fst (process_hour dp client gui lane hour now db)) (row_id r) = db_links db (row_id r)"
proof (cases "hm_error (snd (process_hour dp client gui lane hour now db))")
  case None
  define cands where "cands = hour_candidates dp db lane hour now"
  define out where "out = match_bucket (hour_options db lane hour now gui cands) client now cands"
  have "row_id r \<notin> set (map source_record_id cands)"
  proof
    assume "row_id r \<in> set (map source_record_id cands)"
    then obtain s where s: "s \<in> set (hour_rows db lane hour now)" "row_id s = row_id r"
      unfolding cands_def hour_candidates_rows by auto
    then have "s \<in> set (db_rows db)" using hour_rows_open by blast
    then have "s = r" using assms(2,3) s(2) by (metis distinct_map inj_onD)
    with s(1) assms(1) show False by simp
  qed
  then have no: "row_id r \<notin> (\<lambda>(c, x). source_record_id c) ` set (zip cands (bo_results out))"
    by (auto dest: set_zip_leftD)
  note ok = process_hour_ok [OF None, folded cands_def, folded out_def]
  show ?thesis
    unfolding conjunct1 [OF conjunct2 [OF ok]] by (rule foldl_links_other [OF no])
next
  case (Some e)
  then show ?thesis by (auto simp: process_hour_def Let_def split: option.splits prod.splits)
qed

text \<open>A pass without an error makes the open queue of its lane strictly shorter.\<close>

lemma process_lane_progress:
  assumes p: "process_lane dp client gui lane now db = Some (db', h)" and e: "hm_error h = None"
    and d: "distinct (map row_id (db_rows db))" and n: "now < queue_exhausted_at"
    and nb: "\<forall>r \<in> set (db_rows db). \<forall>l. db_links db' (row_id r) = Some l \<longrightarrow> \<not> blank_match l"
  shows "length (filter (open_row db' now (Some lane)) (db_rows db'))
       < length (filter (open_row db now (Some lane)) (db_rows db))"
proof -
  from p obtain hour where h: "pick_next_hour db now lane = Some hour"
    "(db', h) = process_hour dp client gui lane hour now db" by (auto simp: process_lane_def split: option.splits)
  then have eq: "db' = fst (process_hour dp client gui lane hour now db)"
    "h = snd (process_hour dp client gui lane hour now db)" by (metis fst_conv, metis snd_conv)
  have rows: "db_rows db' = db_rows db" by (simp add: eq(1))
  from pick_next_hour_row [OF h(1)] obtain r0 t where
    "r0 \<in> set (db_rows db)" "open_row db now (Some lane) r0" "row_cdr_at r0 = Some t" "hour = hour_of t" by blast
  then obtain r where r: "r \<in> set (hour_rows db lane hour now)"
    using hour_rows_nonempty by (metis last_in_set)
  have closed: "\<not> open_row db' now (Some lane) x" if "x \<in> set (hour_rows db lane hour now)" for x
    using process_hour_closes [OF e [unfolded eq(2)] d that n, of "Some lane"] nb hour_rows_open [OF that]
    unfolding eq(1) by blast
  have mono: "open_row db now (Some lane) x" if "x \<in> set (db_rows db)" "open_row db' now (Some lane) x" for x
  proof -
    have "x \<notin> set (hour_rows db lane hour now)" using closed that(2) by blast
    then have "db_links db' (row_id x) = db_links db (row_id x)"
      unfolding eq(1) by (rule process_hour_other [OF _ d that(1)])
    then have "open_row db' now (Some lane) x = open_row db now (Some lane) x" by (simp only: open_row_def)
    with that(2) show ?thesis by simp
  qed
  have "length (filter (open_row db' now (Some lane)) xs) < length (filter (open_row db now (Some lane)) xs)"
    if "r \<in> set xs" "set xs \<subseteq> set (db_rows db)" for xs
    using that
  proof (induction xs)
    case (Cons x xs)
    have le: "length (filter (open_row db' now (Some lane)) xs) \<le> length (filter (open_row db now (Some lane)) xs)"
      using Cons.prems(2) by (induction xs) (auto simp: mono)
    show ?case
    proof (cases "x = r")
      case True
      then show ?thesis using le closed [OF r] hour_rows_open [OF r] by simp
    next
      case False
      then show ?thesis using Cons mono [of x] by auto
    qed
  qed simp
  from this [of "db_rows db"] hour_rows_open [OF r] show ?thesis unfolding rows by blast
qed

end


section \<open>Released rows\<close>

definition parked_id :: "(string \<Rightarrow> vm_link option) \<Rightarrow> string \<Rightarrow> bool" where
  "parked_id links i = (case links i of Some l \<Rightarrow> falsely_parked l | None \<Rightarrow> False)"

lemma foldl_fun_upd:
  "distinct is \<Longrightarrow> foldl (\<lambda>m i. m(i := f (m i))) m is = (\<lambda>i. if i \<in> set is then f (m i) else m i)"
  by (induction "is" arbitrary: m) (auto simp: fun_eq_iff)

lemma released_not_parked: "now + 900000 < queue_exhausted_at \<Longrightarrow> \<not> falsely_parked (release_link now l)"
  using next_attempt_bounds [of now "attempt_count_of (lk_attempts l)"]
  by (simp add: falsely_parked_def release_link_def)

text \<open>The links after everything of \<open>is\<close> was released.\<close>

definition released_links :: "int \<Rightarrow> string list \<Rightarrow> (string \<Rightarrow> vm_link option) \<Rightarrow> string \<Rightarrow> vm_link option" where
  "released_links now is links = (\<lambda>i. if i \<in> set is then map_option (release_link now) (links i) else links i)"

lemma release_pass_eq:
  assumes "distinct ids"
  shows "release_pass now ids links
    = (released_links now (take release_batch (filter (parked_id links) ids)) links,
       length (take release_batch (filter (parked_id links) ids)))"
  using assms unfolding release_pass_def Let_def released_links_def
  by (simp add: foldl_fun_upd flip: parked_id_def)

lemma released_parked:
  assumes "now + 900000 < queue_exhausted_at"
  shows "parked_id (released_links now is links) i \<longleftrightarrow> parked_id links i \<and> i \<notin> set is"
  using released_not_parked [OF assms]
  by (auto simp: parked_id_def released_links_def split: option.splits)

lemma filter_after_release:
  assumes "now + 900000 < queue_exhausted_at" and "distinct ids"
  shows "filter (parked_id (released_links now (take n (filter (parked_id links) ids)) links)) ids
    = drop n (filter (parked_id links) ids)"
proof -
  let ?f = "filter (parked_id links) ids"
  have "filter (\<lambda>i. parked_id links i \<and> i \<notin> set (take n ?f)) ids = filter (\<lambda>i. i \<notin> set (take n ?f)) ?f"
    by (simp add: filter_filter conj_commute)
  also have "\<dots> = filter (\<lambda>i. i \<notin> set (take n ?f)) (take n ?f @ drop n ?f)" by simp
  also have "\<dots> = drop n ?f"
  proof -
    have "distinct (take n ?f @ drop n ?f)" using assms(2) by simp
    then have "\<forall>i \<in> set (drop n ?f). i \<notin> set (take n ?f)" by (meson disjoint_iff distinct_append)
    then have "filter (\<lambda>i. i \<notin> set (take n ?f)) (drop n ?f) = drop n ?f" by (simp add: filter_id_conv)
    moreover have "filter (\<lambda>i. i \<notin> set (take n ?f)) (take n ?f) = []" by (simp add: filter_empty_conv)
    ultimately show ?thesis by (simp only: filter_append append_Nil)
  qed
  finally have r: "filter (\<lambda>i. parked_id links i \<and> i \<notin> set (take n ?f)) ids = drop n ?f" .
  have "parked_id (released_links now (take n ?f) links) = (\<lambda>i. parked_id links i \<and> i \<notin> set (take n ?f))"
    by (simp only: fun_eq_iff released_parked [OF assms(1)] simp_thms)
  then show ?thesis using r by (simp only:)
qed

lemma released_links_Nil: "released_links now [] links = links"
  by (simp add: released_links_def)

lemma released_links_append:
  "distinct (xs @ ys) \<Longrightarrow> released_links now ys (released_links now xs links) = released_links now (xs @ ys) links"
  by (auto simp: released_links_def fun_eq_iff)

lemma release_loop_eq:
  assumes n: "now + 900000 < queue_exhausted_at" and d: "distinct ids"
  shows "length (filter (parked_id links) ids) < fuel \<Longrightarrow>
    release_loop fuel now ids links released
    = Some (released_links now (filter (parked_id links) ids) links,
            released + length (filter (parked_id links) ids))"
proof (induction fuel arbitrary: links released)
  case (Suc fuel)
  let ?f = "filter (parked_id links) ids"
  let ?t = "take release_batch ?f"
  let ?links = "released_links now ?t links"
  have step: "release_pass now ids links = (?links, length ?t)" by (rule release_pass_eq [OF d])
  show ?case
  proof (cases "length ?f < release_batch")
    case True
    then have "?t = ?f" by simp
    then show ?thesis using True step by (cases "?f = []") (simp_all add: released_links_Nil)
  next
    case False
    have rest: "filter (parked_id ?links) ids = drop release_batch ?f"
      by (rule filter_after_release [OF n d])
    have pos: "0 < release_batch" by (simp add: release_batch_def)
    have "length (filter (parked_id ?links) ids) < fuel" unfolding rest using Suc.prems False pos by simp
    from Suc.IH [OF this, of "released + length ?t"] have
      "release_loop fuel now ids ?links (released + length ?t)
       = Some (released_links now (drop release_batch ?f) ?links, released + length ?t + length (drop release_batch ?f))"
      unfolding rest .
    moreover have "released_links now (drop release_batch ?f) ?links = released_links now ?f links"
      using released_links_append [of ?t "drop release_batch ?f"] d by simp
    moreover have "length ?t + length (drop release_batch ?f) = length ?f" using False by simp
    moreover have "length ?t = release_batch" using False by simp
    ultimately show ?thesis using step pos by simp
  qed
qed simp

section \<open>The outcome of the job\<close>

lemma job_summary_failed:
  "mj_status (job_summary hours) = Job_failed \<longleftrightarrow>
     (\<exists>h \<in> set hours. hour_attempted h) \<and> (\<forall>h \<in> set hours. hm_written h = 0)
     \<and> (\<forall>h \<in> set hours. hour_attempted h \<longrightarrow> hour_failed h \<or> hm_candidates h = 0)"
proof -
  have "filter hour_attempted hours = [] \<longleftrightarrow> \<not> (\<exists>h \<in> set hours. hour_attempted h)"
    by (simp add: filter_empty_conv)
  moreover have "sum_list (map hm_written hours) = 0 \<longleftrightarrow> (\<forall>h \<in> set hours. hm_written h = 0)" by simp
  ultimately show ?thesis by (auto simp: job_summary_def Let_def list_ex_iff)
qed

lemma job_chain:
  "should_chain_voipmonitor_match (Some (job_summary hours)) \<longleftrightarrow>
     mj_status (job_summary hours) = Job_success \<and> (\<exists>h \<in> set hours. hour_attempted h)"
proof -
  have "mj_hours (job_summary hours) = length (filter hour_attempted hours)" "\<not> mj_skipped (job_summary hours)"
    by (simp_all add: job_summary_def Let_def)
  then show ?thesis by (auto simp: should_chain_voipmonitor_match_def Suc_le_eq filter_empty_conv)
qed

lemma archive_loop_returns:
  "\<exists>t \<in> set turns. deadline \<le> fst t \<Longrightarrow>
   archive_loop dp gui deadline turns True db hours \<noteq> None"
proof (induction turns arbitrary: db hours)
  case (Cons t turns)
  obtain chk now client where t: "t = (chk, now, client)" by (cases t)
  show ?case
  proof (cases "chk < deadline \<and> process_lane dp client gui Archive now db \<noteq> None")
    case True
    then obtain db1 h where "process_lane dp client gui Archive now db = Some (db1, h)" by auto
    then show ?thesis using Cons True t by (auto simp: should_fetch_another_archive_hour_def)
  next
    case False
    then show ?thesis using t
      by (cases "process_lane dp client gui Archive now db") (auto simp: should_fetch_another_archive_hour_def)
  qed
qed simp

end
