(* ===== verification/Js_Text16.thy ===== *)
theory Js_Text16
  imports Js_Text
begin

text \<open>
  Texts that need not be Latin-1: lists of UTF-16 code units, with what the code uses of the string
  library on them. \<open>chars\<close> reads a text as Latin-1 characters; where the code goes on with the digits
  of a clock or an address, \<open>latin\<close> keeps every unit above 255 apart from all the characters these
  patterns accept.
\<close>

type_synonym text16 = "nat list"

definition units :: "string \<Rightarrow> text16" where
  "units s = map of_char s"

definition chars :: "text16 \<Rightarrow> string" where
  "chars u = map char_of u"

definition unit_digit :: "nat \<Rightarrow> bool" where
  "unit_digit n = (48 \<le> n \<and> n \<le> 57)"

text \<open>The class \<open>\s\<close> of a regular expression, on all code units.\<close>

definition regex_space :: "nat \<Rightarrow> bool" where
  "regex_space n =
     ((9 \<le> n \<and> n \<le> 13) \<or> n = 32 \<or> n = 160 \<or> n = 5760 \<or> (8192 \<le> n \<and> n \<le> 8202)
      \<or> n = 8232 \<or> n = 8233 \<or> n = 8239 \<or> n = 8287 \<or> n = 12288 \<or> n = 65279)"

lemma length_units [simp]: "length (units s) = length s"
  by (simp add: units_def)

lemma chars_units [simp]: "chars (units s) = s"
  by (simp add: chars_def units_def comp_def)

lemma units_inject [simp]: "units s = units t \<longleftrightarrow> s = t"
  by (metis chars_units)

lemma unit_digit_of_char [simp]: "unit_digit (of_char c) = is_digit c"
  by (simp add: unit_digit_def is_digit_def)

definition latin :: "text16 \<Rightarrow> string" where
  "latin u = map (\<lambda>n. if n < 256 then char_of n else CHR ''?'') u"

definition trim16 :: "text16 \<Rightarrow> text16" where
  "trim16 u = rev (dropWhile regex_space (rev (dropWhile regex_space u)))"

lemma trim16_Nil [simp]: "trim16 [] = []"
  by (simp add: trim16_def)

lemma units_less: "u \<in> set (units m) \<Longrightarrow> u < 256"
  by (auto simp: units_def of_char_less_256)

text \<open>\<open>formatCount\<close>: groups of three digits with a narrow no-break space.\<close>

fun group_digits :: "text16 \<Rightarrow> text16" where
  "group_digits [] = []"
| "group_digits (d # ds) =
     (if ds \<noteq> [] \<and> length ds mod 3 = 0 then d # 8239 # group_digits ds else d # group_digits ds)"

definition format_count :: "int \<Rightarrow> text16" where
  "format_count n = (if n < 0 then [45] else []) @ group_digits (units (int_str \<bar>n\<bar>))"

lemma latin_units [simp]: "latin (units s) = s"
  by (induction s) (simp_all add: latin_def units_def of_char_less_256)

end
