(* ===== verification/Purge_Holds.thy ===== *)
theory Purge_Holds
  imports Civil_Time Js_Text16 "HOL-Library.AList"
begin

text \<open>
  What keeps the rows of a month out while that month is deleted: the live target of the purge
  (\<open>traffic/purge/target.ts\<close>), the months one import file must not insert
  (\<open>traffic/purge/hold.ts\<close>), and the journals of files that are not imported again
  (\<open>traffic/poison.ts\<close>, \<open>smg/poison.ts\<close>).

  The messages are Russian text, so an error is the list of its UTF-16 code units. A journal is
  an association list in the order of the stored object; a file that does not parse reads as the
  empty journal and is not modelled. The modification time is only compared for equality.
\<close>

section \<open>purge/target.ts\<close>

record purge_slot =
  slot_month :: "string option"
  slot_committed :: bool

definition empty_slot :: purge_slot where
  "empty_slot = \<lparr>slot_month = None, slot_committed = False\<rparr>"

definition set_purge_target_month :: "string option \<Rightarrow> purge_slot \<Rightarrow> purge_slot" where
  "set_purge_target_month month slot =
     (let slot1 = (if month \<noteq> slot_month slot then slot\<lparr>slot_committed := False\<rparr> else slot)
      in slot1\<lparr>slot_month := month\<rparr>)"

definition note_purge_batch_committed :: "int \<Rightarrow> purge_slot \<Rightarrow> purge_slot" where
  "note_purge_batch_committed count slot =
     (if count > 0 then slot\<lparr>slot_committed := True\<rparr> else slot)"

lemma set_target_month [simp]: "slot_month (set_purge_target_month m slot) = m"
  by (simp add: set_purge_target_month_def Let_def)

lemma set_target_committed [simp]:
  "slot_committed (set_purge_target_month m slot) \<longleftrightarrow> m = slot_month slot \<and> slot_committed slot"
  by (simp add: set_purge_target_month_def Let_def)

lemma note_batch_month [simp]: "slot_month (note_purge_batch_committed n slot) = slot_month slot"
  by (simp add: note_purge_batch_committed_def)

lemma note_batch_committed [simp]:
  "slot_committed (note_purge_batch_committed n slot) \<longleftrightarrow> 0 < n \<or> slot_committed slot"
  by (simp add: note_purge_batch_committed_def)

section \<open>purge/hold.ts\<close>

definition remember_purge_target :: "string set \<Rightarrow> string option \<Rightarrow> string set" where
  "remember_purge_target held live = (case live of Some m \<Rightarrow> insert m held | None \<Rightarrow> held)"

definition month_is_held :: "string set \<Rightarrow> string option \<Rightarrow> bool" where
  "month_is_held held row_month = (case row_month of Some m \<Rightarrow> m \<in> held | None \<Rightarrow> False)"

definition active_purge_hold :: "string set \<Rightarrow> string option \<Rightarrow> string option" where
  "active_purge_hold held live =
     (case live of Some m \<Rightarrow> if m \<in> held then Some m else None | None \<Rightarrow> None)"

section \<open>poison.ts: the hold sentence\<close>

text \<open>The Cyrillic of the hold sentence and of the first words of the empty-file error.\<close>

definition purge_hold_prefix :: text16 where
  "purge_hold_prefix =
     [1054, 1090, 1083, 1086, 1078, 1077, 1085, 1086, 58, 32, 1080, 1076, 1105, 1090, 32,
      1091, 1076, 1072, 1083, 1077, 1085, 1080, 1077, 32]"

definition empty_file_prefix :: text16 where
  "empty_file_prefix = [1060, 1072, 1081, 1083, 32, 1087, 1091, 1089, 1090, 1086, 1081]"

definition purge_hold_message :: "string \<Rightarrow> text16" where
  "purge_hold_message month = purge_hold_prefix @ units month"

definition is_purge_hold_error :: "text16 \<Rightarrow> bool" where
  "is_purge_hold_error err = prefix purge_hold_prefix err"

definition month_units :: "text16 \<Rightarrow> bool" where
  "month_units u =
     list_all2 (\<lambda>p c. p c)
       [unit_digit, unit_digit, unit_digit, unit_digit, \<lambda>c. c = 45, unit_digit, unit_digit] u"

text \<open>The pattern at the start of a text: the sentence, a month, and the end, a dot, a bracket or a space.\<close>

definition hold_token :: "text16 \<Rightarrow> string option" where
  "hold_token u =
     (let t = drop (length purge_hold_prefix) u; rest = drop 7 t
      in if prefix purge_hold_prefix u \<and> month_units (take 7 t)
            \<and> (rest = [] \<or> hd rest = 46 \<or> hd rest = 41 \<or> regex_space (hd rest))
         then Some (chars (take 7 t)) else None)"

fun held_month_in_error :: "text16 \<Rightarrow> string option" where
  "held_month_in_error [] = None"
| "held_month_in_error (x # xs) =
     (case hold_token (x # xs) of Some m \<Rightarrow> Some m | None \<Rightarrow> held_month_in_error xs)"

definition hold_boundary :: "text16 \<Rightarrow> bool" where
  "hold_boundary rest = (rest = [] \<or> hd rest \<in> {46, 41, 32, 10, 13})"

text \<open>\<open>indexOf\<close> from the end of each occurrence that had no boundary after it.\<close>

function (sequential) holds_scan :: "text16 \<Rightarrow> text16 \<Rightarrow> bool" where
  "holds_scan needle [] = False"
| "holds_scan needle (x # xs) =
     (if prefix needle (x # xs)
      then hold_boundary (drop (length needle) (x # xs))
           \<or> holds_scan needle (drop (max 1 (length needle)) (x # xs))
      else holds_scan needle xs)"
  by pat_completeness auto
termination by (relation "measure (\<lambda>(_, u). length u)") auto

definition error_holds_month :: "text16 \<Rightarrow> string \<Rightarrow> bool" where
  "error_holds_month err month =
     (fits month_pattern month \<and> holds_scan (purge_hold_message month) err)"

definition purge_hold_released :: "string option \<Rightarrow> text16 \<Rightarrow> bool" where
  "purge_hold_released live err =
     (case held_month_in_error err of None \<Rightarrow> False | Some m \<Rightarrow> live \<noteq> Some m)"

section \<open>poison.ts and smg/poison.ts: the journals\<close>

record poison_entry =
  pe_mtime :: int
  pe_error :: text16
  pe_size :: "int option"

type_synonym poison_map = "(string \<times> poison_entry) list"

definition empty_dump_filled :: "int option \<Rightarrow> poison_entry \<Rightarrow> bool" where
  "empty_dump_filled bytes e =
     ((case bytes of Some n \<Rightarrow> n > 0 | None \<Rightarrow> False) \<and> prefix empty_file_prefix (pe_error e))"

definition is_poisoned :: "string option \<Rightarrow> string \<Rightarrow> int \<Rightarrow> int option \<Rightarrow> poison_map \<Rightarrow> bool" where
  "is_poisoned live filename mtime bytes jm =
     (case map_of jm filename of
        None \<Rightarrow> False
      | Some e \<Rightarrow>
          if pe_mtime e \<noteq> mtime then False
          else if bytes \<noteq> None \<and> pe_size e \<noteq> None \<and> pe_size e \<noteq> bytes then False
          else if empty_dump_filled bytes e then False
          else if purge_hold_released live (pe_error e) then False
          else if bytes = None then True
          else if pe_size e \<noteq> None then pe_size e = bytes
          else True)"

definition mark_poisoned :: "string \<Rightarrow> int \<Rightarrow> text16 \<Rightarrow> int option \<Rightarrow> poison_map \<Rightarrow> poison_map" where
  "mark_poisoned filename mtime err bytes jm =
     AList.update filename \<lparr>pe_mtime = mtime, pe_error = err, pe_size = bytes\<rparr> jm"

text \<open>An absent or empty file name clears the whole journal.\<close>

definition clear_poison :: "string option \<Rightarrow> poison_map \<Rightarrow> poison_map" where
  "clear_poison filename jm =
     (case filename of
        None \<Rightarrow> []
      | Some f \<Rightarrow> if f = [] then [] else AList.delete f jm)"

definition list_poison_entries ::
  "(string \<Rightarrow> string \<Rightarrow> int) \<Rightarrow> poison_map \<Rightarrow> (string \<times> text16 \<times> bool) list" where
  "list_poison_entries locale_compare jm =
     js_sort (\<lambda>a b. locale_compare (fst a) (fst b))
       (map (\<lambda>(f, e). (f, pe_error e, is_purge_hold_error (pe_error e))) jm)"

text \<open>
  The loops over the entries: each deletes the entries its condition selects and counts them;
  the journal is written back when one went.
\<close>

definition drop_entries :: "(text16 \<Rightarrow> bool) \<Rightarrow> poison_map \<Rightarrow> nat \<times> poison_map" where
  "drop_entries gone jm =
     foldl (\<lambda>(removed, m) (f, e).
              if gone (pe_error e) then (Suc removed, AList.delete f m) else (removed, m)) (0, jm) jm"

definition clear_purge_holds :: "string \<Rightarrow> poison_map \<Rightarrow> nat \<times> poison_map" where
  "clear_purge_holds month jm = drop_entries (\<lambda>err. error_holds_month err month) jm"

definition clear_all_purge_holds :: "poison_map \<Rightarrow> nat \<times> poison_map" where
  "clear_all_purge_holds jm = drop_entries is_purge_hold_error jm"

definition clear_purge_holds_except :: "string option \<Rightarrow> poison_map \<Rightarrow> nat \<times> poison_map" where
  "clear_purge_holds_except month jm =
     (case month of
        None \<Rightarrow> clear_all_purge_holds jm
      | Some m \<Rightarrow>
          if m = [] then clear_all_purge_holds jm
          else drop_entries (\<lambda>err. is_purge_hold_error err \<and> \<not> error_holds_month err m) jm)"

definition clear_poison_except_month_hold :: "string option \<Rightarrow> poison_map \<Rightarrow> poison_map" where
  "clear_poison_except_month_hold month jm =
     (case month of
        None \<Rightarrow> []
      | Some m \<Rightarrow> if m = [] then [] else snd (drop_entries (\<lambda>err. \<not> error_holds_month err m) jm))"

text \<open>The SMG journal has no sizes; the other operations are the same on it.\<close>

definition is_smg_poisoned :: "string option \<Rightarrow> string \<Rightarrow> int \<Rightarrow> int option \<Rightarrow> poison_map \<Rightarrow> bool" where
  "is_smg_poisoned live filename mtime bytes jm =
     (case map_of jm filename of
        None \<Rightarrow> False
      | Some e \<Rightarrow>
          if pe_mtime e \<noteq> mtime then False
          else if empty_dump_filled bytes e then False
          else \<not> purge_hold_released live (pe_error e))"

definition mark_smg_poisoned :: "string \<Rightarrow> int \<Rightarrow> text16 \<Rightarrow> poison_map \<Rightarrow> poison_map" where
  "mark_smg_poisoned filename mtime err jm = mark_poisoned filename mtime err None jm"

definition clear_smg_poison :: "string option \<Rightarrow> poison_map \<Rightarrow> poison_map" where
  "clear_smg_poison filename jm =
     (case filename of
        None \<Rightarrow> []
      | Some f \<Rightarrow> if f = [] then [] else AList.delete f jm)"

definition clear_smg_purge_holds :: "string \<Rightarrow> poison_map \<Rightarrow> nat \<times> poison_map" where
  "clear_smg_purge_holds month jm = drop_entries (\<lambda>err. error_holds_month err month) jm"

definition clear_all_smg_purge_holds :: "poison_map \<Rightarrow> nat \<times> poison_map" where
  "clear_all_smg_purge_holds jm = drop_entries is_purge_hold_error jm"

definition clear_smg_purge_holds_except :: "string option \<Rightarrow> poison_map \<Rightarrow> nat \<times> poison_map" where
  "clear_smg_purge_holds_except month jm =
     (case month of
        None \<Rightarrow> clear_all_smg_purge_holds jm
      | Some m \<Rightarrow>
          if m = [] then clear_all_smg_purge_holds jm
          else drop_entries (\<lambda>err. is_purge_hold_error err \<and> \<not> error_holds_month err m) jm)"

definition clear_smg_poison_except_month_hold :: "string option \<Rightarrow> poison_map \<Rightarrow> poison_map" where
  "clear_smg_poison_except_month_hold month jm =
     (case month of
        None \<Rightarrow> []
      | Some m \<Rightarrow> if m = [] then [] else snd (drop_entries (\<lambda>err. \<not> error_holds_month err m) jm))"

definition list_smg_poison_entries ::
  "(string \<Rightarrow> string \<Rightarrow> int) \<Rightarrow> poison_map \<Rightarrow> (string \<times> text16) list" where
  "list_smg_poison_entries locale_compare jm =
     js_sort (\<lambda>a b. locale_compare (fst a) (fst b)) (map (\<lambda>(f, e). (f, pe_error e)) jm)"

section \<open>Lemmas\<close>

lemma length_purge_hold_prefix [simp]: "length purge_hold_prefix = 24"
  by (simp add: purge_hold_prefix_def)

lemma month_units_units: "month_units (units m) = fits month_pattern m"
proof -
  have "(of_char c = (45::nat)) = (c = CHR ''-'')" for c :: char
    by (auto simp: char_eq_of_char)
  then show ?thesis
    by (simp add: month_units_def units_def fits_def month_pattern_def list_all2_map2 eval_nat_numeral
        list_all2_Cons1)
qed

lemma fits_month_length: "fits month_pattern m \<Longrightarrow> length m = 7"
  by (auto simp: fits_def month_pattern_def dest: list_all2_lengthD)

text \<open>The sentence of a month is read back from the middle of any error.\<close>

lemma hold_token_message:
  assumes "fits month_pattern m" and "rest = [] \<or> hd rest = 46 \<or> hd rest = 41 \<or> regex_space (hd rest)"
  shows "hold_token (purge_hold_message m @ rest) = Some m"
  using assms fits_month_length [OF assms(1)]
  by (simp add: hold_token_def purge_hold_message_def Let_def month_units_units prefix_def)

lemma held_month_of_message:
  assumes "fits month_pattern m" and "rest = [] \<or> hd rest = 46 \<or> hd rest = 41 \<or> regex_space (hd rest)"
  shows "held_month_in_error (purge_hold_message m @ rest) = Some m"
proof -
  obtain x xs where "purge_hold_message m @ rest = x # xs"
    by (simp add: purge_hold_message_def purge_hold_prefix_def)
  then show ?thesis using hold_token_message [OF assms] by simp
qed

text \<open>
  The sentence cannot overlap itself, as its first unit occurs once; so the search that skips a
  whole occurrence still finds every later one.
\<close>

lemma holds_scan_embedded:
  assumes "needle = k # t" and "k \<notin> set t" and "hold_boundary rest"
  shows "holds_scan needle (a @ needle @ rest)"
proof (induction a rule: length_induct)
  case (1 a)
  show ?case
  proof (cases a)
    case Nil
    then show ?thesis using assms(1,3) by simp
  next
    case (Cons x xs)
    let ?text = "a @ needle @ rest"
    show ?thesis
    proof (cases "prefix needle ?text")
      case False
      then show ?thesis using 1 Cons by simp
    next
      case True
      have "length needle \<le> length a"
      proof (rule ccontr)
        assume "\<not> length needle \<le> length a"
        then have lt: "length a < length needle" by simp
        have "needle ! length a = ?text ! length a"
          using True lt by (metis nth_append prefix_def)
        also have "\<dots> = k" by (simp add: assms(1) nth_append)
        finally have "t ! (length a - 1) = k" using Cons assms(1) by simp
        moreover have "length a - 1 < length t" using lt Cons assms(1) by simp
        ultimately show False using assms(2) nth_mem by blast
      qed
      then have "drop (length needle) ?text = drop (length needle) a @ needle @ rest" by simp
      moreover have "holds_scan needle (drop (length needle) a @ needle @ rest)"
        using 1 assms(1) Cons by simp
      moreover have "max 1 (length needle) = length needle" using assms(1) by simp
      ultimately show ?thesis using True Cons by simp
    qed
  qed
qed

lemma message_head:
  "purge_hold_message m = 1054 # (tl purge_hold_prefix @ units m) \<and> 1054 \<notin> set (tl purge_hold_prefix @ units m)"
  using units_less by (fastforce simp: purge_hold_message_def purge_hold_prefix_def)

lemma error_holds_embedded:
  assumes "fits month_pattern m" and "hold_boundary rest"
  shows "error_holds_month (a @ purge_hold_message m @ rest) m"
  using assms message_head by (simp only: error_holds_month_def) (metis holds_scan_embedded)

lemma holds_scan_no_head: "k \<notin> set u \<Longrightarrow> \<not> holds_scan (k # t) u"
  by (induction "k # t" u rule: holds_scan.induct) (auto simp: prefix_def dest: in_set_dropD)

lemma error_holds_message:
  assumes "fits month_pattern m" and "fits month_pattern k"
  shows "error_holds_month (purge_hold_message m) k \<longleftrightarrow> m = k"
proof -
  have len: "length m = length k" using assms by (simp add: fits_month_length)
  show ?thesis
  proof (cases "m = k")
    case True
    then show ?thesis using error_holds_embedded [of m "[]" "[]"] assms by (simp add: hold_boundary_def)
  next
    case False
    have np: "\<not> prefix (purge_hold_message k) (purge_hold_message m)"
    proof
      assume "prefix (purge_hold_message k) (purge_hold_message m)"
      then obtain zs where zs: "units m = units k @ zs"
        by (auto simp: purge_hold_message_def prefix_def)
      then have "zs = []" using len by (metis append_Nil2 append_eq_append_conv length_units)
      then show False using zs False by simp
    qed
    have "\<not> holds_scan (purge_hold_message k) (purge_hold_message m)"
      using np message_head [of k] message_head [of m] holds_scan_no_head
      by (metis holds_scan.simps(2))
    then show ?thesis using False by (simp add: error_holds_month_def)
  qed
qed

section \<open>The deleting loops\<close>

lemma delete_none [simp]: "k \<notin> fst ` set xs \<Longrightarrow> AList.delete k xs = xs"
  by (simp add: delete_id)

lemma delete_append: "AList.delete k (xs @ ys) = AList.delete k xs @ AList.delete k ys"
  by (induction xs) auto

lemma drop_loop:
  assumes "distinct (map fst (kept @ rest))"
  shows "foldl (\<lambda>(removed, m) (f, e).
            if gone (pe_error e) then (Suc removed, AList.delete f m) else (removed, m))
           (n, kept @ rest) rest =
         (n + length (filter (\<lambda>(f, e). gone (pe_error e)) rest),
          kept @ filter (\<lambda>(f, e). \<not> gone (pe_error e)) rest)"
  using assms
proof (induction rest arbitrary: kept n)
  case Nil
  then show ?case by simp
next
  case (Cons x rest)
  obtain f e where x: "x = (f, e)" by (cases x)
  show ?case
  proof (cases "gone (pe_error e)")
    case True
    have "AList.delete f (kept @ x # rest) = kept @ rest"
      using Cons.prems x by (auto simp: delete_append)
    then show ?thesis using True x Cons.IH [of kept "Suc n"] Cons.prems by simp
  next
    case False
    then show ?thesis using x Cons.IH [of "kept @ [x]" n] Cons.prems by simp
  qed
qed

lemma drop_entries_eq:
  assumes "distinct (map fst jm)"
  shows "drop_entries gone jm =
    (length (filter (\<lambda>(f, e). gone (pe_error e)) jm), filter (\<lambda>(f, e). \<not> gone (pe_error e)) jm)"
  using drop_loop [of "[]" jm gone 0] assms by (simp add: drop_entries_def)

lemma map_of_filter_entries:
  assumes "distinct (map fst jm)"
  shows "map_of (filter (\<lambda>(f, e). P e) jm) f =
    (case map_of jm f of None \<Rightarrow> None | Some e \<Rightarrow> if P e then Some e else None)"
  using assms by (induction jm) (auto split: option.splits simp: map_of_eq_None_iff dest: map_of_SomeD)

lemma drop_entries_lookup:
  assumes "distinct (map fst jm)"
  shows "map_of (snd (drop_entries gone jm)) f =
    (case map_of jm f of None \<Rightarrow> None | Some e \<Rightarrow> if gone (pe_error e) then None else Some e)"
  using map_of_filter_entries [OF assms, of "\<lambda>e. \<not> gone (pe_error e)" f]
  by (simp add: drop_entries_eq [OF assms] split: option.splits)

lemma distinct_drop_entries:
  "distinct (map fst jm) \<Longrightarrow> distinct (map fst (snd (drop_entries gone jm)))"
  by (simp add: drop_entries_eq distinct_map_filter)

lemma distinct_mark: "distinct (map fst jm) \<Longrightarrow> distinct (map fst (mark_poisoned f t err b jm))"
  by (simp add: mark_poisoned_def distinct_update)

text \<open>A hold hides its file exactly while its month is the live target.\<close>

lemma message_not_empty: "\<not> prefix empty_file_prefix (purge_hold_message m @ rest)"
  by (simp add: empty_file_prefix_def purge_hold_message_def purge_hold_prefix_def)

lemma hold_hides:
  assumes "fits month_pattern m" and "rest = [] \<or> hd rest = 46 \<or> hd rest = 41 \<or> regex_space (hd rest)"
  shows "is_poisoned live f t bytes (mark_poisoned f t (purge_hold_message m @ rest) bytes jm)
           \<longleftrightarrow> live = Some m"
    and "is_smg_poisoned live f t bytes (mark_smg_poisoned f t (purge_hold_message m @ rest) jm)
           \<longleftrightarrow> live = Some m"
  using held_month_of_message [OF assms] message_not_empty [of m rest]
  by (auto simp: is_poisoned_def is_smg_poisoned_def mark_smg_poisoned_def mark_poisoned_def
      update_conv' empty_dump_filled_def purge_hold_released_def split: option.splits)

end
