(* ===== verification/Job_Runtime.thy ===== *)
theory Job_Runtime
  imports Vm_Queue Purge_Holds
begin

text \<open>
  The in-process job runtime (\<open>src/src/modules/jobs/runtime.ts\<close>, with \<open>finalize.ts\<close>,
  \<open>reclaim-orphans.ts\<close>, \<open>storage/vacuum/gate.ts\<close>) as a state and its
  operations. An enqueue runs to its end without yielding; a job waits in the queue, runs, and
  its promise settles; the handlers of a settled promise run in a later step of their own, so
  anything may come between them. What the processors do is the result they give.
\<close>

section \<open>Actions and inputs\<close>

datatype action =
    Regs_poll | Phones_sync | Groups_sync | Cdr_import | Smg_import | Voipmonitor_match
  | Cdr_sides_refresh | Cdr_purge_month | Cdr_tariff_rate | Db_vacuum

datatype trigger = Schedule | Manual | Test

definition supported_job_actions :: "action list" where
  "supported_job_actions =
     [Regs_poll, Phones_sync, Groups_sync, Cdr_import, Smg_import, Voipmonitor_match,
      Cdr_sides_refresh, Cdr_purge_month, Cdr_tariff_rate, Db_vacuum]"

definition cdr_blocks_vacuum :: "action list" where
  "cdr_blocks_vacuum =
     [Cdr_import, Smg_import, Voipmonitor_match, Cdr_sides_refresh, Cdr_purge_month, Cdr_tariff_rate]"

record job_input =
  ji_action :: action
  ji_trigger :: trigger
  ji_actor :: "string option"
  ji_month :: "string option"
  ji_history_only :: bool
  ji_resume_calls :: bool
  ji_deleted_calls :: "int option"

text \<open>The fields of a processor's result the runtime looks at.\<close>

record job_result =
  jr_failed :: bool
  jr_requeue_after_ms :: "int option"
  jr_replay :: bool
  jr_match :: "match_job_result option"

datatype job_end = Rejected | Resolved job_result

datatype reject_reason =
    Unsupported action
  | Already_in_flight
  | Overlap action
  | Overlap_month_export

datatype follow_up =
    Drain_cdr int
  | Drain_smg int
  | Chain_voipmonitor
  | Refresh_sides
  | Retry_tariff int

section \<open>State\<close>

record runtime_state =
  rt_in_flight :: "action set"
  rt_vacuum_active :: bool
  rt_purge_slot :: purge_slot
  rt_waiting :: "job_input list"
  rt_running :: "job_input list"
  rt_settled :: "(job_input \<times> job_end) list"
  rt_occupied :: bool
  rt_tariff_failures :: nat
  rt_follow_ups :: "follow_up list"

definition rt_initial :: runtime_state where
  "rt_initial =
     \<lparr>rt_in_flight = {}, rt_vacuum_active = False, rt_purge_slot = empty_slot,
      rt_waiting = [], rt_running = [], rt_settled = [], rt_occupied = False,
      rt_tariff_failures = 0, rt_follow_ups = []\<rparr>"

definition queue_concurrency :: nat where
  "queue_concurrency = 3"

section \<open>Operations\<close>

definition is_in_flight :: "runtime_state \<Rightarrow> action \<Rightarrow> bool" where
  "is_in_flight st a = (a \<in> rt_in_flight st)"

text \<open>The guards, in their order; \<open>exporting\<close> is \<open>isMonthExportRunning()\<close>.\<close>

definition enqueue_refusal :: "bool \<Rightarrow> action \<Rightarrow> runtime_state \<Rightarrow> reject_reason option" where
  "enqueue_refusal exporting a st =
     (if a \<notin> set supported_job_actions then Some (Unsupported a)
      else if is_in_flight st a then Some Already_in_flight
      else if a = Cdr_purge_month \<and> is_in_flight st Cdr_import then Some (Overlap Cdr_import)
      else if a = Cdr_purge_month \<and> is_in_flight st Smg_import then Some (Overlap Smg_import)
      else if a = Db_vacuum \<and> exporting then Some Overlap_month_export
      else if a = Db_vacuum \<and> find (is_in_flight st) cdr_blocks_vacuum \<noteq> None
        then map_option Overlap (find (is_in_flight st) cdr_blocks_vacuum)
      else if a \<in> set cdr_blocks_vacuum \<and> is_in_flight st Db_vacuum then Some (Overlap Db_vacuum)
      else None)"

definition enqueue :: "bool \<Rightarrow> job_input \<Rightarrow> runtime_state \<Rightarrow> runtime_state \<times> reject_reason option" where
  "enqueue exporting input st =
     (case enqueue_refusal exporting (ji_action input) st of
        Some r \<Rightarrow> (st, Some r)
      | None \<Rightarrow>
          (let a = ji_action input;
               st1 = st\<lparr>rt_in_flight := insert a (rt_in_flight st)\<rparr>;
               st2 = (if a = Db_vacuum then st1\<lparr>rt_vacuum_active := True\<rparr> else st1);
               st3 = (if a = Cdr_purge_month then
                        (case parse_month_key (ji_month input) of
                           Some m \<Rightarrow> st2\<lparr>rt_purge_slot := set_purge_target_month (Some (cm_key m)) (rt_purge_slot st2)\<rparr>
                         | None \<Rightarrow> st2)
                      else st2)
           in (st3\<lparr>rt_waiting := rt_waiting st3 @ [input]\<rparr>, None)))"

text \<open>The queue starts the first waiting job while a slot is free.\<close>

definition start_job :: "runtime_state \<Rightarrow> runtime_state option" where
  "start_job st =
     (case rt_waiting st of
        [] \<Rightarrow> None
      | j # js \<Rightarrow>
          (if length (rt_running st) < queue_concurrency
           then Some (st\<lparr>rt_waiting := js, rt_running := rt_running st @ [j]\<rparr>) else None))"

definition remove_nth :: "nat \<Rightarrow> 'a list \<Rightarrow> 'a list" where
  "remove_nth i xs = take i xs @ drop (Suc i) xs"

text \<open>The \<open>finally\<close> of the job body; the handlers of its promise are still to run.\<close>

definition finish_job :: "nat \<Rightarrow> job_end \<Rightarrow> runtime_state \<Rightarrow> runtime_state option" where
  "finish_job i outcome st =
     (if i < length (rt_running st) then
        (let j = rt_running st ! i;
             st1 = (if ji_action j = Db_vacuum then st\<lparr>rt_vacuum_active := False\<rparr> else st)
         in Some (st1\<lparr>rt_in_flight := rt_in_flight st1 - {ji_action j},
                      rt_running := remove_nth i (rt_running st1),
                      rt_settled := rt_settled st1 @ [(j, outcome)]\<rparr>))
      else None)"

definition tariff_rate_retry_delay :: "bool \<Rightarrow> nat \<Rightarrow> nat \<times> int option" where
  "tariff_rate_retry_delay failed failures =
     (if \<not> failed then (0, Some 0)
      else if failures + 1 > 3 then (failures + 1, None)
      else (failures + 1, Some (15000 * int (failures + 1))))"

text \<open>The requests a fulfilled job makes, in order (without the tariff retry).\<close>

definition follow_ups_of :: "action \<Rightarrow> job_result \<Rightarrow> follow_up list" where
  "follow_ups_of a r =
     (if a = Smg_import \<or> a = Cdr_import then
        (case jr_requeue_after_ms r of
           Some d \<Rightarrow> [if a = Smg_import then Drain_smg d else Drain_cdr d] | None \<Rightarrow> [])
      else [])
     @ (if a = Voipmonitor_match \<and> should_chain_voipmonitor_match (jr_match r)
        then [Chain_voipmonitor] else [])
     @ (if (a = Phones_sync \<or> a = Cdr_import) \<and> \<not> jr_failed r then [Refresh_sides] else [])
     @ (if a = Cdr_sides_refresh \<and> jr_replay r then [Refresh_sides] else [])"

definition handle_settled :: "runtime_state \<Rightarrow> runtime_state option" where
  "handle_settled st =
     (case rt_settled st of
        [] \<Rightarrow> None
      | (j, outcome) # rest \<Rightarrow>
          (let a = ji_action j;
               st1 = st\<lparr>rt_settled := rest,
                        rt_follow_ups := rt_follow_ups st
                          @ (if a = Db_vacuum then [Drain_cdr 0, Drain_smg 0] else [])\<rparr>
           in case outcome of
                Rejected \<Rightarrow> Some (st1\<lparr>rt_in_flight := rt_in_flight st1 - {a}\<rparr>)
              | Resolved r \<Rightarrow>
                  (let st2 = st1\<lparr>rt_follow_ups := rt_follow_ups st1 @ follow_ups_of a r\<rparr>
                   in if a = Cdr_tariff_rate then
                        (let d = tariff_rate_retry_delay (jr_failed r) (rt_tariff_failures st2)
                         in Some (st2\<lparr>rt_tariff_failures := fst d,
                                      rt_follow_ups := rt_follow_ups st2
                                        @ (case snd d of Some ms \<Rightarrow> [Retry_tariff ms] | None \<Rightarrow> [])\<rparr>))
                      else Some st2)))"

text \<open>\<open>occupyPhonesSync\<close>: the check and the flag, and the \<open>finally\<close> when its body is done.\<close>

definition occupy_phones_sync :: "runtime_state \<Rightarrow> runtime_state option" where
  "occupy_phones_sync st =
     (if is_in_flight st Phones_sync then None
      else Some (st\<lparr>rt_in_flight := insert Phones_sync (rt_in_flight st), rt_occupied := True\<rparr>))"

definition vacate_phones_sync :: "runtime_state \<Rightarrow> runtime_state option" where
  "vacate_phones_sync st =
     (if rt_occupied st
      then Some (st\<lparr>rt_in_flight := rt_in_flight st - {Phones_sync}, rt_occupied := False\<rparr>) else None)"

section \<open>Steps\<close>

datatype rt_event =
    Ev_enqueue bool job_input
  | Ev_start
  | Ev_finish nat job_end
  | Ev_handle
  | Ev_occupy
  | Ev_vacate

fun rt_exec :: "rt_event \<Rightarrow> runtime_state \<Rightarrow> runtime_state option" where
  "rt_exec (Ev_enqueue exporting input) st = Some (fst (enqueue exporting input st))"
| "rt_exec Ev_start st = start_job st"
| "rt_exec (Ev_finish i outcome) st = finish_job i outcome st"
| "rt_exec Ev_handle st = handle_settled st"
| "rt_exec Ev_occupy st = occupy_phones_sync st"
| "rt_exec Ev_vacate st = vacate_phones_sync st"

inductive rt_step :: "runtime_state \<Rightarrow> rt_event \<Rightarrow> runtime_state \<Rightarrow> bool" where
  exec: "rt_exec e st = Some st' \<Longrightarrow> rt_step st e st'"

fun rt_run :: "rt_event list \<Rightarrow> runtime_state \<Rightarrow> runtime_state option" where
  "rt_run [] st = Some st"
| "rt_run (e # es) st = (case rt_exec e st of None \<Rightarrow> None | Some st1 \<Rightarrow> rt_run es st1)"

text \<open>
  A run raises a flag only while no rejected promise waits for its handler. The handler of a
  rejection lowers the flag once more, so this is what the exclusion below rests on.
\<close>

definition no_rejection_pending :: "runtime_state \<Rightarrow> bool" where
  "no_rejection_pending st = list_all (\<lambda>s. snd s \<noteq> Rejected) (rt_settled st)"

inductive calm_reachable :: "runtime_state \<Rightarrow> bool" where
  init: "calm_reachable rt_initial"
| step: "calm_reachable st \<Longrightarrow> rt_step st e st' \<Longrightarrow>
    (\<not> rt_in_flight st' \<subseteq> rt_in_flight st \<Longrightarrow> no_rejection_pending st) \<Longrightarrow> calm_reachable st'"

inductive_cases rt_stepE: "rt_step st e st'"
inductive_simps rt_step_enqueue: "rt_step st (Ev_enqueue ex input) st'"

definition active_actions :: "runtime_state \<Rightarrow> action list" where
  "active_actions st =
     map ji_action (rt_waiting st @ rt_running st) @ (if rt_occupied st then [Phones_sync] else [])"

section \<open>Job runs in the database\<close>

record job_run =
  run_id :: string
  run_action :: action
  run_status :: job_status
  run_started :: int
  run_finished :: "int option"
  run_error :: "text16 option"

definition orphan_reclaim_message :: text16 where
  "orphan_reclaim_message = units ''interrupted: process restarted''"

text \<open>The count of reclaimed runs, the running purges before, and the runs after.\<close>

definition reclaim_orphan_job_runs ::
  "int \<Rightarrow> 'a job_run_scheme list \<Rightarrow> nat \<times> 'a job_run_scheme list \<times> 'a job_run_scheme list" where
  "reclaim_orphan_job_runs now runs =
     (length (filter (\<lambda>r. run_status r = Job_running) runs),
      filter (\<lambda>r. run_status r = Job_running \<and> run_action r = Cdr_purge_month) runs,
      map (\<lambda>r. if run_status r = Job_running
               then r\<lparr>run_status := Job_failed, run_finished := Some now,
                      run_error := Some orphan_reclaim_message\<rparr> else r) runs)"

definition fail_job_run_if_still_running ::
  "int \<Rightarrow> string \<Rightarrow> text16 \<Rightarrow> 'a job_run_scheme list \<Rightarrow> 'a job_run_scheme list" where
  "fail_job_run_if_still_running now rid msg runs =
     map (\<lambda>r. if run_id r = rid \<and> run_status r = Job_running
              then r\<lparr>run_status := Job_failed, run_finished := Some now, run_error := Some msg\<rparr>
              else r) runs"

section \<open>The exclusion invariant\<close>

definition rt_inv :: "runtime_state \<Rightarrow> bool" where
  "rt_inv st \<longleftrightarrow>
     distinct (active_actions st) \<and> set (active_actions st) = rt_in_flight st
     \<and> (Db_vacuum \<in> rt_in_flight st \<longrightarrow> rt_in_flight st \<inter> set cdr_blocks_vacuum = {})
     \<and> rt_vacuum_active st = (Db_vacuum \<in> rt_in_flight st)
     \<and> (\<forall>j. (j, Rejected) \<in> set (rt_settled st) \<longrightarrow> ji_action j \<notin> rt_in_flight st)
     \<and> length (rt_running st) \<le> queue_concurrency"

lemma rt_inv_initial: "rt_inv rt_initial"
  by (simp add: rt_inv_def rt_initial_def active_actions_def)

lemma enqueue_accepted:
  assumes "enqueue ex input st = (st', None)"
  shows "enqueue_refusal ex (ji_action input) st = None
    \<and> rt_in_flight st' = insert (ji_action input) (rt_in_flight st)
    \<and> rt_waiting st' = rt_waiting st @ [input] \<and> rt_running st' = rt_running st
    \<and> rt_settled st' = rt_settled st \<and> rt_occupied st' = rt_occupied st
    \<and> rt_vacuum_active st' = (rt_vacuum_active st \<or> ji_action input = Db_vacuum)"
  using assms
  by (cases "ji_action input = Db_vacuum"; cases "ji_action input = Cdr_purge_month")
     (auto simp: enqueue_def Let_def split: option.splits if_splits)

lemma enqueue_refused: "enqueue ex input st = (st', Some r) \<Longrightarrow> st' = st"
  by (auto simp: enqueue_def Let_def split: option.splits)

lemma find_in_flight: "find (is_in_flight st) as = None \<longleftrightarrow> rt_in_flight st \<inter> set as = {}"
  by (auto simp: find_None_iff is_in_flight_def)

lemma refusal_None:
  "enqueue_refusal ex a st = None \<Longrightarrow> a \<notin> rt_in_flight st
    \<and> (a = Db_vacuum \<longrightarrow> \<not> ex \<and> rt_in_flight st \<inter> set cdr_blocks_vacuum = {})
    \<and> (a \<in> set cdr_blocks_vacuum \<longrightarrow> Db_vacuum \<notin> rt_in_flight st)
    \<and> (a = Cdr_purge_month \<longrightarrow> Cdr_import \<notin> rt_in_flight st \<and> Smg_import \<notin> rt_in_flight st)"
  unfolding enqueue_refusal_def find_in_flight
  by (auto simp: is_in_flight_def find_None_iff split: if_splits)

lemma vacuum_not_blocked: "Db_vacuum \<notin> set cdr_blocks_vacuum"
  by (simp add: cdr_blocks_vacuum_def)


lemmas rt_invD = rt_inv_def [THEN iffD1, THEN conjunct1]
  rt_inv_def [THEN iffD1, THEN conjunct2, THEN conjunct1]
  rt_inv_def [THEN iffD1, THEN conjunct2, THEN conjunct2, THEN conjunct1]
  rt_inv_def [THEN iffD1, THEN conjunct2, THEN conjunct2, THEN conjunct2, THEN conjunct1]
  rt_inv_def [THEN iffD1, THEN conjunct2, THEN conjunct2, THEN conjunct2, THEN conjunct2, THEN conjunct1]
  rt_inv_def [THEN iffD1, THEN conjunct2, THEN conjunct2, THEN conjunct2, THEN conjunct2, THEN conjunct2]

lemma rt_invI:
  "distinct (active_actions st) \<Longrightarrow> set (active_actions st) = rt_in_flight st \<Longrightarrow>
   (Db_vacuum \<in> rt_in_flight st \<longrightarrow> rt_in_flight st \<inter> set cdr_blocks_vacuum = {}) \<Longrightarrow>
   rt_vacuum_active st = (Db_vacuum \<in> rt_in_flight st) \<Longrightarrow>
   \<forall>j. (j, Rejected) \<in> set (rt_settled st) \<longrightarrow> ji_action j \<notin> rt_in_flight st \<Longrightarrow>
   length (rt_running st) \<le> queue_concurrency \<Longrightarrow> rt_inv st"
  by (simp add: rt_inv_def)

lemma calm_no_rejection: "no_rejection_pending st \<Longrightarrow> (j, Rejected) \<notin> set (rt_settled st)"
  unfolding no_rejection_pending_def list_all_iff by (metis snd_conv)

lemma rt_inv_enqueue:
  assumes inv: "rt_inv st" and calm: "no_rejection_pending st" and e: "enqueue ex input st = (st', None)"
  shows "rt_inv st'"
proof -
  note acc = enqueue_accepted [OF e]
  note ref = refusal_None [OF conjunct1 [OF acc]]
  have act: "active_actions st' = map ji_action (rt_waiting st @ input # rt_running st)
      @ (if rt_occupied st then [Phones_sync] else [])"
    using acc by (simp add: active_actions_def)
  have "ji_action input \<notin> set (active_actions st)" using ref inv by (simp add: rt_inv_def)
  then have d: "distinct (active_actions st')" "set (active_actions st') = rt_in_flight st'"
    using inv acc unfolding act rt_inv_def by (auto simp: active_actions_def)
  have f: "rt_in_flight st' = insert (ji_action input) (rt_in_flight st)" "rt_settled st' = rt_settled st"
    "rt_running st' = rt_running st" "rt_vacuum_active st' = (rt_vacuum_active st \<or> ji_action input = Db_vacuum)"
    using acc by blast+
  have rej: "\<forall>j. (j, Rejected) \<in> set (rt_settled st') \<longrightarrow> ji_action j \<notin> rt_in_flight st'"
    using calm_no_rejection [OF calm] f(2) by metis
  have vac: "Db_vacuum \<in> rt_in_flight st' \<longrightarrow> rt_in_flight st' \<inter> set cdr_blocks_vacuum = {}"
  proof (cases "ji_action input = Db_vacuum")
    case True
    then have "rt_in_flight st \<inter> set cdr_blocks_vacuum = {}" using ref by blast
    then show ?thesis unfolding f(1) True using vacuum_not_blocked by blast
  next
    case False
    show ?thesis
    proof
      assume "Db_vacuum \<in> rt_in_flight st'"
      then have v: "Db_vacuum \<in> rt_in_flight st" using False f(1) by (metis insertE)
      then have "ji_action input \<notin> set cdr_blocks_vacuum" using ref by blast
      then show "rt_in_flight st' \<inter> set cdr_blocks_vacuum = {}"
        using rt_invD(3) [OF inv] v unfolding f(1) by blast
    qed
  qed
  have flag: "rt_vacuum_active st' = (Db_vacuum \<in> rt_in_flight st')"
    using rt_invD(4) [OF inv] unfolding f(1,4) by (metis insert_iff)
  show ?thesis
    using rt_invI [OF d vac flag rej] rt_invD(6) [OF inv] unfolding f(3) by blast
qed

lemma rt_inv_start:
  assumes inv: "rt_inv st" and s: "start_job st = Some st'"
  shows "rt_inv st'"
proof -
  from s obtain j js where j: "rt_waiting st = j # js" "length (rt_running st) < queue_concurrency"
    "st' = st\<lparr>rt_waiting := js, rt_running := rt_running st @ [j]\<rparr>"
    by (auto simp: start_job_def split: list.splits if_splits)
  have "distinct (active_actions st') \<and> set (active_actions st') = set (active_actions st)"
    using rt_invD(1) [OF inv] by (auto simp: active_actions_def j)
  then show ?thesis
    using inv j by (intro rt_invI) (auto simp: rt_invD)
qed

lemma set_remove_nth: "set (remove_nth i xs) \<subseteq> set xs"
  by (auto simp: remove_nth_def dest: in_set_takeD in_set_dropD)

lemma remove_nth_split: "i < length xs \<Longrightarrow> xs = take i xs @ xs ! i # drop (Suc i) xs"
  by (simp add: id_take_nth_drop)

lemma rt_inv_finish:
  assumes inv: "rt_inv st" and f: "finish_job i outcome st = Some st'"
  shows "rt_inv st'"
proof -
  let ?j = "rt_running st ! i"
  from f have i: "i < length (rt_running st)"
    and st': "rt_in_flight st' = rt_in_flight st - {ji_action ?j}"
      "rt_running st' = remove_nth i (rt_running st)" "rt_waiting st' = rt_waiting st"
      "rt_settled st' = rt_settled st @ [(?j, outcome)]" "rt_occupied st' = rt_occupied st"
      "rt_vacuum_active st' = (rt_vacuum_active st \<and> ji_action ?j \<noteq> Db_vacuum)"
    by (auto simp: finish_job_def Let_def split: if_splits)
  define l r where "l = take i (rt_running st)" and "r = drop (Suc i) (rt_running st)"
  have run: "rt_running st = l @ ?j # r" "rt_running st' = l @ r"
    using remove_nth_split [OF i] by (simp_all add: l_def r_def st'(2) remove_nth_def)
  have act: "active_actions st = map ji_action (rt_waiting st @ l) @ ji_action ?j # map ji_action r
      @ (if rt_occupied st then [Phones_sync] else [])"
    "active_actions st' = map ji_action (rt_waiting st @ l) @ map ji_action r
      @ (if rt_occupied st then [Phones_sync] else [])"
    by (simp_all add: active_actions_def run(2) st'(3,5)) (metis run(1) list.simps(9) map_append)
  have d: "distinct (active_actions st)" "set (active_actions st) = rt_in_flight st"
    using inv by (simp_all add: rt_inv_def)
  then have d': "distinct (active_actions st')" unfolding act by auto
  have "set (active_actions st') = set (active_actions st) - {ji_action ?j}"
    using d(1) unfolding act by auto
  then have d2: "set (active_actions st') = rt_in_flight st'" unfolding d(2) st'(1) .
  have len: "length (rt_running st') \<le> queue_concurrency"
  proof -
    have "length (rt_running st) = Suc (length (rt_running st'))" unfolding run(2) by (subst run(1)) simp
    then show ?thesis using inv by (simp add: rt_inv_def)
  qed
  show ?thesis
    unfolding rt_inv_def using d' d2 len inv by (auto simp: rt_inv_def st'(1,4,6))
qed

lemma rt_inv_handle:
  assumes inv: "rt_inv st" and h: "handle_settled st = Some st'"
  shows "rt_inv st'"
proof -
  from h obtain j outcome rest where s: "rt_settled st = (j, outcome) # rest"
    by (auto simp: handle_settled_def split: list.splits)
  have same: "rt_settled st' = rest" "rt_waiting st' = rt_waiting st" "rt_running st' = rt_running st"
    "rt_occupied st' = rt_occupied st" "rt_vacuum_active st' = rt_vacuum_active st"
    "rt_in_flight st' = (if outcome = Rejected then rt_in_flight st - {ji_action j} else rt_in_flight st)"
    using h s by (auto simp: handle_settled_def Let_def split: job_end.splits if_splits)
  have "outcome = Rejected \<longrightarrow> ji_action j \<notin> rt_in_flight st" using inv s by (auto simp: rt_inv_def)
  then have fl: "rt_in_flight st' = rt_in_flight st" using same(6) by auto
  have act: "active_actions st' = active_actions st" by (simp add: active_actions_def same)
  have rej: "\<forall>j. (j, Rejected) \<in> set (rt_settled st') \<longrightarrow> ji_action j \<notin> rt_in_flight st'"
    using rt_invD(5) [OF inv] s unfolding fl same(1) by simp
  show ?thesis
    using rt_invD(1-4,6) [OF inv] rej by (intro rt_invI) (simp_all only: act fl same(3,5))
qed

lemma phones_not_blocking: "Phones_sync \<notin> set cdr_blocks_vacuum"
  by (simp add: cdr_blocks_vacuum_def)

lemma rt_inv_occupy:
  assumes inv: "rt_inv st" and calm: "no_rejection_pending st" and o: "occupy_phones_sync st = Some st'"
  shows "rt_inv st'"
proof -
  from o have n: "Phones_sync \<notin> rt_in_flight st"
    and st': "st' = st\<lparr>rt_in_flight := insert Phones_sync (rt_in_flight st), rt_occupied := True\<rparr>"
    by (auto simp: occupy_phones_sync_def is_in_flight_def split: if_splits)
  then have "\<not> rt_occupied st" using rt_invD(2) [OF inv] by (auto simp: active_actions_def)
  then have act: "active_actions st' = active_actions st @ [Phones_sync]" by (simp add: st' active_actions_def)
  have rej: "\<forall>j. (j, Rejected) \<in> set (rt_settled st') \<longrightarrow> ji_action j \<notin> rt_in_flight st'"
    using calm_no_rejection [OF calm] by (simp add: st')
  show ?thesis
    using rt_invD [OF inv] n phones_not_blocking rej by (intro rt_invI) (simp_all add: act, simp_all add: st')
qed

lemma rt_inv_vacate:
  assumes inv: "rt_inv st" and v: "vacate_phones_sync st = Some st'"
  shows "rt_inv st'"
proof -
  from v have occ: "rt_occupied st"
    and st': "st' = st\<lparr>rt_in_flight := rt_in_flight st - {Phones_sync}, rt_occupied := False\<rparr>"
    by (auto simp: vacate_phones_sync_def split: if_splits)
  then have act: "active_actions st = active_actions st' @ [Phones_sync]" by (simp add: active_actions_def)
  have d: "distinct (active_actions st')" "set (active_actions st') = rt_in_flight st'"
    using rt_invD(1,2) [OF inv] unfolding act by (auto simp: st')
  have vac: "Db_vacuum \<in> rt_in_flight st' \<longrightarrow> rt_in_flight st' \<inter> set cdr_blocks_vacuum = {}"
    using rt_invD(3) [OF inv] by (auto simp: st')
  show ?thesis
    by (rule rt_invI [OF d vac]) (use rt_invD(4-6) [OF inv] in \<open>auto simp: st'\<close>)
qed

lemma rt_inv_step:
  assumes inv: "rt_inv st" and step: "rt_step st e st'"
    and calm: "\<not> rt_in_flight st' \<subseteq> rt_in_flight st \<Longrightarrow> no_rejection_pending st"
  shows "rt_inv st'"
  using step
proof (rule rt_stepE)
  assume ex: "rt_exec e st = Some st'"
  show "rt_inv st'"
  proof (cases e)
    case (Ev_enqueue exporting input)
    then have st': "st' = fst (enqueue exporting input st)" using ex by simp
    show ?thesis
    proof (cases "snd (enqueue exporting input st)")
      case None
      then have e: "enqueue exporting input st = (st', None)" by (simp add: st' prod_eq_iff)
      then have "\<not> rt_in_flight st' \<subseteq> rt_in_flight st"
        using enqueue_accepted [OF e] refusal_None by blast
      then show ?thesis by (rule rt_inv_enqueue [OF inv calm e])
    next
      case (Some r)
      then have "st' = st" unfolding st' by (intro enqueue_refused) (simp add: prod_eq_iff)
      then show ?thesis using inv by simp
    qed
  next
    case Ev_occupy
    then have o: "occupy_phones_sync st = Some st'" using ex by simp
    then have "\<not> rt_in_flight st' \<subseteq> rt_in_flight st"
      by (auto simp: occupy_phones_sync_def is_in_flight_def split: if_splits)
    then show ?thesis by (rule rt_inv_occupy [OF inv calm o])
  qed (use ex inv in \<open>auto intro: rt_inv_start rt_inv_finish rt_inv_handle rt_inv_vacate\<close>)
qed

lemma calm_reachable_inv: "calm_reachable st \<Longrightarrow> rt_inv st"
  by (induction rule: calm_reachable.induct) (auto intro: rt_inv_initial rt_inv_step)


section \<open>The second flag drop of a rejection\<close>

definition plain_input :: "action \<Rightarrow> job_input" where
  "plain_input a = \<lparr>ji_action = a, ji_trigger = Schedule, ji_actor = None, ji_month = None,
     ji_history_only = False, ji_resume_calls = False, ji_deleted_calls = None\<rparr>"

text \<open>
  An import rejects, the next import is queued before the handler of the rejection, and the
  handler lowers the flag of the new one: the vacuum is accepted and runs beside it.
\<close>

definition overlap_events :: "rt_event list" where
  "overlap_events =
     [Ev_enqueue False (plain_input Cdr_import), Ev_start, Ev_finish 0 Rejected,
      Ev_enqueue False (plain_input Cdr_import), Ev_handle,
      Ev_enqueue False (plain_input Db_vacuum), Ev_start, Ev_start]"

lemma overlap_run:
  "map_option (\<lambda>st. map ji_action (rt_running st)) (rt_run overlap_events rt_initial)
     = Some [Cdr_import, Db_vacuum]"
  by (simp add: overlap_events_def plain_input_def rt_initial_def enqueue_def enqueue_refusal_def
      supported_job_actions_def cdr_blocks_vacuum_def is_in_flight_def start_job_def finish_job_def
      handle_settled_def queue_concurrency_def remove_nth_def Let_def)

end
