(* ===== verification/Job_Scheduler.thy ===== *)
theory Job_Scheduler
  imports Job_Runtime
begin

text \<open>
  The in-process scheduler (\<open>src/src/modules/jobs/scheduler.ts\<close>, \<open>export-cadence.ts\<close>). Each of
  its loops owns one timer; a timer is the time it is due. A tick runs as one step over what
  it reads (the settings, the inbox counts, the flags of the runtime) and gives the requests
  it makes. A failed settings read or inbox scan is \<open>None\<close>.
\<close>

section \<open>export-cadence.ts\<close>

definition min_schedule_interval_sec :: int where "min_schedule_interval_sec = 30"
definition export_defer_sec :: int where "export_defer_sec = 20"
definition first_phones_delay_sec :: int where "first_phones_delay_sec = 45"
definition first_groups_delay_sec :: int where "first_groups_delay_sec = 90"
definition regs_poll_interval_sec :: int where "regs_poll_interval_sec = 30"
definition phones_sync_interval_sec :: int where "phones_sync_interval_sec = 60"
definition groups_sync_interval_sec :: int where "groups_sync_interval_sec = 120"
definition regs_reschedule_delay_sec :: int where "regs_reschedule_delay_sec = 30"
definition phones_reschedule_delay_sec :: int where "phones_reschedule_delay_sec = 45"
definition groups_reschedule_delay_sec :: int where "groups_reschedule_delay_sec = 75"
definition default_sides_refresh_interval_sec :: int where "default_sides_refresh_interval_sec = 300"
definition first_sides_refresh_delay_sec :: int where "first_sides_refresh_delay_sec = 15"
definition smg_file_settle_ms :: int where "smg_file_settle_ms = 2000"
definition parking_interval_ms :: int where "parking_interval_ms = 60000"

text \<open>The stored interval is an integer column, so it is always finite.\<close>

definition clamp_schedule_interval :: "int option \<Rightarrow> int \<Rightarrow> int" where
  "clamp_schedule_interval raw fallback =
     max min_schedule_interval_sec (case raw of Some n \<Rightarrow> n | None \<Rightarrow> fallback)"

datatype catalog_kind = Phones_catalog | Groups_catalog

definition catalog_period_sec :: "catalog_kind \<Rightarrow> int" where
  "catalog_period_sec kind =
     (if kind = Groups_catalog then groups_sync_interval_sec else phones_sync_interval_sec)"

definition catalog_action :: "catalog_kind \<Rightarrow> action" where
  "catalog_action kind = (case kind of Phones_catalog \<Rightarrow> Phones_sync | Groups_catalog \<Rightarrow> Groups_sync)"

section \<open>Decisions\<close>

definition scheduled_regs_action :: "bool \<Rightarrow> action option" where
  "scheduled_regs_action in_flight = (if in_flight then None else Some Regs_poll)"

definition scheduled_catalog_tick ::
  "catalog_kind \<Rightarrow> bool \<Rightarrow> bool \<Rightarrow> bool \<Rightarrow> bool \<Rightarrow> catalog_kind option \<times> int" where
  "scheduled_catalog_tick kind enabled phones_in_flight groups_in_flight regs_in_flight =
     (let period = catalog_period_sec kind in
      if \<not> enabled then (None, period)
      else if phones_in_flight \<or> groups_in_flight \<or> regs_in_flight then (None, export_defer_sec)
      else (Some kind, period))"

definition catalog_delay_after_enqueue :: "int \<Rightarrow> bool \<Rightarrow> int" where
  "catalog_delay_after_enqueue delay_sec accepted = (if accepted then delay_sec else export_defer_sec)"

datatype smg_drain_action = Stamp_empty | Drain_enqueue | Arm_timer | Keep_timer

definition decide_smg_inbox_drain :: "nat \<Rightarrow> nat \<Rightarrow> bool \<Rightarrow> smg_drain_action" where
  "decide_smg_inbox_drain ready young settle_timer_pending =
     (if should_stamp_empty_scan ready young then Stamp_empty
      else if ready > 0 then Drain_enqueue
      else if settle_timer_pending then Keep_timer
      else Arm_timer)"

definition scheduled_sides_refresh_action :: "bool \<Rightarrow> bool \<Rightarrow> bool \<Rightarrow> bool \<Rightarrow> action option" where
  "scheduled_sides_refresh_action enabled refresh_in_flight phones_in_flight cdr_import_in_flight =
     (if \<not> enabled then None
      else if refresh_in_flight \<or> phones_in_flight \<or> cdr_import_in_flight then None
      else Some Cdr_sides_refresh)"

definition sides_refresh_delay_sec :: "bool \<Rightarrow> bool \<Rightarrow> int \<Rightarrow> int" where
  "sides_refresh_delay_sec has_snapshot used_initial_delay interval_sec =
     (if \<not> has_snapshot \<and> \<not> used_initial_delay then first_sides_refresh_delay_sec
      else max 30 interval_sec)"

section \<open>State\<close>

record scheduler_state =
  sc_started :: bool
  sc_timer :: "int option"
  sc_export_timer :: "int option"
  sc_groups_timer :: "int option"
  sc_sides_timer :: "int option"
  sc_parking_timer :: "int option"
  sc_smg_settle_timer :: "int option"
  sc_sides_used_initial :: bool
  sc_last_rtu_empty :: "int option"
  sc_last_smg_empty :: "int option"
  sc_rtu_episode :: "load_episode option"
  sc_smg_episode :: "load_episode option"

definition scheduler_initial :: scheduler_state where
  "scheduler_initial =
     \<lparr>sc_started = False, sc_timer = None, sc_export_timer = None, sc_groups_timer = None,
      sc_sides_timer = None, sc_parking_timer = None, sc_smg_settle_timer = None,
      sc_sides_used_initial = False, sc_last_rtu_empty = None, sc_last_smg_empty = None,
      sc_rtu_episode = None, sc_smg_episode = None\<rparr>"

record schedule_row =
  sr_regs_enabled :: bool
  sr_export_enabled :: bool
  sr_sides_enabled :: bool
  sr_sides_interval :: "int option"
  sr_has_snapshot :: bool

record schedule_settings =
  ss_regs_enabled :: bool
  ss_export_enabled :: bool
  ss_sides_enabled :: bool
  ss_sides_interval :: int
  ss_has_snapshot :: bool

text \<open>The outer option is the failed read, the inner one the missing row.\<close>

definition read_schedule_settings :: "schedule_row option option \<Rightarrow> schedule_settings option" where
  "read_schedule_settings row =
     (case row of
        None \<Rightarrow> None
      | Some None \<Rightarrow>
          Some \<lparr>ss_regs_enabled = False, ss_export_enabled = False, ss_sides_enabled = True,
                ss_sides_interval = default_sides_refresh_interval_sec, ss_has_snapshot = False\<rparr>
      | Some (Some r) \<Rightarrow>
          Some \<lparr>ss_regs_enabled = sr_regs_enabled r, ss_export_enabled = sr_export_enabled r,
                ss_sides_enabled = sr_sides_enabled r,
                ss_sides_interval =
                  clamp_schedule_interval (sr_sides_interval r) default_sides_refresh_interval_sec,
                ss_has_snapshot = sr_has_snapshot r\<rparr>)"

text \<open>What a tick reads. The counts are (ready, young); \<open>None\<close> is a failed scan.\<close>

record sched_env =
  env_now :: int
  env_settings :: "schedule_row option option"
  env_settings_after :: "schedule_row option option"
  env_inbox :: "(nat \<times> nat) option"
  env_smg_inbox :: "(nat \<times> nat) option"
  env_in_flight :: "action set"
  env_vacuum :: bool
  env_vm_allowed :: bool
  env_accepted :: bool

datatype sched_request =
    Request_cdr_drain
  | Request_smg_drain
  | Request_smg_traces
  | Request_voipmonitor
  | Request_job action

section \<open>Load episodes\<close>

definition load_streak_break_at :: "load_episode option \<Rightarrow> int option" where
  "load_streak_break_at episode =
     (case episode of
        None \<Rightarrow> None
      | Some e \<Rightarrow> if ep_had_calls e \<or> \<not> ep_broke_red e then None else Some (ep_anchor e))"

datatype load_side = Side_rtu | Side_smg

definition note_load_file_pass :: "load_side \<Rightarrow> load_pass \<Rightarrow> scheduler_state \<Rightarrow> scheduler_state" where
  "note_load_file_pass side pass st =
     (case side of
        Side_rtu \<Rightarrow> st\<lparr>sc_rtu_episode :=
          Some (next_load_episode (sc_rtu_episode st) (sc_last_rtu_empty st) pass)\<rparr>
      | Side_smg \<Rightarrow> st\<lparr>sc_smg_episode :=
          Some (next_load_episode (sc_smg_episode st) (sc_last_smg_empty st) pass)\<rparr>)"

section \<open>Drains\<close>

definition drain_pending_inbox :: "sched_env \<Rightarrow> scheduler_state \<Rightarrow> scheduler_state \<times> sched_request list" where
  "drain_pending_inbox env st =
     (case env_inbox env of
        None \<Rightarrow> (st, [])
      | Some (ready, young) \<Rightarrow>
          (if should_stamp_empty_scan ready young
           then (st\<lparr>sc_last_rtu_empty := Some (env_now env)\<rparr>, [])
           else (st, [Request_cdr_drain])))"

definition drain_pending_smg_inbox ::
  "sched_env \<Rightarrow> scheduler_state \<Rightarrow> scheduler_state \<times> sched_request list" where
  "drain_pending_smg_inbox env st =
     (if env_vacuum env then (st, [])
      else case env_smg_inbox env of
             None \<Rightarrow> (st, [])
           | Some (ready, young) \<Rightarrow>
               (case decide_smg_inbox_drain ready young (sc_smg_settle_timer st \<noteq> None) of
                  Stamp_empty \<Rightarrow>
                    (st\<lparr>sc_smg_settle_timer := None, sc_last_smg_empty := Some (env_now env)\<rparr>, [])
                | Drain_enqueue \<Rightarrow> (st\<lparr>sc_smg_settle_timer := None\<rparr>, [Request_smg_drain])
                | Arm_timer \<Rightarrow>
                    (st\<lparr>sc_smg_settle_timer := Some (env_now env + smg_file_settle_ms)\<rparr>, [])
                | Keep_timer \<Rightarrow> (st, [])))"

definition drain_voipmonitor_match :: "sched_env \<Rightarrow> sched_request list" where
  "drain_voipmonitor_match env =
     (if env_vacuum env then [] else if env_vm_allowed env then [Request_voipmonitor] else [])"

section \<open>Arming\<close>

definition schedule_next :: "int \<Rightarrow> int \<Rightarrow> scheduler_state \<Rightarrow> scheduler_state" where
  "schedule_next now sec st = (if sc_started st then st\<lparr>sc_timer := Some (now + sec * 1000)\<rparr> else st)"

definition schedule_next_export :: "int \<Rightarrow> int \<Rightarrow> scheduler_state \<Rightarrow> scheduler_state" where
  "schedule_next_export now sec st =
     (if sc_started st then st\<lparr>sc_export_timer := Some (now + sec * 1000)\<rparr> else st)"

definition schedule_next_groups :: "int \<Rightarrow> int \<Rightarrow> scheduler_state \<Rightarrow> scheduler_state" where
  "schedule_next_groups now sec st =
     (if sc_started st then st\<lparr>sc_groups_timer := Some (now + sec * 1000)\<rparr> else st)"

definition schedule_next_sides :: "int \<Rightarrow> int \<Rightarrow> scheduler_state \<Rightarrow> scheduler_state" where
  "schedule_next_sides now sec st =
     (if sc_started st then st\<lparr>sc_sides_timer := Some (now + sec * 1000)\<rparr> else st)"

definition schedule_next_parking :: "int \<Rightarrow> int \<Rightarrow> scheduler_state \<Rightarrow> scheduler_state" where
  "schedule_next_parking now delay_ms st =
     (if sc_started st then st\<lparr>sc_parking_timer := Some (now + delay_ms)\<rparr> else st)"

section \<open>Ticks\<close>

text \<open>A tick returns at once when there is no runtime, which is when the scheduler is stopped.\<close>

definition tick :: "sched_env \<Rightarrow> scheduler_state \<Rightarrow> scheduler_state \<times> sched_request list" where
  "tick env st =
     (if \<not> sc_started st then (st, [])
      else
        (let (st1, r1) = drain_pending_inbox env st;
             (st2, r2) = drain_pending_smg_inbox env st1;
             r3 = Request_smg_traces # drain_voipmonitor_match env;
             r4 = (case read_schedule_settings (env_settings env) of
                     None \<Rightarrow> []
                   | Some s \<Rightarrow>
                       (if \<not> ss_regs_enabled s then []
                        else case scheduled_regs_action (Regs_poll \<in> env_in_flight env) of
                               None \<Rightarrow> [] | Some a \<Rightarrow> [Request_job a]))
         in (schedule_next (env_now env) regs_poll_interval_sec st2, r1 @ r2 @ r3 @ r4)))"

definition tick_catalog :: "catalog_kind \<Rightarrow> sched_env \<Rightarrow> int \<times> sched_request list" where
  "tick_catalog kind env =
     (case read_schedule_settings (env_settings env) of
        None \<Rightarrow> (catalog_period_sec kind, [])
      | Some s \<Rightarrow>
          (let d = scheduled_catalog_tick kind (ss_export_enabled s) (Phones_sync \<in> env_in_flight env)
                     (Groups_sync \<in> env_in_flight env) (Regs_poll \<in> env_in_flight env)
           in if \<not> ss_export_enabled s then (snd d, [])
              else case fst d of
                     None \<Rightarrow> (snd d, [])
                   | Some k \<Rightarrow> (catalog_delay_after_enqueue (snd d) (env_accepted env),
                                [Request_job (catalog_action k)])))"

definition tick_export :: "sched_env \<Rightarrow> scheduler_state \<Rightarrow> scheduler_state \<times> sched_request list" where
  "tick_export env st =
     (if \<not> sc_started st then (st, [])
      else (let (delay, rs) = tick_catalog Phones_catalog env
            in (schedule_next_export (env_now env) delay st, rs)))"

definition tick_groups :: "sched_env \<Rightarrow> scheduler_state \<Rightarrow> scheduler_state \<times> sched_request list" where
  "tick_groups env st =
     (if \<not> sc_started st then (st, [])
      else (let (delay, rs) = tick_catalog Groups_catalog env
            in (schedule_next_groups (env_now env) delay st, rs)))"

definition tick_sides :: "sched_env \<Rightarrow> scheduler_state \<Rightarrow> scheduler_state \<times> sched_request list" where
  "tick_sides env st =
     (if \<not> sc_started st then (st, [])
      else
        (let settings = read_schedule_settings (env_settings env);
             interval = (case settings of
                 None \<Rightarrow> default_sides_refresh_interval_sec
               | Some s \<Rightarrow> sides_refresh_delay_sec (ss_has_snapshot s) (sc_sides_used_initial st)
                             (ss_sides_interval s));
             st1 = (case settings of
                 None \<Rightarrow> st
               | Some s \<Rightarrow> (if \<not> ss_has_snapshot s \<and> \<not> sc_sides_used_initial st
                           then st\<lparr>sc_sides_used_initial := True\<rparr> else st));
             rs = (case settings of
                 None \<Rightarrow> []
               | Some s \<Rightarrow>
                   (if \<not> ss_sides_enabled s then []
                    else case scheduled_sides_refresh_action True
                           (Cdr_sides_refresh \<in> env_in_flight env) (Phones_sync \<in> env_in_flight env)
                           (Cdr_import \<in> env_in_flight env) of
                           None \<Rightarrow> [] | Some a \<Rightarrow> [Request_job a]));
             delay = (case read_schedule_settings (env_settings_after env) of
                 None \<Rightarrow> interval
               | Some l \<Rightarrow> sides_refresh_delay_sec (ss_has_snapshot l) (sc_sides_used_initial st1)
                             (ss_sides_interval l))
         in (schedule_next_sides (env_now env) delay st1, rs)))"

text \<open>The parking loop reads \<open>calls.log\<close> and arms itself again, whatever the read did.\<close>

definition tick_parking :: "sched_env \<Rightarrow> scheduler_state \<Rightarrow> scheduler_state" where
  "tick_parking env st = schedule_next_parking (env_now env) parking_interval_ms st"

definition tick_smg_settle :: "sched_env \<Rightarrow> scheduler_state \<Rightarrow> scheduler_state \<times> sched_request list" where
  "tick_smg_settle env st = drain_pending_smg_inbox env (st\<lparr>sc_smg_settle_timer := None\<rparr>)"

section \<open>Start, reschedule, stop\<close>

definition start_scheduler_loop :: "sched_env \<Rightarrow> scheduler_state \<Rightarrow> scheduler_state" where
  "start_scheduler_loop env st =
     (if sc_started st then st
      else
        (let now = env_now env;
             sides_delay = (case read_schedule_settings (env_settings env) of
                 Some s \<Rightarrow> sides_refresh_delay_sec (ss_has_snapshot s) False (ss_sides_interval s)
               | None \<Rightarrow> first_sides_refresh_delay_sec)
         in schedule_next_parking now 8000
              (schedule_next_sides now sides_delay
                (schedule_next_groups now first_groups_delay_sec
                  (schedule_next_export now first_phones_delay_sec
                    (st\<lparr>sc_started := True, sc_timer := Some (now + 5000)\<rparr>))))))"

definition reschedule_after_settings_change :: "sched_env \<Rightarrow> scheduler_state \<Rightarrow> scheduler_state" where
  "reschedule_after_settings_change env st =
     (if \<not> sc_started st then st
      else
        (let now = env_now env;
             sides_delay = (case read_schedule_settings (env_settings env) of
                 Some s \<Rightarrow> sides_refresh_delay_sec (ss_has_snapshot s) (sc_sides_used_initial st)
                            (ss_sides_interval s)
               | None \<Rightarrow> default_sides_refresh_interval_sec)
         in schedule_next_sides now sides_delay
              (schedule_next_groups now groups_reschedule_delay_sec
                (schedule_next_export now phones_reschedule_delay_sec
                  (schedule_next now regs_reschedule_delay_sec st)))))"

definition stop_auto_scheduler :: "scheduler_state \<Rightarrow> scheduler_state" where
  "stop_auto_scheduler st =
     st\<lparr>sc_started := False, sc_sides_used_initial := False, sc_last_rtu_empty := None,
        sc_last_smg_empty := None, sc_rtu_episode := None, sc_smg_episode := None,
        sc_timer := None, sc_export_timer := None, sc_groups_timer := None,
        sc_sides_timer := None, sc_parking_timer := None, sc_smg_settle_timer := None\<rparr>"

section \<open>No loop is lost\<close>

datatype sched_event =
    Sv_start sched_env | Sv_tick sched_env | Sv_export sched_env | Sv_groups sched_env
  | Sv_sides sched_env | Sv_parking sched_env | Sv_settle sched_env
  | Sv_pass load_side load_pass | Sv_reschedule sched_env | Sv_stop

text \<open>A timer's event comes only while the timer is set and due.\<close>

definition due :: "sched_env \<Rightarrow> int option \<Rightarrow> bool" where
  "due env t = (case t of None \<Rightarrow> False | Some at \<Rightarrow> at \<le> env_now env)"

inductive sched_step :: "scheduler_state \<Rightarrow> sched_event \<Rightarrow> scheduler_state \<Rightarrow> sched_request list \<Rightarrow> bool" where
  start: "sched_step st (Sv_start env) (start_scheduler_loop env st) []"
| tick: "due env (sc_timer st) \<Longrightarrow> tick env st = (st', rs) \<Longrightarrow> sched_step st (Sv_tick env) st' rs"
| export: "due env (sc_export_timer st) \<Longrightarrow> tick_export env st = (st', rs) \<Longrightarrow>
    sched_step st (Sv_export env) st' rs"
| groups: "due env (sc_groups_timer st) \<Longrightarrow> tick_groups env st = (st', rs) \<Longrightarrow>
    sched_step st (Sv_groups env) st' rs"
| sides: "due env (sc_sides_timer st) \<Longrightarrow> tick_sides env st = (st', rs) \<Longrightarrow>
    sched_step st (Sv_sides env) st' rs"
| parking: "due env (sc_parking_timer st) \<Longrightarrow> sched_step st (Sv_parking env) (tick_parking env st) []"
| settle: "due env (sc_smg_settle_timer st) \<Longrightarrow> tick_smg_settle env st = (st', rs) \<Longrightarrow>
    sched_step st (Sv_settle env) st' rs"
| pass: "sched_step st (Sv_pass side p) (note_load_file_pass side p st) []"
| reschedule: "sched_step st (Sv_reschedule env) (reschedule_after_settings_change env st) []"
| stop: "sched_step st Sv_stop (stop_auto_scheduler st) []"

inductive_cases sched_tickE: "sched_step st (Sv_tick env) st' rs"
inductive_cases sched_exportE: "sched_step st (Sv_export env) st' rs"
inductive_cases sched_groupsE: "sched_step st (Sv_groups env) st' rs"

inductive sched_reachable :: "scheduler_state \<Rightarrow> bool" where
  init: "sched_reachable scheduler_initial"
| step: "sched_reachable st \<Longrightarrow> sched_step st e st' rs \<Longrightarrow> sched_reachable st'"

definition all_armed :: "scheduler_state \<Rightarrow> bool" where
  "all_armed st \<longleftrightarrow> (\<forall>t \<in> {sc_timer st, sc_export_timer st, sc_groups_timer st, sc_sides_timer st,
     sc_parking_timer st}. (t \<noteq> None) = sc_started st)"

lemmas schedule_defs = schedule_next_def schedule_next_export_def schedule_next_groups_def
  schedule_next_sides_def schedule_next_parking_def

lemma drain_inbox_timers:
  "drain_pending_inbox env st = (st', rs) \<Longrightarrow> sc_started st' = sc_started st \<and> sc_timer st' = sc_timer st
   \<and> sc_export_timer st' = sc_export_timer st \<and> sc_groups_timer st' = sc_groups_timer st
   \<and> sc_sides_timer st' = sc_sides_timer st \<and> sc_parking_timer st' = sc_parking_timer st"
  by (auto simp: drain_pending_inbox_def split: option.splits prod.splits if_splits)

lemma drain_smg_timers:
  "drain_pending_smg_inbox env st = (st', rs) \<Longrightarrow> sc_started st' = sc_started st \<and> sc_timer st' = sc_timer st
   \<and> sc_export_timer st' = sc_export_timer st \<and> sc_groups_timer st' = sc_groups_timer st
   \<and> sc_sides_timer st' = sc_sides_timer st \<and> sc_parking_timer st' = sc_parking_timer st"
  by (auto simp: drain_pending_smg_inbox_def split: option.splits prod.splits if_splits smg_drain_action.splits)

lemma all_armed_tick: "all_armed st \<Longrightarrow> tick env st = (st', rs) \<Longrightarrow> all_armed st'"
  by (auto simp: tick_def all_armed_def schedule_next_def split: prod.splits if_splits
           dest!: drain_inbox_timers drain_smg_timers)

lemma all_armed_export: "all_armed st \<Longrightarrow> tick_export env st = (st', rs) \<Longrightarrow> all_armed st'"
  by (auto simp: tick_export_def all_armed_def schedule_next_export_def split: prod.splits if_splits)

lemma all_armed_groups: "all_armed st \<Longrightarrow> tick_groups env st = (st', rs) \<Longrightarrow> all_armed st'"
  by (auto simp: tick_groups_def all_armed_def schedule_next_groups_def split: prod.splits if_splits)

lemma tick_sides_frame:
  "tick_sides env st = (st', rs) \<Longrightarrow> sc_started st' = sc_started st \<and> sc_timer st' = sc_timer st
   \<and> sc_export_timer st' = sc_export_timer st \<and> sc_groups_timer st' = sc_groups_timer st
   \<and> sc_parking_timer st' = sc_parking_timer st \<and> (sc_started st \<longrightarrow> sc_sides_timer st' \<noteq> None)
   \<and> (\<not> sc_started st \<longrightarrow> st' = st)"
  unfolding tick_sides_def Let_def schedule_next_sides_def
  by (cases "sc_started st"; cases "read_schedule_settings (env_settings env)") auto

lemma all_armed_sides: "all_armed st \<Longrightarrow> tick_sides env st = (st', rs) \<Longrightarrow> all_armed st'"
  using tick_sides_frame [of env st st' rs] by (auto simp: all_armed_def)

lemma all_armed_start: "all_armed st \<Longrightarrow> all_armed (start_scheduler_loop env st)"
  by (simp add: start_scheduler_loop_def Let_def schedule_defs all_armed_def)

lemma all_armed_reschedule: "all_armed st \<Longrightarrow> all_armed (reschedule_after_settings_change env st)"
  by (simp add: reschedule_after_settings_change_def Let_def schedule_defs all_armed_def)

lemma all_armed_settle: "all_armed st \<Longrightarrow> tick_smg_settle env st = (st', rs) \<Longrightarrow> all_armed st'"
  by (auto simp: tick_smg_settle_def all_armed_def dest!: drain_smg_timers)

lemma all_armed_step: "sched_step st e st' rs \<Longrightarrow> all_armed st \<Longrightarrow> all_armed st'"
proof (induction rule: sched_step.induct)
  case (pass st side p)
  then show ?case by (cases side) (simp_all add: note_load_file_pass_def all_armed_def)
next
  case (parking env st)
  then show ?case by (simp add: tick_parking_def schedule_next_parking_def all_armed_def)
next
  case (stop st)
  then show ?case by (simp add: stop_auto_scheduler_def all_armed_def)
qed (auto intro: all_armed_start all_armed_tick all_armed_export all_armed_groups all_armed_sides
      all_armed_settle all_armed_reschedule)

lemma reachable_all_armed: "sched_reachable st \<Longrightarrow> all_armed st"
proof (induction rule: sched_reachable.induct)
  case init
  then show ?case by (simp add: all_armed_def scheduler_initial_def)
qed (rule all_armed_step)

section \<open>What the ticks ask for\<close>

lemma catalog_request:
  "Request_job a \<in> set (snd (tick_catalog kind env)) \<Longrightarrow>
   a = catalog_action kind \<and> Phones_sync \<notin> env_in_flight env \<and> Groups_sync \<notin> env_in_flight env
   \<and> Regs_poll \<notin> env_in_flight env"
  by (auto simp: tick_catalog_def scheduled_catalog_tick_def Let_def split: option.splits if_splits)

lemma catalog_delay:
  "fst (tick_catalog kind env) = export_defer_sec \<or> fst (tick_catalog kind env) = catalog_period_sec kind"
  by (auto simp: tick_catalog_def scheduled_catalog_tick_def Let_def catalog_delay_after_enqueue_def
           split: option.splits)

end
