(* ===== verification/Purge_Resume.thy ===== *)
theory Purge_Resume
  imports Job_Runtime
begin

text \<open>
  What a restart finds of a purge (\<open>traffic/purge/resume.ts\<close>) and what the page shows of a running
  one (\<open>traffic/purge/progress.ts\<close>). A row of \<open>job_runs\<close> carries the number of deleted calls and
  its metadata as a JSON value. What is left of a month in the database is an argument, the
  function \<open>remainder\<close>; the rows come in table order, where the database breaks ties.
\<close>

section \<open>Rows and metadata\<close>

record purge_run = job_run +
  pr_phones :: "int option"
  pr_meta :: jval

record month_remainder =
  mr_calls :: int
  mr_smg :: int
  mr_jobs :: int
  mr_audit :: int

definition purge_fk_index_names :: "string list" where
  "purge_fk_index_names =
     [''job_runs_startedAt_idx'', ''cdr_records_lastJobRunId_idx'', ''reg_change_events_jobRunId_idx'',
      ''phone_endpoints_lastJobRunId_idx'', ''phone_gateways_lastJobRunId_idx'',
      ''routing_groups_lastJobRunId_idx'', ''reg_current_lastJobRunId_idx'',
      ''ssh_connection_tests_jobRunId_idx'', ''smg_cdr_records_last_job_run_id_idx'']"

definition resume_phases :: "string list" where
  "resume_phases =
     [''journal'', ''cards'', ''delays'', ''smg'', ''syslog'', ''jobs'', ''audit'']"

definition object_meta :: "jval \<Rightarrow> jobj option" where
  "object_meta meta = (case meta of JObj ps \<Rightarrow> Some ps | _ \<Rightarrow> None)"

text \<open>\<open>objectMeta(meta)?.key\<close>; \<open>None\<close> is \<open>undefined\<close>.\<close>

definition meta_field :: "jval \<Rightarrow> string \<Rightarrow> jval option" where
  "meta_field meta k = (case object_meta meta of None \<Rightarrow> None | Some ps \<Rightarrow> map_of ps k)"

fun finite_count :: "jval option \<Rightarrow> int" where
  "finite_count (Some (JNum n)) = (if n > 0 then n else 0)"
| "finite_count (Some (JFrac m k)) = (if m > 0 then m div 10 ^ k else 0)"
| "finite_count (Some (JStr s)) =
     (if trim s = [] then 0
      else case js_number s of
             None \<Rightarrow> 0
           | Some (m, e) \<Rightarrow>
               if m \<le> 0 then 0 else if e \<ge> 0 then m * 10 ^ nat e else m div 10 ^ nat (- e))"
| "finite_count _ = 0"

definition month_from_job :: "'a purge_run_scheme \<Rightarrow> string option" where
  "month_from_job job =
     (case meta_field (pr_meta job) ''month'' of
        Some (JStr s) \<Rightarrow> map_option cm_key (parse_month_key (Some s))
      | _ \<Rightarrow> None)"

definition deleted_calls_from_purge_job :: "'a purge_run_scheme \<Rightarrow> int" where
  "deleted_calls_from_purge_job job =
     (let from_column = finite_count (map_option JNum (pr_phones job))
      in if from_column > 0 then from_column
         else finite_count (meta_field (pr_meta job) ''deletedCount''))"

definition deleted_smg_from_purge_job :: "'a purge_run_scheme \<Rightarrow> int" where
  "deleted_smg_from_purge_job job = finite_count (meta_field (pr_meta job) ''deletedSmg'')"

definition purge_has_resume_trace :: "'a purge_run_scheme \<Rightarrow> bool" where
  "purge_has_resume_trace job =
     (deleted_calls_from_purge_job job > 0
      \<or> deleted_smg_from_purge_job job > 0
      \<or> (case meta_field (pr_meta job) ''phase'' of
            Some (JStr p) \<Rightarrow> p \<in> set resume_phases
          | _ \<Rightarrow> False))"

definition missing_purge_fk_index_names :: "string list \<Rightarrow> string list" where
  "missing_purge_fk_index_names present = filter (\<lambda>name. name \<notin> set present) purge_fk_index_names"

section \<open>The history of an interrupted purge\<close>

record resume_month =
  rm_month :: string
  rm_deleted_calls :: int

definition resume_step ::
  "string \<Rightarrow> (string \<Rightarrow> month_remainder option) \<Rightarrow> resume_month option \<Rightarrow> 'a purge_run_scheme
   \<Rightarrow> resume_month option" where
  "resume_step current_month remainders best job =
     (if run_error job \<noteq> Some orphan_reclaim_message then best
      else case month_from_job job of
             None \<Rightarrow> best
           | Some month \<Rightarrow>
               if month = current_month then best
               else if \<not> purge_has_resume_trace job then best
               else case remainders month of
                      None \<Rightarrow> best
                    | Some left \<Rightarrow>
                        if mr_calls left \<noteq> 0 then best
                        else if mr_jobs left + mr_audit left \<le> 0 then best
                        else (let deleted = deleted_calls_from_purge_job job;
                                  cand = \<lparr>rm_month = month, rm_deleted_calls = deleted\<rparr>
                              in case best of
                                   None \<Rightarrow> Some cand
                                 | Some b \<Rightarrow>
                                     if compare_month_key month (rm_month b) < 0
                                        \<or> (month = rm_month b \<and> deleted > rm_deleted_calls b)
                                     then Some cand else best))"

definition select_resume_month ::
  "string \<Rightarrow> (string \<Rightarrow> month_remainder option) \<Rightarrow> 'a purge_run_scheme list \<Rightarrow> resume_month option" where
  "select_resume_month current_month remainders jobs =
     foldl (resume_step current_month remainders) None jobs"

definition resume_scan_limit :: nat where
  "resume_scan_limit = 20"

text \<open>The failed purges a restart ended, the last started first.\<close>

definition interrupted_purges :: "'a purge_run_scheme list \<Rightarrow> 'a purge_run_scheme list" where
  "interrupted_purges runs =
     take resume_scan_limit
       (js_sort (\<lambda>a b. run_started b - run_started a)
          (filter (\<lambda>r. run_action r = Cdr_purge_month \<and> run_status r = Job_failed
                       \<and> run_error r = Some orphan_reclaim_message) runs))"

text \<open>The months whose remainder is read: one reading per month.\<close>

definition read_remainders ::
  "(string \<Rightarrow> month_remainder) \<Rightarrow> string \<Rightarrow> ('a purge_run_scheme \<Rightarrow> bool) \<Rightarrow> 'a purge_run_scheme list
   \<Rightarrow> string \<Rightarrow> month_remainder option" where
  "read_remainders remainder current_month wanted jobs =
     foldl (\<lambda>seen job.
              if \<not> wanted job then seen
              else case month_from_job job of
                     None \<Rightarrow> seen
                   | Some month \<Rightarrow>
                       if month = current_month \<or> seen month \<noteq> None then seen
                       else if \<not> purge_has_resume_trace job then seen
                       else seen(month \<mapsto> remainder month)) Map.empty jobs"

definition history_input :: "resume_month \<Rightarrow> job_input" where
  "history_input rm =
     \<lparr>ji_action = Cdr_purge_month, ji_trigger = Schedule, ji_actor = None, ji_month = Some (rm_month rm),
      ji_history_only = True, ji_resume_calls = False, ji_deleted_calls = Some (rm_deleted_calls rm)\<rparr>"

text \<open>The input it enqueues, when a month qualifies.\<close>

definition enqueue_abandoned_purge_history ::
  "(string \<Rightarrow> month_remainder) \<Rightarrow> string \<Rightarrow> 'a purge_run_scheme list \<Rightarrow> job_input option" where
  "enqueue_abandoned_purge_history remainder current_month runs =
     (let jobs = interrupted_purges runs;
          remainders = read_remainders remainder current_month (\<lambda>_. True) jobs
      in map_option history_input (select_resume_month current_month remainders jobs))"

section \<open>The calls of an interrupted purge\<close>

definition continues_delete :: "jval \<Rightarrow> bool" where
  "continues_delete meta = (meta_field meta ''continueDelete'' = Some (JBool True))"

definition meta_or_empty :: "jval \<Rightarrow> jobj" where
  "meta_or_empty meta = (case object_meta meta of None \<Rightarrow> [] | Some ps \<Rightarrow> ps)"

definition with_continue_delete :: "jval \<Rightarrow> jval" where
  "with_continue_delete meta = JObj (obj_set (meta_or_empty meta) ''continueDelete'' (JBool True))"

definition without_continue_delete :: "jval \<Rightarrow> jval" where
  "without_continue_delete meta = JObj (AList.delete ''continueDelete'' (meta_or_empty meta))"

record continuation_job = purge_run +
  cj_just_reclaimed :: bool

record call_continuation =
  cc_month :: string
  cc_job :: string
  cc_reclaimed :: bool

definition better_continuation :: "call_continuation \<Rightarrow> call_continuation \<Rightarrow> bool" where
  "better_continuation cand b =
     ((cc_reclaimed cand \<and> \<not> cc_reclaimed b)
      \<or> (cc_reclaimed cand = cc_reclaimed b
         \<and> (compare_month_key (cc_month cand) (cc_month b) < 0
            \<or> (cc_month cand = cc_month b \<and> cc_job cand < cc_job b))))"

definition continuation_step ::
  "string \<Rightarrow> (string \<Rightarrow> month_remainder option) \<Rightarrow> call_continuation option \<Rightarrow> continuation_job
   \<Rightarrow> call_continuation option" where
  "continuation_step current_month remainders best job =
     (if \<not> cj_just_reclaimed job \<and> \<not> continues_delete (pr_meta job) then best
      else case month_from_job job of
             None \<Rightarrow> best
           | Some month \<Rightarrow>
               if month = current_month then best
               else if \<not> purge_has_resume_trace job then best
               else case remainders month of
                      None \<Rightarrow> best
                    | Some left \<Rightarrow>
                        if mr_calls left \<le> 0 then best
                        else (let cand = \<lparr>cc_month = month, cc_job = run_id job,
                                          cc_reclaimed = cj_just_reclaimed job\<rparr>
                              in case best of
                                   None \<Rightarrow> Some cand
                                 | Some b \<Rightarrow> if better_continuation cand b then Some cand else best))"

definition select_call_continuation ::
  "string \<Rightarrow> (string \<Rightarrow> month_remainder option) \<Rightarrow> continuation_job list \<Rightarrow> call_continuation option" where
  "select_call_continuation current_month remainders jobs =
     foldl (continuation_step current_month remainders) None jobs"

definition continuation_of :: "bool \<Rightarrow> purge_run \<Rightarrow> continuation_job" where
  "continuation_of reclaimed r =
     \<lparr>run_id = run_id r, run_action = run_action r, run_status = run_status r,
      run_started = run_started r, run_finished = run_finished r, run_error = run_error r,
      pr_phones = pr_phones r, pr_meta = pr_meta r, cj_just_reclaimed = reclaimed\<rparr>"

definition flagged_purges :: "purge_run list \<Rightarrow> purge_run list" where
  "flagged_purges runs =
     filter (\<lambda>r. run_action r = Cdr_purge_month \<and> continues_delete (pr_meta r)) runs"

definition set_meta :: "string \<Rightarrow> jval \<Rightarrow> purge_run list \<Rightarrow> purge_run list" where
  "set_meta rid meta runs = map (\<lambda>r. if run_id r = rid then r\<lparr>pr_meta := meta\<rparr> else r) runs"

text \<open>The map by id: a row reclaimed just now replaces the flagged one in its place.\<close>

definition continuation_jobs :: "purge_run list \<Rightarrow> purge_run list \<Rightarrow> continuation_job list" where
  "continuation_jobs just_reclaimed runs =
     map snd
       (foldl (\<lambda>m r. AList.update (run_id r) (continuation_of True r) m)
          (foldl (\<lambda>m r. AList.update (run_id r) (continuation_of False r) m) [] (flagged_purges runs))
          just_reclaimed)"

text \<open>A flag whose month has no calls left is cleared, in the list and in the table.\<close>

definition stale_flag :: "(string \<Rightarrow> month_remainder option) \<Rightarrow> continuation_job \<Rightarrow> bool" where
  "stale_flag remainders job =
     (continues_delete (pr_meta job)
      \<and> (case month_from_job job of
            None \<Rightarrow> False
          | Some month \<Rightarrow> (case remainders month of None \<Rightarrow> False | Some left \<Rightarrow> mr_calls left = 0)))"

definition clear_stale_flags ::
  "(string \<Rightarrow> month_remainder option) \<Rightarrow> continuation_job list \<Rightarrow> purge_run list
   \<Rightarrow> continuation_job list \<times> purge_run list" where
  "clear_stale_flags remainders jobs runs =
     (map (\<lambda>j. if stale_flag remainders j then j\<lparr>pr_meta := without_continue_delete (pr_meta j)\<rparr> else j) jobs,
      foldl (\<lambda>rs j. if stale_flag remainders j
                    then set_meta (run_id j) (without_continue_delete (pr_meta j)) rs else rs) runs jobs)"

definition prepare_call_continuation ::
  "(string \<Rightarrow> month_remainder) \<Rightarrow> string \<Rightarrow> purge_run list \<Rightarrow> purge_run list
   \<Rightarrow> string option \<times> purge_run list" where
  "prepare_call_continuation remainder current_month just_reclaimed runs =
     (let jobs = continuation_jobs just_reclaimed runs;
          remainders = read_remainders remainder current_month
                         (\<lambda>j. cj_just_reclaimed j \<or> continues_delete (pr_meta j)) jobs
      in case clear_stale_flags remainders jobs runs of
           (jobs1, runs1) \<Rightarrow>
             (case select_call_continuation current_month remainders jobs1 of
                None \<Rightarrow> (None, runs1)
              | Some sel \<Rightarrow>
                  (case find (\<lambda>j. run_id j = cc_job sel) jobs1 of
                     None \<Rightarrow> (None, runs1)
                   | Some source \<Rightarrow>
                       (Some (cc_month sel),
                        set_meta (run_id source) (with_continue_delete (pr_meta source)) runs1))))"

definition clear_purge_continuation_flags :: "string \<Rightarrow> purge_run list \<Rightarrow> nat \<times> purge_run list" where
  "clear_purge_continuation_flags month runs =
     foldl (\<lambda>(cleared, rs) row.
              if month_from_job row \<noteq> Some month \<or> \<not> continues_delete (pr_meta row) then (cleared, rs)
              else (Suc cleared, set_meta (run_id row) (without_continue_delete (pr_meta row)) rs))
       (0, runs) (flagged_purges runs)"

definition calls_input :: "string \<Rightarrow> job_input" where
  "calls_input month =
     \<lparr>ji_action = Cdr_purge_month, ji_trigger = Schedule, ji_actor = None, ji_month = Some month,
      ji_history_only = False, ji_resume_calls = True, ji_deleted_calls = None\<rparr>"

end
