(* ===== verification/Purge_Progress.thy ===== *)
theory Purge_Progress
  imports Purge_Resume
begin

text \<open>
  The stages of a running purge (\<open>traffic/purge/progress.ts\<close>): the counts it publishes in the
  metadata of its job row, and the views the storage page reads back from them. The labels and
  the lines of text are left to the page.
\<close>

section \<open>Stages\<close>

datatype stage = Stage_calls | Stage_journal | Stage_cards | Stage_delays | Stage_smg
  | Stage_syslog | Stage_jobs | Stage_audit

definition purge_stage_order :: "stage list" where
  "purge_stage_order =
     [Stage_calls, Stage_journal, Stage_cards, Stage_delays, Stage_smg, Stage_syslog, Stage_jobs,
      Stage_audit]"

fun stage_id :: "stage \<Rightarrow> string" where
  "stage_id Stage_calls = ''calls''"
| "stage_id Stage_journal = ''journal''"
| "stage_id Stage_cards = ''cards''"
| "stage_id Stage_delays = ''delays''"
| "stage_id Stage_smg = ''smg''"
| "stage_id Stage_syslog = ''syslog''"
| "stage_id Stage_jobs = ''jobs''"
| "stage_id Stage_audit = ''audit''"

record stage_counts =
  sc_done :: int
  sc_total :: int

text \<open>The record of the counts, as an update of one stage at a time needs it.\<close>

type_synonym purge_stages = "stage \<Rightarrow> stage_counts"

definition no_counts :: stage_counts where
  "no_counts = \<lparr>sc_done = 0, sc_total = 0\<rparr>"

definition set_done :: "stage \<Rightarrow> int \<Rightarrow> purge_stages \<Rightarrow> purge_stages" where
  "set_done s n stages = stages(s := (stages s)\<lparr>sc_done := n\<rparr>)"

definition counts_json :: "stage_counts \<Rightarrow> jval" where
  "counts_json c = JObj [(''done'', JNum (sc_done c)), (''total'', JNum (sc_total c))]"

definition stages_json :: "purge_stages \<Rightarrow> jval" where
  "stages_json stages = JObj (map (\<lambda>s. (stage_id s, counts_json (stages s))) purge_stage_order)"

section \<open>Reading the metadata\<close>

fun stage_count :: "jval option \<Rightarrow> int option" where
  "stage_count (Some (JNum n)) = (if n \<ge> 0 then Some n else None)"
| "stage_count (Some (JFrac m k)) = (if m \<ge> 0 then Some (m div 10 ^ k) else None)"
| "stage_count _ = None"

definition read_phase :: "jval option \<Rightarrow> stage option" where
  "read_phase v = find (\<lambda>s. v = Some (JStr (stage_id s))) purge_stage_order"

definition read_counts :: "jobj \<Rightarrow> stage \<Rightarrow> stage_counts option" where
  "read_counts obj s =
     (let raw = (case map_of obj (stage_id s) of None \<Rightarrow> JNull | Some v \<Rightarrow> v)
      in case (stage_count (meta_field raw ''done''), stage_count (meta_field raw ''total'')) of
           (Some d, Some t) \<Rightarrow> Some \<lparr>sc_done = d, sc_total = t\<rparr>
         | _ \<Rightarrow> None)"

text \<open>All eight counts, or none.\<close>

definition read_stages :: "jval option \<Rightarrow> purge_stages option" where
  "read_stages v =
     (case Option.bind v object_meta of
        None \<Rightarrow> None
      | Some obj \<Rightarrow>
          if list_ex (\<lambda>s. read_counts obj s = None) purge_stage_order then None
          else Some (\<lambda>s. the (read_counts obj s)))"

datatype stage_state = Done_stage | Active_stage | Pending_stage

record stage_view =
  sv_stage :: stage
  sv_done :: int
  sv_total :: int
  sv_state :: stage_state

fun index_in :: "'a list \<Rightarrow> 'a \<Rightarrow> nat" where
  "index_in [] x = 0"
| "index_in (y # ys) x = (if y = x then 0 else Suc (index_in ys x))"

definition purge_stage_views :: "purge_stages \<Rightarrow> stage \<Rightarrow> stage_view list" where
  "purge_stage_views stages phase =
     map (\<lambda>s. let c = stages s;
                  delays_with_cards = (s = Stage_delays \<and> phase = Stage_cards \<and> sc_total c > 0);
                  i = index_in purge_stage_order s; at = index_in purge_stage_order phase
              in \<lparr>sv_stage = s, sv_done = sc_done c, sv_total = sc_total c,
                  sv_state = (if sc_total c = 0 \<or> i < at then Done_stage
                              else if i = at \<or> delays_with_cards then Active_stage
                              else Pending_stage)\<rparr>)
       purge_stage_order"

datatype purge_progress =
    Stage_progress string "stage_view list"
  | Legacy_progress string int int

definition or_else :: "int option \<Rightarrow> int \<Rightarrow> int" where
  "or_else v d = (case v of None \<Rightarrow> d | Some n \<Rightarrow> n)"

definition purge_progress_from_job :: "int option \<Rightarrow> jval \<Rightarrow> purge_progress option" where
  "purge_progress_from_job phones meta =
     (case (case meta_field meta ''month'' of
              Some (JStr s) \<Rightarrow> map_option cm_key (parse_month_key (Some s)) | _ \<Rightarrow> None) of
        None \<Rightarrow> None
      | Some month \<Rightarrow>
          (case (read_stages (meta_field meta ''stages''), read_phase (meta_field meta ''phase'')) of
             (Some stages, Some phase) \<Rightarrow> Some (Stage_progress month (purge_stage_views stages phase))
           | _ \<Rightarrow>
               Some (Legacy_progress month
                 (or_else (stage_count (map_option JNum phones))
                    (or_else (stage_count (meta_field meta ''deletedCount'')) 0))
                 (or_else (stage_count (meta_field meta ''targetCount'')) 0))))"

section \<open>Publishing (\<open>publishPurgeProgress\<close> of \<open>processor.ts\<close>)\<close>

definition progress_meta :: "string \<Rightarrow> stage \<Rightarrow> purge_stages \<Rightarrow> jval" where
  "progress_meta month phase stages =
     JObj [(''month'', JStr month), (''phase'', JStr (stage_id phase)),
           (''targetCount'', JNum (sc_total (stages Stage_calls))),
           (''deletedCount'', JNum (sc_done (stages Stage_calls))),
           (''deletedSmg'', JNum (sc_done (stages Stage_smg))),
           (''stages'', stages_json stages)]"

text \<open>The mark of the transaction that deletes a batch of calls.\<close>

definition batch_meta :: "string \<Rightarrow> purge_stages \<Rightarrow> jval" where
  "batch_meta month stages =
     with_continue_delete (progress_meta month Stage_calls stages)"

end
