(* ===== verification/Actions.thy ===== *)
theory Actions
  imports Js_Text16
begin

text \<open>
  Actions on a state: each returns, throws, or ends with the process. Then a logic for them:
  \<open>triple P f Q E\<close> says that from a state in \<open>P\<close> the action \<open>f\<close> ends, never by running out of turns;
  when it returns the state is in \<open>Q\<close>, when it throws or dies the state is in \<open>E\<close>.
\<close>

record db_error =
  de_code :: "string option"
  de_meta_code :: "string option"
  de_message :: text16

datatype fault = Fine | Faulty db_error | Dies

text \<open>\<open>Stuck\<close> would be a loop that used up its bound on turns; it is proved not to happen.\<close>

datatype 'a outcome = Done 'a | Thrown db_error | Killed | Stuck

type_synonym ('s, 'a) effect = "'s \<Rightarrow> 'a outcome \<times> 's"

definition pass :: "'a \<Rightarrow> ('s, 'a) effect" where
  "pass x w = (Done x, w)"

definition and_then :: "('s, 'a) effect \<Rightarrow> ('a \<Rightarrow> ('s, 'b) effect) \<Rightarrow> ('s, 'b) effect" where
  "and_then m k w =
     (case m w of
        (Done x, w1) \<Rightarrow> k x w1
      | (Thrown e, w1) \<Rightarrow> (Thrown e, w1)
      | (Killed, w1) \<Rightarrow> (Killed, w1)
      | (Stuck, w1) \<Rightarrow> (Stuck, w1))"

definition plain_error :: "text16 \<Rightarrow> db_error" where
  "plain_error msg = \<lparr>de_code = None, de_meta_code = None, de_message = msg\<rparr>"

definition throw :: "text16 \<Rightarrow> ('s, 'a) effect" where
  "throw msg w = (Thrown (plain_error msg), w)"

definition look :: "('s \<Rightarrow> 'a) \<Rightarrow> ('s, 'a) effect" where
  "look f w = (Done (f w), w)"

definition change :: "('s \<Rightarrow> 's) \<Rightarrow> ('s, unit) effect" where
  "change f w = (Done (), f w)"

text \<open>
  A loop whose body returns the next count, or nothing to leave. The number bounds the turns.
\<close>

fun turns :: "nat \<Rightarrow> (int \<Rightarrow> ('s, int option) effect) \<Rightarrow> int \<Rightarrow> ('s, int) effect" where
  "turns 0 body acc w = (Stuck, w)"
| "turns (Suc n) body acc w =
     (case body acc w of
        (Done None, w1) \<Rightarrow> (Done acc, w1)
      | (Done (Some acc1), w1) \<Rightarrow> turns n body acc1 w1
      | (Thrown e, w1) \<Rightarrow> (Thrown e, w1)
      | (Killed, w1) \<Rightarrow> (Killed, w1)
      | (Stuck, w1) \<Rightarrow> (Stuck, w1))"

section \<open>Logic\<close>

definition triple ::
  "('s \<Rightarrow> bool) \<Rightarrow> ('s, 'a) effect \<Rightarrow> ('a \<Rightarrow> 's \<Rightarrow> bool) \<Rightarrow> ('s \<Rightarrow> bool) \<Rightarrow> bool" where
  "triple P f Q E \<longleftrightarrow>
     (\<forall>w. P w \<longrightarrow>
       (case f w of
          (Done x, w1) \<Rightarrow> Q x w1
        | (Thrown e, w1) \<Rightarrow> E w1
        | (Killed, w1) \<Rightarrow> E w1
        | (Stuck, w1) \<Rightarrow> False))"

lemma tripleI:
  assumes "\<And>w x w1. P w \<Longrightarrow> f w = (Done x, w1) \<Longrightarrow> Q x w1"
    and "\<And>w e w1. P w \<Longrightarrow> f w = (Thrown e, w1) \<Longrightarrow> E w1"
    and "\<And>w w1. P w \<Longrightarrow> f w = (Killed, w1) \<Longrightarrow> E w1"
    and "\<And>w w1. P w \<Longrightarrow> f w \<noteq> (Stuck, w1)"
  shows "triple P f Q E"
  using assms by (force simp: triple_def split: prod.splits outcome.splits)

lemma tripleD:
  assumes "triple P f Q E" and "P w"
  shows "f w = (Done x, w1) \<Longrightarrow> Q x w1"
    and "f w = (Thrown e, w1) \<Longrightarrow> E w1"
    and "f w = (Killed, w1) \<Longrightarrow> E w1"
    and "f w \<noteq> (Stuck, w1)"
  using assms by (auto simp: triple_def split: prod.splits)

lemma triple_weaken:
  assumes "triple P f Q E" and "\<And>w. P' w \<Longrightarrow> P w" and "\<And>x w. Q x w \<Longrightarrow> Q' x w" and "\<And>w. E w \<Longrightarrow> E' w"
  shows "triple P' f Q' E'"
  using assms by (fastforce simp: triple_def split: prod.splits outcome.splits)

lemma triple_pass: "(\<And>w. P w \<Longrightarrow> Q x w) \<Longrightarrow> triple P (pass x) Q E"
  by (simp add: triple_def pass_def)

lemma triple_throw: "(\<And>w. P w \<Longrightarrow> E w) \<Longrightarrow> triple P (throw msg) Q E"
  by (simp add: triple_def throw_def)

lemma triple_look: "(\<And>w. P w \<Longrightarrow> Q (f w) w) \<Longrightarrow> triple P (look f) Q E"
  by (simp add: triple_def look_def)

lemma triple_change: "(\<And>w. P w \<Longrightarrow> Q () (f w)) \<Longrightarrow> triple P (change f) Q E"
  by (simp add: triple_def change_def)

lemma triple_and_then:
  assumes "triple P f R E" and "\<And>x. triple (R x) (k x) Q E"
  shows "triple P (and_then f k) Q E"
  using assms
  by (fastforce simp: triple_def and_then_def split: prod.splits outcome.splits)

lemma triple_if:
  assumes "c \<Longrightarrow> triple P f Q E" and "\<not> c \<Longrightarrow> triple P g Q E"
  shows "triple P (if c then f else g) Q E"
  using assms by simp

text \<open>
  A loop ends within its bound when every turn that goes on takes something away. The invariant
  may speak of the count the loop carries.
\<close>

lemma triple_turns:
  assumes turn: "\<And>k n. triple (\<lambda>w. I k w \<and> size_of w \<le> (n::nat)) (body k)
                    (\<lambda>r w. case r of Some k1 \<Rightarrow> I k1 w \<and> size_of w < n | None \<Rightarrow> Q w) E"
  shows "I k w \<Longrightarrow> size_of w < n \<Longrightarrow>
    (case turns n body k w of (Done x, w1) \<Rightarrow> Q w1 | (Thrown e, w1) \<Rightarrow> E w1 | (Killed, w1) \<Rightarrow> E w1
       | (Stuck, w1) \<Rightarrow> False)"
proof (induction n arbitrary: k w)
  case (Suc n)
  have "I k w \<and> size_of w \<le> size_of w" using Suc.prems by simp
  note t = tripleD [OF turn this]
  obtain r w1 where b: "body k w = (r, w1)" by (cases "body k w")
  show ?case
  proof (cases r)
    case (Done o1)
    show ?thesis
    proof (cases o1)
      case None
      then have "Q w1" using t(1) [of None w1] b Done by simp
      then show ?thesis using b Done None by simp
    next
      case (Some k1)
      have "I k1 w1 \<and> size_of w1 < size_of w" using t(1) [of "Some k1" w1] b Done Some by simp
      then show ?thesis using Suc.IH [of k1 w1] Suc.prems(2) b Done Some by simp
    qed
  qed (use b t in auto)
qed simp

section \<open>Exceptions\<close>

text \<open>\<open>try\<close> with a \<open>catch\<close> that goes on.\<close>

definition try_catch :: "('s, 'a) effect \<Rightarrow> ('s, 'a option) effect" where
  "try_catch f w =
     (case f w of
        (Done x, w1) \<Rightarrow> (Done (Some x), w1)
      | (Thrown e, w1) \<Rightarrow> (Done None, w1)
      | (Killed, w1) \<Rightarrow> (Killed, w1)
      | (Stuck, w1) \<Rightarrow> (Stuck, w1))"

text \<open>A \<open>finally\<close>: it runs after a return and after a throw.\<close>

definition and_finally :: "('s, 'a) effect \<Rightarrow> ('s, 'b) effect \<Rightarrow> ('s, 'a) effect" where
  "and_finally body fin w =
     (case body w of
        (Killed, w1) \<Rightarrow> (Killed, w1)
      | (Stuck, w1) \<Rightarrow> (Stuck, w1)
      | (Done x, w1) \<Rightarrow> and_then fin (\<lambda>_. pass x) w1
      | (Thrown e, w1) \<Rightarrow> and_then fin (\<lambda>_ v. (Thrown e, v)) w1)"

section \<open>Results and invariants\<close>

lemma and_then_Done:
  assumes "and_then f k w = (Done y, w2)"
  obtains x w1 where "f w = (Done x, w1)" and "k x w1 = (Done y, w2)"
  using assms by (auto simp: and_then_def split: prod.splits outcome.splits)

lemma look_Done:
  assumes "and_then (look f) k w = (Done x, w2)"
  shows "k (f w) w = (Done x, w2)"
  using assms by (simp add: and_then_def look_def)

definition keeps :: "('s \<Rightarrow> bool) \<Rightarrow> ('s, 'a) effect \<Rightarrow> bool" where
  "keeps I f \<longleftrightarrow> (\<forall>s. I s \<longrightarrow> I (snd (f s)))"

named_theorems keeps_intros \<open>actions that keep an invariant\<close>

lemma keepsD: "keeps I f \<Longrightarrow> I s \<Longrightarrow> f s = (r, s1) \<Longrightarrow> I s1"
  unfolding keeps_def by (metis snd_conv)

lemma keeps_pass [keeps_intros]: "keeps I (pass x)"
  by (simp add: keeps_def pass_def)

lemma keeps_look [keeps_intros]: "keeps I (look f)"
  by (simp add: keeps_def look_def)

lemma keeps_and_then [keeps_intros]:
  assumes "keeps I f" and "\<And>x. keeps I (k x)"
  shows "keeps I (and_then f k)"
  unfolding keeps_def
proof (intro allI impI)
  fix s
  assume "I s"
  obtain r s1 where f: "f s = (r, s1)" by (cases "f s")
  have "I s1" by (rule keepsD [OF assms(1) \<open>I s\<close> f])
  then show "I (snd (and_then f k s))" using f assms(2) by (cases r) (auto simp: and_then_def keeps_def)
qed

lemma keeps_if [keeps_intros]: "(c \<Longrightarrow> keeps I f) \<Longrightarrow> (\<not> c \<Longrightarrow> keeps I g) \<Longrightarrow> keeps I (if c then f else g)"
  by simp

lemma keeps_prod [keeps_intros]: "(\<And>x y. keeps I (f x y)) \<Longrightarrow> keeps I (case p of (x, y) \<Rightarrow> f x y)"
  by (simp split: prod.split)

lemma keeps_option [keeps_intros]:
  "keeps I f \<Longrightarrow> (\<And>x. keeps I (g x)) \<Longrightarrow> keeps I (case o1 of None \<Rightarrow> f | Some x \<Rightarrow> g x)"
  by (simp split: option.split)

lemma keeps_try_catch [keeps_intros]:
  assumes "keeps I f"
  shows "keeps I (try_catch f)"
  unfolding keeps_def
proof (intro allI impI)
  fix s
  assume "I s"
  obtain r s1 where f: "f s = (r, s1)" by (cases "f s")
  have "I s1" by (rule keepsD [OF assms \<open>I s\<close> f])
  then show "I (snd (try_catch f s))" using f by (cases r) (simp_all add: try_catch_def)
qed

lemma keeps_finally [keeps_intros]:
  assumes "keeps I f" and "keeps I g"
  shows "keeps I (and_finally f g)"
  unfolding keeps_def
proof (intro allI impI)
  fix s
  assume "I s"
  obtain r s1 where f: "f s = (r, s1)" by (cases "f s")
  have s1: "I s1" by (rule keepsD [OF assms(1) \<open>I s\<close> f])
  have after: "I (snd (and_then g k s1))" if "\<And>x. keeps I (k x)" for k :: "'c \<Rightarrow> ('a, 'b) effect"
  proof -
    have "keeps I (and_then g k)" by (rule keeps_and_then [OF assms(2) that])
    then show ?thesis using s1 by (simp add: keeps_def)
  qed
  show "I (snd (and_finally f g s))"
  proof (cases r)
    case (Done x)
    then show ?thesis using f after [of "\<lambda>_. pass x"] by (simp add: and_finally_def keeps_pass)
  next
    case (Thrown e)
    have "I (snd (and_then g (\<lambda>_ v. (Thrown e :: 'b outcome, v)) s1))" by (rule after) (simp add: keeps_def)
    then show ?thesis using f Thrown by (simp add: and_finally_def)
  qed (use f s1 in \<open>simp_all add: and_finally_def\<close>)
qed

lemma keeps_and_then_val:
  assumes "keeps I f" and "\<And>s x s1. I s \<Longrightarrow> f s = (Done x, s1) \<Longrightarrow> keeps I (k x)"
  shows "keeps I (and_then f k)"
  unfolding keeps_def
proof (intro allI impI)
  fix s
  assume s: "I s"
  obtain r s1 where f: "f s = (r, s1)" by (cases "f s")
  have s1: "I s1" by (rule keepsD [OF assms(1) s f])
  show "I (snd (and_then f k s))"
  proof (cases r)
    case (Done x)
    then have "keeps I (k x)" using assms(2) s f by blast
    then show ?thesis using f s1 Done by (simp add: and_then_def keeps_def)
  qed (use f s1 in \<open>simp_all add: and_then_def\<close>)
qed

section \<open>Termination\<close>

definition ends :: "('s, 'a) effect \<Rightarrow> bool" where
  "ends f \<longleftrightarrow> (\<forall>s. fst (f s) \<noteq> Stuck)"

named_theorems ends_intros \<open>actions that end\<close>

lemma ends_pass [ends_intros]: "ends (pass x)" "ends (look g)" "ends (change h)" "ends (throw e)"
  by (simp_all add: ends_def pass_def look_def change_def throw_def)

lemma ends_and_then [ends_intros]:
  assumes "ends f" and "\<And>x. ends (k x)"
  shows "ends (and_then f k)"
proof -
  have "fst (and_then f k s) \<noteq> Stuck" for s
    using assms by (cases "f s"; cases "fst (f s)") (auto simp: and_then_def ends_def, metis fst_conv)
  then show ?thesis by (simp add: ends_def)
qed

lemma ends_try_catch [ends_intros]: "ends f \<Longrightarrow> ends (try_catch f)"
  by (auto simp: ends_def try_catch_def split: prod.split outcome.split) (metis fst_conv)

lemma ends_cases [ends_intros]:
  "(c \<Longrightarrow> ends f) \<Longrightarrow> (\<not> c \<Longrightarrow> ends g) \<Longrightarrow> ends (if c then f else g)"
  "(\<And>x y. ends (h x y)) \<Longrightarrow> ends (case p of (x, y) \<Rightarrow> h x y)"
  "ends f \<Longrightarrow> (\<And>x. ends (j x)) \<Longrightarrow> ends (case o1 of None \<Rightarrow> f | Some x \<Rightarrow> j x)"
  by (simp_all split: prod.split option.split)

lemma ends_finally [ends_intros]:
  assumes "ends f" and "ends g"
  shows "ends (and_finally f g)"
proof -
  have "fst (and_finally f g s) \<noteq> Stuck" for s
  proof (cases "f s")
    case (Pair r s1)
    have "r \<noteq> Stuck" using assms(1) Pair by (auto simp: ends_def) (metis fst_conv)
    have after: "fst (and_then g k s1) \<noteq> Stuck" if "\<And>x. ends (k x)" for k :: "'c \<Rightarrow> ('a, 'b) effect"
    proof -
      have "ends (and_then g k)" by (rule ends_and_then [OF assms(2) that])
      then show ?thesis by (simp add: ends_def)
    qed
    have "fst (and_then g (\<lambda>_ v. (Thrown e :: 'b outcome, v)) s1) \<noteq> Stuck" for e by (rule after) (simp add: ends_def)
    moreover have "fst (and_then g (\<lambda>_. pass x) s1) \<noteq> Stuck" for x :: 'b by (rule after) (rule ends_pass)
    ultimately show ?thesis using Pair \<open>r \<noteq> Stuck\<close> by (cases r) (simp_all add: and_finally_def)
  qed
  then show ?thesis by (simp add: ends_def)
qed

lemma ends_and_then_val:
  assumes "ends f" and "\<And>s x s1. f s = (Done x, s1) \<Longrightarrow> ends (k x)"
  shows "ends (and_then f k)"
proof -
  have "fst (and_then f k s) \<noteq> Stuck" for s
  proof (cases "f s")
    case (Pair r s1)
    have "r \<noteq> Stuck" using assms(1) Pair by (auto simp: ends_def) (metis fst_conv)
    moreover have "fst (k x s1) \<noteq> Stuck" if "r = Done x" for x
      using assms(2) [of s x s1] Pair that by (simp add: ends_def)
    ultimately show ?thesis using Pair by (cases r) (simp_all add: and_then_def)
  qed
  then show ?thesis by (simp add: ends_def)
qed

end
