(* ===== verification/Purge_World.thy ===== *)
theory Purge_World
  imports Purge_Progress Actions
begin

text \<open>
  The world a purge works in: the tables it deletes from, the journals of held files, the live
  target, the clock, the answers of the database and the variables of the running purge; and the
  actions on it, which return, throw or end with the process.

  Every statement or transaction of the database, and every removal of a syslog directory, takes
  the next of the listed faults: it is done, or it throws and changes nothing, or the process
  dies before it. When the list is empty every statement is done. A reading of the clock lets
  the next number of milliseconds pass. Statements that a \<open>Promise.all\<close> starts together are
  done one after the other.
\<close>

section \<open>Tables\<close>

record call_row =
  cl_id :: string
  cl_date :: string
  cl_day :: string

record journal_row =
  jl_id :: string
  jl_logged :: "int option"

record smg_row =
  sm_id :: string
  sm_day :: string
  sm_tag :: string
  sm_session :: string

record card_row =
  cd_tag :: string
  cd_delays :: bool

record audit_row =
  ad_action :: string
  ad_created :: int

text \<open>
  One month directory of one device: the slot files in it, whether it holds a file at all, and
  whether it is a symbolic link.
\<close>

record syslog_dir =
  sd_ip :: string
  sd_year :: int
  sd_month :: int
  sd_files :: int
  sd_present :: bool
  sd_link :: bool

text \<open>What the later stages removed.\<close>

record remainder_counts =
  rc_cards :: int
  rc_smg :: int
  rc_syslog :: int
  rc_jobs :: int
  rc_audit :: int

definition no_remainder :: remainder_counts where
  "no_remainder = \<lparr>rc_cards = 0, rc_smg = 0, rc_syslog = 0, rc_jobs = 0, rc_audit = 0\<rparr>"

record purge_world =
  pw_now :: int
  pw_ticks :: "nat list"
  pw_faults :: "fault list"
  pw_slot :: purge_slot
  pw_calls :: "call_row list"
  pw_journal :: "journal_row list"
  pw_smg :: "smg_row list"
  pw_cards :: "card_row list"
  pw_syslog :: "syslog_dir list"
  pw_runs :: "purge_run list"
  pw_audit :: "audit_row list"
  pw_indexes :: "string list"
  pw_poison :: poison_map
  pw_smg_poison :: poison_map
  pw_drains :: "action list"
  pw_vacuum :: bool
  pw_deleted :: int
  pw_target_count :: int
  pw_stages :: purge_stages
  pw_remainder :: remainder_counts

section \<open>Actions\<close>

type_synonym 'a act = "(purge_world, 'a) effect"

text \<open>A statement or a transaction.\<close>

definition db :: "'a act \<Rightarrow> 'a act" where
  "db f w =
     (case pw_faults w of
        [] \<Rightarrow> f w
      | Fine # fs \<Rightarrow> f (w\<lparr>pw_faults := fs\<rparr>)
      | Faulty e # fs \<Rightarrow> (Thrown e, w\<lparr>pw_faults := fs\<rparr>)
      | Dies # fs \<Rightarrow> (Killed, w\<lparr>pw_faults := fs\<rparr>))"

definition read_clock :: "int act" where
  "read_clock w =
     (case pw_ticks w of
        [] \<Rightarrow> (Done (pw_now w), w)
      | t # ts \<Rightarrow> (Done (pw_now w + int t), w\<lparr>pw_now := pw_now w + int t, pw_ticks := ts\<rparr>))"

section \<open>Statements\<close>

text \<open>\<open>DELETE ... WHERE id IN (SELECT id ... WHERE P LIMIT n)\<close>: the first rows in table order.\<close>

fun delete_some :: "nat \<Rightarrow> ('a \<Rightarrow> bool) \<Rightarrow> 'a list \<Rightarrow> nat \<times> 'a list" where
  "delete_some n P [] = (0, [])"
| "delete_some n P (r # rs) =
     (if P r \<and> n > 0 then (case delete_some (n - 1) P rs of (k, rs1) \<Rightarrow> (Suc k, rs1))
      else (case delete_some n P rs of (k, rs1) \<Rightarrow> (k, r # rs1)))"

definition cdr_purge_batch_size :: nat where
  "cdr_purge_batch_size = 2000"

text \<open>\<open>Date.UTC(year, month, 1)\<close> with the month counted from zero and carried into the year.\<close>

definition utc_month_start :: "int \<Rightarrow> int \<Rightarrow> int" where
  "utc_month_start year month =
     (let y = (if 0 \<le> year \<and> year \<le> 99 then 1900 + year else year)
      in days_of_civil (y + month div 12) (month mod 12 + 1) 1 * 86400000)"

definition utc_month_interval :: "int \<Rightarrow> int \<Rightarrow> int \<times> int" where
  "utc_month_interval year month = (utc_month_start year (month - 1), utc_month_start year month)"

text \<open>\<open>cdr_date LIKE 'YYYY-MM-%'\<close>.\<close>

definition call_in_month :: "cdr_month \<Rightarrow> call_row \<Rightarrow> bool" where
  "call_in_month m r = prefix (int_str (cm_year m) @ ''-'' @ pad2 (cm_month m) @ ''-'') (cl_date r)"

definition logged_in_month :: "cdr_month \<Rightarrow> journal_row \<Rightarrow> bool" where
  "logged_in_month m r =
     (case (jl_logged r, utc_month_interval (cm_year m) (cm_month m)) of
        (Some t, (start, end_)) \<Rightarrow> start \<le> t \<and> t < end_
      | (None, _) \<Rightarrow> False)"

definition smg_month_day_range :: "cdr_month \<Rightarrow> string \<times> string" where
  "smg_month_day_range m =
     (let next_year = (if cm_month m = 12 then cm_year m + 1 else cm_year m);
          next_month = (if cm_month m = 12 then 1 else cm_month m + 1)
      in (cm_key m @ ''-01'', month_key next_year next_month @ ''-01''))"

definition smg_in_month :: "cdr_month \<Rightarrow> smg_row \<Rightarrow> bool" where
  "smg_in_month m r =
     (case smg_month_day_range m of (gte, lt) \<Rightarrow> gte \<le> sm_day r \<and> sm_day r < lt)"

definition run_in_month :: "cdr_month \<Rightarrow> string \<Rightarrow> purge_run \<Rightarrow> bool" where
  "run_in_month m keep r =
     (case utc_month_interval (cm_year m) (cm_month m) of
        (start, end_) \<Rightarrow> start \<le> run_started r \<and> run_started r < end_ \<and> run_id r \<noteq> keep)"

definition audit_in_month :: "cdr_month \<Rightarrow> audit_row \<Rightarrow> bool" where
  "audit_in_month m r =
     (case utc_month_interval (cm_year m) (cm_month m) of
        (start, end_) \<Rightarrow> start \<le> ad_created r \<and> ad_created r < end_)"

definition count_rows :: "('a \<Rightarrow> bool) \<Rightarrow> 'a list \<Rightarrow> int" where
  "count_rows P rows = int (length (filter P rows))"

text \<open>The deletes of \<open>purge/sql.ts\<close>, each with the number of rows it removed.\<close>

definition purge_delete_batch :: "cdr_month \<Rightarrow> int act" where
  "purge_delete_batch m w =
     (case delete_some cdr_purge_batch_size (call_in_month m) (pw_calls w) of
        (k, rows) \<Rightarrow> (Done (int k), w\<lparr>pw_calls := rows\<rparr>))"

definition purge_journal_batch :: "cdr_month \<Rightarrow> int act" where
  "purge_journal_batch m w =
     (case delete_some cdr_purge_batch_size (logged_in_month m) (pw_journal w) of
        (k, rows) \<Rightarrow> (Done (int k), w\<lparr>pw_journal := rows\<rparr>))"

definition purge_smg_batch :: "cdr_month \<Rightarrow> int act" where
  "purge_smg_batch m w =
     (case delete_some cdr_purge_batch_size (smg_in_month m) (pw_smg w) of
        (k, rows) \<Rightarrow> (Done (int k), w\<lparr>pw_smg := rows\<rparr>))"

definition purge_jobs_batch :: "cdr_month \<Rightarrow> string \<Rightarrow> int act" where
  "purge_jobs_batch m keep w =
     (case delete_some cdr_purge_batch_size (run_in_month m keep) (pw_runs w) of
        (k, rows) \<Rightarrow> (Done (int k), w\<lparr>pw_runs := rows\<rparr>))"

definition purge_audit_batch :: "cdr_month \<Rightarrow> int act" where
  "purge_audit_batch m w =
     (case delete_some cdr_purge_batch_size (audit_in_month m) (pw_audit w) of
        (k, rows) \<Rightarrow> (Done (int k), w\<lparr>pw_audit := rows\<rparr>))"

text \<open>\<open>prisma.jobRun.update\<close>, which throws when the row is gone.\<close>

definition no_such_run :: text16 where
  "no_such_run = units ''No record was found for an update.''"

definition update_run :: "string \<Rightarrow> (purge_run \<Rightarrow> purge_run) \<Rightarrow> unit act" where
  "update_run rid f w =
     (if list_ex (\<lambda>r. run_id r = rid) (pw_runs w)
      then (Done (), w\<lparr>pw_runs := map (\<lambda>r. if run_id r = rid then f r else r) (pw_runs w)\<rparr>)
      else throw no_such_run w)"

text \<open>\<open>auditService.append\<close> keeps its own failure to itself.\<close>

definition audit_append :: "string \<Rightarrow> unit act" where
  "audit_append act_code w =
     (case and_then read_clock (\<lambda>now. db (change (\<lambda>v. v\<lparr>pw_audit :=
            pw_audit v @ [\<lparr>ad_action = act_code, ad_created = now\<rparr>]\<rparr>))) w of
        (Thrown e, w1) \<Rightarrow> (Done (), w1)
      | r \<Rightarrow> r)"

section \<open>Tags of calls (\<open>smg-trace/tag.ts\<close>)\<close>

definition lower_hex :: "char \<Rightarrow> bool" where
  "lower_hex c = (is_digit c \<or> (97 \<le> (of_char c :: nat) \<and> (of_char c :: nat) \<le> 102))"

definition normalize_tag :: "string \<Rightarrow> string" where
  "normalize_tag raw = to_lower (filter (\<lambda>c. \<not> js_ws c) raw)"

definition is_zero_session :: "string \<Rightarrow> bool" where
  "is_zero_session s =
     (length s = 32 \<and> list_all lower_hex (take 8 s) \<and> list_all (\<lambda>c. c = CHR ''0'') (drop 8 s))"

definition real_tag :: "string \<Rightarrow> string option" where
  "real_tag raw =
     (let norm = normalize_tag raw
      in if norm = [] \<or> is_zero_session norm then None
         else if \<not> (length norm \<ge> 16 \<and> list_all lower_hex norm) then None
         else Some norm)"

text \<open>A set of the source is the list of its elements in the order they were added.\<close>

definition set_add :: "'a list \<Rightarrow> 'a \<Rightarrow> 'a list" where
  "set_add xs x = (if x \<in> set xs then xs else xs @ [x])"

definition trace_search_keys :: "string \<Rightarrow> string \<Rightarrow> string list" where
  "trace_search_keys unique_tag session =
     foldl (\<lambda>keys raw. case real_tag raw of None \<Rightarrow> keys | Some tag \<Rightarrow> set_add keys tag) []
       [unique_tag, session]"

section \<open>Messages\<close>

definition month_format_text :: text16 where
  "month_format_text =
     [1059, 1082, 1072, 1078, 1080, 1090, 1077, 32, 1084, 1077, 1089, 1103, 1094, 32, 1074, 32,
     1092, 1086, 1088, 1084, 1072, 1090, 1077, 32, 89, 89, 89, 89, 45, 77, 77]"

definition no_full_month_text :: text16 where
  "no_full_month_text =
     [1053, 1077, 1090, 32, 1087, 1086, 1083, 1085, 1086, 1075, 1086, 32, 1084, 1077, 1089,
     1103, 1094, 1072, 32, 1076, 1083, 1103, 32, 1091, 1076, 1072, 1083, 1077, 1085, 1080, 1103]"

definition only_oldest_text :: text16 where
  "only_oldest_text =
     [1059, 1076, 1072, 1083, 1080, 1090, 1100, 32, 1084, 1086, 1078, 1085, 1086, 32, 1090,
     1086, 1083, 1100, 1082, 1086, 32, 1089, 1072, 1084, 1099, 1081, 32, 1089, 1090, 1072, 1088,
     1099, 1081, 32, 1087, 1086, 1083, 1085, 1099, 1081, 32, 1084, 1077, 1089, 1103, 1094, 32,
     40]"

definition current_month_text :: text16 where
  "current_month_text =
     [1058, 1077, 1082, 1091, 1097, 1080, 1081, 32, 1084, 1077, 1089, 1103, 1094, 32, 1091,
     1076, 1072, 1083, 1080, 1090, 1100, 32, 1085, 1077, 1083, 1100, 1079, 1103]"

definition calls_left_text :: text16 where
  "calls_left_text =
     [1042, 32, 1084, 1077, 1089, 1103, 1094, 1077, 32, 1077, 1097, 1105, 32, 1077, 1089, 1090,
     1100, 32, 1079, 1074, 1086, 1085, 1082, 1080, 32, 8212, 32, 1076, 1086, 1091, 1076, 1072,
     1083, 1077, 1085, 1080, 1077, 32, 1080, 1089, 1090, 1086, 1088, 1080, 1080, 32, 1086, 1089,
     1090, 1072, 1085, 1086, 1074, 1083, 1077, 1085, 1086]"

definition missing_index_text :: text16 where
  "missing_index_text =
     [1053, 1077, 1090, 32, 1080, 1085, 1076, 1077, 1082, 1089, 1086, 1074, 32, 1076, 1083,
     1103, 32, 1091, 1076, 1072, 1083, 1077, 1085, 1080, 1103, 32, 1079, 1072, 1076, 1072, 1095,
     58, 32]"

end
