(* ===== verification/Storage_Months.thy ===== *)
theory Storage_Months
  imports Purge_World
begin

text \<open>
  The months of the storage page (\<open>storage/months.ts\<close>) and the queries that count them
  (\<open>traffic/cdr-month-stats.ts\<close>, \<open>smg/month-stats.ts\<close>, \<open>antifraud/month-stats.ts\<close>,
  \<open>smg-syslog/month-inventory.ts\<close>): a month is deletable when it is the oldest one with a count
  that is not the current month. Seconds, minutes and bytes are shown only and left out; the
  caches of the queries are taken as fresh.
\<close>

section \<open>Grouped counts\<close>

definition group_counts :: "('a \<Rightarrow> string) \<Rightarrow> 'a list \<Rightarrow> (string \<times> int) list" where
  "group_counts key rows = map (\<lambda>k. (k, count_rows (\<lambda>r. key r = k) rows)) (uniq (map key rows))"

definition by_month_desc :: "(string \<times> int) list \<Rightarrow> (string \<times> int) list" where
  "by_month_desc gs = js_sort (\<lambda>a b. compare_month_key (fst b) (fst a)) gs"

definition rows_to_months :: "(string \<times> int) list \<Rightarrow> cdr_month list" where
  "rows_to_months rows =
     concat (map (\<lambda>(k, n). case parse_month_key (Some k) of
                              None \<Rightarrow> [] | Some m \<Rightarrow> [m\<lparr>cm_count := Some n\<rparr>]) rows)"

definition known_day :: "string \<Rightarrow> bool" where
  "known_day d = (''2000-01-01'' \<le> d \<and> d < ''2101-01-01'')"

definition query_month_call_counts :: "bool \<Rightarrow> call_row list \<Rightarrow> cdr_month list" where
  "query_month_call_counts vacuum calls =
     (if vacuum then []
      else rows_to_months (by_month_desc
             (group_counts (\<lambda>r. take 7 (cl_day r)) (filter (\<lambda>r. known_day (cl_day r)) calls))))"

definition query_smg_month_call_counts :: "bool \<Rightarrow> smg_row list \<Rightarrow> cdr_month list" where
  "query_smg_month_call_counts vacuum rows =
     (if vacuum then []
      else rows_to_months (by_month_desc
             (group_counts (\<lambda>r. take 7 (sm_day r)) (filter (\<lambda>r. known_day (sm_day r)) rows))))"

section \<open>Syslog months\<close>

record syslog_month =
  sy_year :: int
  sy_month :: int
  sy_key :: string
  sy_files :: int
  sy_present :: bool

definition inventory_dir :: "syslog_dir \<Rightarrow> bool" where
  "inventory_dir d =
     (\<not> sd_link d \<and> sd_present d \<and> 0 \<le> sd_year d \<and> sd_year d \<le> 9999
      \<and> 1 \<le> sd_month d \<and> sd_month d \<le> 12)"

definition inventory_add :: "(string \<times> syslog_month) list \<Rightarrow> syslog_dir \<Rightarrow> (string \<times> syslog_month) list" where
  "inventory_add by_key d =
     (let key = month_key (sd_year d) (sd_month d);
          row = (case map_of by_key key of
                   Some r \<Rightarrow> r
                 | None \<Rightarrow> \<lparr>sy_year = sd_year d, sy_month = sd_month d, sy_key = key, sy_files = 0,
                            sy_present = False\<rparr>)
      in AList.update key (row\<lparr>sy_files := sy_files row + sd_files d, sy_present := True\<rparr>) by_key)"

definition list_syslog_month_inventory :: "syslog_dir list \<Rightarrow> syslog_month list" where
  "list_syslog_month_inventory dirs = map snd (foldl inventory_add [] (filter inventory_dir dirs))"

section \<open>Antifraud months\<close>

record antifraud_month =
  am_year :: int
  am_month :: int
  am_key :: string
  am_journal :: int
  am_cards :: int
  am_delays :: int

definition journal_months :: "journal_row list \<Rightarrow> (string \<times> int) list" where
  "journal_months rows =
     group_counts (\<lambda>t. cm_key (current_utc_month t)) (concat (map (\<lambda>r. case jl_logged r of
        None \<Rightarrow> [] | Some t \<Rightarrow> [t]) rows))"

text \<open>The newest month of the SMG rows that carry the tag.\<close>

definition newest_month :: "smg_row list \<Rightarrow> string \<Rightarrow> string option" where
  "newest_month rows tag =
     (let days = map (\<lambda>r. take 7 (sm_day r))
                   (filter (\<lambda>r. length (sm_day r) \<ge> 7
                                 \<and> (real_tag (sm_tag r) = Some tag \<or> real_tag (sm_session r) = Some tag)) rows)
      in case days of [] \<Rightarrow> None | d # ds \<Rightarrow> Some (foldl max d ds))"

definition card_months :: "smg_row list \<Rightarrow> card_row list \<Rightarrow> (string \<times> int \<times> int) list" where
  "card_months smg cards =
     (let placed = concat (map (\<lambda>c. case newest_month smg (cd_tag c) of
                                       None \<Rightarrow> [] | Some k \<Rightarrow> [(k, c)]) cards)
      in map (\<lambda>k. (k, count_rows (\<lambda>p. fst p = k) placed,
                   count_rows (\<lambda>p. fst p = k \<and> cd_delays (snd p)) placed)) (uniq (map fst placed)))"

definition antifraud_ensure ::
  "string \<Rightarrow> (antifraud_month \<Rightarrow> antifraud_month) \<Rightarrow> (string \<times> antifraud_month) list
   \<Rightarrow> (string \<times> antifraud_month) list" where
  "antifraud_ensure key f by_key =
     (case parse_month_key (Some key) of
        None \<Rightarrow> by_key
      | Some m \<Rightarrow>
          (let item = (case map_of by_key (cm_key m) of
                         Some i \<Rightarrow> i
                       | None \<Rightarrow> \<lparr>am_year = cm_year m, am_month = cm_month m, am_key = cm_key m,
                                  am_journal = 0, am_cards = 0, am_delays = 0\<rparr>)
           in AList.update (cm_key m) (f item) by_key))"

definition query_antifraud_month_stats ::
  "journal_row list \<Rightarrow> smg_row list \<Rightarrow> card_row list \<Rightarrow> antifraud_month list" where
  "query_antifraud_month_stats journal smg cards =
     map snd
       (foldl (\<lambda>m (k, c, d). antifraud_ensure k (\<lambda>i. i\<lparr>am_cards := c, am_delays := d\<rparr>) m)
          (foldl (\<lambda>m (k, n). antifraud_ensure k (\<lambda>i. i\<lparr>am_journal := n\<rparr>) m) [] (journal_months journal))
          (card_months smg cards))"

section \<open>storage/months.ts\<close>

record storage_month =
  st_year :: int
  st_month :: int
  st_key :: string
  st_count :: int
  st_cdr :: int
  st_smg :: int
  st_files :: int
  st_syslog :: bool
  st_journal :: int
  st_cards :: int
  st_delays :: int

definition blank_month :: "int \<Rightarrow> int \<Rightarrow> string \<Rightarrow> storage_month" where
  "blank_month year month key =
     \<lparr>st_year = year, st_month = month, st_key = key, st_count = 0, st_cdr = 0, st_smg = 0,
      st_files = 0, st_syslog = False, st_journal = 0, st_cards = 0, st_delays = 0\<rparr>"

type_synonym months_map = "(string \<times> storage_month) list"

definition ensure_month ::
  "int \<Rightarrow> int \<Rightarrow> string \<Rightarrow> (storage_month \<Rightarrow> storage_month) \<Rightarrow> months_map \<Rightarrow> months_map" where
  "ensure_month year month key f by_key =
     AList.update key
       (f (case map_of by_key key of Some i \<Rightarrow> i | None \<Rightarrow> blank_month year month key)) by_key"

definition month_total :: "storage_month \<Rightarrow> int" where
  "month_total i =
     st_cdr i + st_smg i + (if st_syslog i then 1 else 0) + st_journal i + st_cards i"

definition merge_storage_months ::
  "cdr_month list \<Rightarrow> cdr_month list \<Rightarrow> syslog_month list \<Rightarrow> cdr_month \<Rightarrow> antifraud_month list
   \<Rightarrow> storage_month list" where
  "merge_storage_months cdr smg syslog current antifraud =
     (let m1 = foldl (\<lambda>m r. ensure_month (cm_year r) (cm_month r) (cm_key r)
                               (\<lambda>i. i\<lparr>st_cdr := count_of r\<rparr>) m) [] cdr;
          m2 = foldl (\<lambda>m r. ensure_month (cm_year r) (cm_month r) (cm_key r)
                               (\<lambda>i. i\<lparr>st_smg := count_of r\<rparr>) m) m1 smg;
          m3 = foldl (\<lambda>m r. if \<not> sy_present r then m
                             else ensure_month (sy_year r) (sy_month r) (sy_key r)
                                    (\<lambda>i. i\<lparr>st_files := sy_files r, st_syslog := True\<rparr>) m) m2 syslog;
          m4 = foldl (\<lambda>m r. if am_journal r \<le> 0 \<and> am_cards r \<le> 0 \<and> am_delays r \<le> 0 then m
                             else ensure_month (am_year r) (am_month r) (am_key r)
                                    (\<lambda>i. i\<lparr>st_journal := am_journal r, st_cards := am_cards r,
                                            st_delays := am_delays r\<rparr>) m) m3 antifraud;
          m5 = (if map_of m4 (cm_key current) = None
                then m4 @ [(cm_key current,
                            blank_month (cm_year current) (cm_month current) (cm_key current))]
                else m4)
      in js_sort (\<lambda>a b. compare_month_key (st_key b) (st_key a))
           (map (\<lambda>(k, i). i\<lparr>st_count := month_total i\<rparr>) m5))"

text \<open>\<open>deletableMonthKey\<close> looks at the key and the count only.\<close>

definition as_counted :: "storage_month \<Rightarrow> cdr_month" where
  "as_counted i = \<lparr>cm_year = st_year i, cm_month = st_month i, cm_key = st_key i, cm_count = Some (st_count i)\<rparr>"

definition deletable_storage_month_key :: "storage_month list \<Rightarrow> string \<Rightarrow> string option" where
  "deletable_storage_month_key months current_key = deletable_month_key (map as_counted months) current_key"

text \<open>\<open>resolveDeletableMonthKey\<close> of \<open>processor.ts\<close>; also the gate of the storage route.\<close>

definition resolve_deletable_month_key :: "string option act" where
  "resolve_deletable_month_key =
     and_then read_clock (\<lambda>now.
     and_then (db (look (\<lambda>w. query_month_call_counts (pw_vacuum w) (pw_calls w)))) (\<lambda>cdr.
     and_then (db (look (\<lambda>w. query_smg_month_call_counts (pw_vacuum w) (pw_smg w)))) (\<lambda>smg.
     and_then (db (look (\<lambda>w. list_syslog_month_inventory (pw_syslog w)))) (\<lambda>syslog.
     and_then (db (look (\<lambda>w. query_antifraud_month_stats (pw_journal w) (pw_smg w) (pw_cards w)))) (\<lambda>antifraud.
     let current = current_utc_month now
     in pass (deletable_storage_month_key
          (merge_storage_months cdr smg syslog current antifraud) (cm_key current)))))))"

end
