(* ===== verification/Purge_Run.thy ===== *)
theory Purge_Run
  imports Storage_Months
begin

text \<open>
  The purge of a month (\<open>traffic/purge/processor.ts\<close>, with \<open>smg-trace/purge-cards.ts\<close> and the
  month part of \<open>smg-syslog/purge.ts\<close>), and what the start of the server does about an
  interrupted one (\<open>instrumentation.ts\<close>). The variables of the processor that its handlers and
  callbacks share (the deleted calls, the target count, the stages) are part of the world. The
  removal of one syslog directory is one step. Logging and the caches of counts are left out.
\<close>

section \<open>Helpers of the processor\<close>

fun units_include :: "text16 \<Rightarrow> text16 \<Rightarrow> bool" where
  "units_include part [] = (part = [])"
| "units_include part (x # xs) = (prefix part (x # xs) \<or> units_include part xs)"

definition lower_unit :: "nat \<Rightarrow> nat" where
  "lower_unit n = (if 65 \<le> n \<and> n \<le> 90 then n + 32 else n)"

definition is_purge_lock_timeout :: "db_error \<Rightarrow> bool" where
  "is_purge_lock_timeout e =
     (de_code e = Some ''55P03'' \<or> de_meta_code e = Some ''55P03''
      \<or> units_include (units ''55P03'') (de_message e)
      \<or> units_include (units ''lock timeout'') (map lower_unit (de_message e)))"

definition note_batch :: "int \<Rightarrow> unit act" where
  "note_batch n = change (\<lambda>w. w\<lparr>pw_slot := note_purge_batch_committed n (pw_slot w)\<rparr>)"

definition put_stage :: "stage \<Rightarrow> stage_counts \<Rightarrow> unit act" where
  "put_stage s c = change (\<lambda>w. w\<lparr>pw_stages := (pw_stages w)(s := c)\<rparr>)"

definition put_done :: "stage \<Rightarrow> int \<Rightarrow> unit act" where
  "put_done s n = change (\<lambda>w. w\<lparr>pw_stages := set_done s n (pw_stages w)\<rparr>)"

definition set_progress :: "int \<Rightarrow> jval \<Rightarrow> purge_run \<Rightarrow> purge_run" where
  "set_progress phones meta r = r\<lparr>pr_phones := Some phones, pr_meta := meta\<rparr>"

definition publish_purge_progress :: "string \<Rightarrow> string \<Rightarrow> stage \<Rightarrow> unit act" where
  "publish_purge_progress rid month phase w =
     db (update_run rid (set_progress (sc_done (pw_stages w Stage_calls))
                           (progress_meta month phase (pw_stages w)))) w"

definition not_current :: "cdr_month \<Rightarrow> unit act" where
  "not_current m =
     and_then read_clock (\<lambda>now.
       if cm_key (current_utc_month now) = cm_key m then throw current_month_text else pass ())"

section \<open>Calls\<close>

text \<open>A transaction that throws leaves the tables as they were.\<close>

definition transaction :: "'a act \<Rightarrow> 'a act" where
  "transaction f w = (case f w of (Thrown e, w1) \<Rightarrow> (Thrown e, w) | r \<Rightarrow> r)"

definition call_transaction :: "string \<Rightarrow> cdr_month \<Rightarrow> int \<Rightarrow> int act" where
  "call_transaction rid m deleted =
     transaction
       (and_then (purge_delete_batch m) (\<lambda>batch.
          if batch \<le> 0 then pass 0
          else (\<lambda>w. let stages = set_done Stage_calls (deleted + batch) (pw_stages w)
                     in and_then (update_run rid (set_progress (deleted + batch)
                                                    (batch_meta (cm_key m) stages)))
                          (\<lambda>_. pass batch) w)))"

definition call_lock_attempts :: nat where
  "call_lock_attempts = 30"

function delete_call_batch :: "nat \<Rightarrow> string \<Rightarrow> cdr_month \<Rightarrow> int \<Rightarrow> int act" where
  "delete_call_batch attempt rid m deleted w =
     (case db (call_transaction rid m deleted) w of
        (Thrown e, w1) \<Rightarrow>
          if attempt \<ge> call_lock_attempts \<or> \<not> is_purge_lock_timeout e then (Thrown e, w1)
          else delete_call_batch (Suc attempt) rid m deleted w1
      | r \<Rightarrow> r)"
  by pat_completeness auto
termination by (relation "measure (\<lambda>(attempt, _). call_lock_attempts - attempt)") auto

declare delete_call_batch.simps [simp del]

text \<open>The number of rows bounds the turns of a deleting loop: each turn but the last removes one.\<close>

definition rows_left :: "purge_world \<Rightarrow> nat" where
  "rows_left w =
     length (pw_calls w) + length (pw_journal w) + length (pw_smg w) + length (pw_runs w)
     + length (pw_audit w)"

definition while_rows :: "(int \<Rightarrow> int option act) \<Rightarrow> int act" where
  "while_rows body w = turns (Suc (rows_left w)) body 0 w"

definition call_turn :: "string \<Rightarrow> cdr_month \<Rightarrow> int \<Rightarrow> int option act" where
  "call_turn rid m deleted =
     and_then (not_current m) (\<lambda>_.
     and_then (delete_call_batch 1 rid m deleted) (\<lambda>batch.
       if batch \<le> 0 then pass None
       else
         and_then (note_batch batch) (\<lambda>_.
         and_then (change (\<lambda>w. w\<lparr>pw_deleted := deleted + batch\<rparr>)) (\<lambda>_.
         and_then (put_done Stage_calls (deleted + batch)) (\<lambda>_.
         pass (Some (deleted + batch)))))))"

section \<open>The other tables\<close>

definition delete_turn :: "unit act \<Rightarrow> int act \<Rightarrow> (int \<Rightarrow> unit act) \<Rightarrow> int \<Rightarrow> int option act" where
  "delete_turn guard batch on_progress deleted =
     and_then guard (\<lambda>_.
     and_then (db batch) (\<lambda>n.
       if n \<le> 0 then pass None
       else
         and_then (note_batch n) (\<lambda>_.
         and_then (on_progress (deleted + n)) (\<lambda>_.
         pass (Some (deleted + n))))))"

definition delete_journal_month :: "cdr_month \<Rightarrow> int \<Rightarrow> (int \<Rightarrow> unit act) \<Rightarrow> int act" where
  "delete_journal_month m expected on_progress =
     (if expected \<le> 0 then pass 0
      else while_rows (delete_turn (not_current m) (purge_journal_batch m) on_progress))"

definition delete_smg_month :: "cdr_month \<Rightarrow> (int \<Rightarrow> unit act) \<Rightarrow> int act" where
  "delete_smg_month m on_progress =
     while_rows (delete_turn (not_current m) (purge_smg_batch m) on_progress)"

definition delete_month_history ::
  "cdr_month \<Rightarrow> string \<Rightarrow> (stage \<Rightarrow> unit act) \<Rightarrow> (stage \<Rightarrow> int \<Rightarrow> unit act) \<Rightarrow> (int \<times> int) act" where
  "delete_month_history m keep on_phase on_progress =
     and_then (on_phase Stage_jobs) (\<lambda>_.
     and_then (while_rows (delete_turn (pass ()) (purge_jobs_batch m keep) (on_progress Stage_jobs))) (\<lambda>jobs.
     and_then (on_phase Stage_audit) (\<lambda>_.
     and_then (while_rows (delete_turn (pass ()) (purge_audit_batch m) (on_progress Stage_audit))) (\<lambda>audit.
     pass (jobs, audit)))))"

definition count_journal_month :: "cdr_month \<Rightarrow> int act" where
  "count_journal_month m = db (look (\<lambda>w. count_rows (logged_in_month m) (pw_journal w)))"

definition count_smg_month :: "cdr_month \<Rightarrow> int act" where
  "count_smg_month m = db (look (\<lambda>w. count_rows (smg_in_month m) (pw_smg w)))"

definition count_call_month :: "cdr_month \<Rightarrow> int act" where
  "count_call_month m = db (look (\<lambda>w. count_rows (call_in_month m) (pw_calls w)))"

definition count_month_history :: "cdr_month \<Rightarrow> string \<Rightarrow> (int \<times> int) act" where
  "count_month_history m keep =
     and_then (db (look (\<lambda>w. count_rows (run_in_month m keep) (pw_runs w)))) (\<lambda>jobs.
     and_then (db (look (\<lambda>w. count_rows (audit_in_month m) (pw_audit w)))) (\<lambda>audit.
     pass (jobs, audit)))"

definition count_syslog_files :: "cdr_month \<Rightarrow> int act" where
  "count_syslog_files m =
     db (look (\<lambda>w. case find (\<lambda>r. sy_key r = month_key (cm_year m) (cm_month m))
                            (list_syslog_month_inventory (pw_syslog w)) of
                      None \<Rightarrow> 0 | Some r \<Rightarrow> sy_files r))"

section \<open>Cards\<close>

definition trace_page_size :: nat where
  "trace_page_size = 2000"

definition trace_page :: "(smg_row \<Rightarrow> bool) \<Rightarrow> string \<Rightarrow> smg_row list act" where
  "trace_page P cursor =
     db (look (\<lambda>w. take trace_page_size (sort_key sm_id (filter (\<lambda>r. P r \<and> cursor < sm_id r) (pw_smg w)))))"

definition smg_outside_month :: "cdr_month \<Rightarrow> smg_row \<Rightarrow> bool" where
  "smg_outside_month m r =
     (case smg_month_day_range m of (gte, lt) \<Rightarrow> sm_day r < gte \<or> lt \<le> sm_day r)"

definition row_keys :: "smg_row \<Rightarrow> string list" where
  "row_keys r = trace_search_keys (sm_tag r) (sm_session r)"

fun month_keys_loop :: "nat \<Rightarrow> cdr_month \<Rightarrow> string \<Rightarrow> string list \<Rightarrow> string list act" where
  "month_keys_loop 0 m cursor keys w = (Stuck, w)"
| "month_keys_loop (Suc n) m cursor keys w =
     and_then (trace_page (smg_in_month m) cursor) (\<lambda>rows.
       if rows = [] then pass keys
       else (let keys1 = foldl (\<lambda>ks r. foldl set_add ks (row_keys r)) keys rows
             in if length rows < trace_page_size then pass keys1
                else month_keys_loop n m (sm_id (last rows)) keys1)) w"

fun other_keys_loop :: "nat \<Rightarrow> cdr_month \<Rightarrow> string \<Rightarrow> string list \<Rightarrow> string list act" where
  "other_keys_loop 0 m cursor keys w = (Stuck, w)"
| "other_keys_loop (Suc n) m cursor keys w =
     (if keys = [] then pass [] w
      else
        and_then (trace_page (smg_outside_month m) cursor) (\<lambda>rows.
          if rows = [] then pass keys
          else (let keys1 = filter (\<lambda>k. \<not> list_ex (\<lambda>r. k \<in> set (row_keys r)) rows) keys
                in if length rows < trace_page_size then pass keys1
                   else other_keys_loop n m (sm_id (last rows)) keys1)) w)"

definition collect_month_trace_keys :: "cdr_month \<Rightarrow> string list act" where
  "collect_month_trace_keys m w =
     (let bound = Suc (length (pw_smg w))
      in and_then (month_keys_loop bound m [] []) (\<lambda>keys.
           if keys = [] then pass [] else other_keys_loop bound m [] keys) w)"

text \<open>The slices of at most 500 tags.\<close>

definition card_batch :: nat where
  "card_batch = 500"

function card_batches :: "'a list \<Rightarrow> 'a list list" where
  "card_batches keys =
     (if keys = [] then [] else take card_batch keys # card_batches (drop card_batch keys))"
  by pat_completeness auto
termination by (relation "measure length") (auto simp: card_batch_def)

declare card_batches.simps [simp del]

fun sum_over :: "(string list \<Rightarrow> int act) \<Rightarrow> int \<Rightarrow> string list list \<Rightarrow> int act" where
  "sum_over f expected [] = pass expected"
| "sum_over f expected (b # bs) = and_then (f b) (\<lambda>n. sum_over f (expected + n) bs)"

definition count_trace_cards :: "string list \<Rightarrow> int act" where
  "count_trace_cards keys =
     sum_over (\<lambda>b. db (look (\<lambda>w. count_rows (\<lambda>c. cd_tag c \<in> set b) (pw_cards w)))) 0 (card_batches keys)"

definition count_trace_delays :: "string list \<Rightarrow> int act" where
  "count_trace_delays keys =
     sum_over (\<lambda>b. db (look (\<lambda>w. count_rows (\<lambda>c. cd_tag c \<in> set b \<and> cd_delays c) (pw_cards w)))) 0
       (card_batches keys)"

definition delete_card_rows :: "string list \<Rightarrow> card_row list act" where
  "delete_card_rows batch w =
     (Done (filter (\<lambda>c. cd_tag c \<in> set batch) (pw_cards w)),
      w\<lparr>pw_cards := filter (\<lambda>c. cd_tag c \<notin> set batch) (pw_cards w)\<rparr>)"

fun delete_card_batches ::
  "(int \<Rightarrow> int \<Rightarrow> unit act) \<Rightarrow> int \<Rightarrow> int \<Rightarrow> string list list \<Rightarrow> (int \<times> int) act" where
  "delete_card_batches on_progress cards delays [] = pass (cards, delays)"
| "delete_card_batches on_progress cards delays (b # bs) =
     and_then (db (delete_card_rows b)) (\<lambda>rows.
       let cards1 = cards + int (length rows); delays1 = delays + count_rows cd_delays rows
       in and_then (on_progress cards1 delays1) (\<lambda>_.
            delete_card_batches on_progress cards1 delays1 bs))"

definition delete_trace_cards :: "string list \<Rightarrow> (int \<Rightarrow> int \<Rightarrow> unit act) \<Rightarrow> (int \<times> int) act" where
  "delete_trace_cards keys on_progress = delete_card_batches on_progress 0 0 (card_batches keys)"

section \<open>Syslog\<close>

definition list_syslog_month_targets :: "cdr_month \<Rightarrow> syslog_dir list \<Rightarrow> syslog_dir list" where
  "list_syslog_month_targets m dirs =
     filter (\<lambda>d. sd_year d = cm_year m \<and> sd_month d = cm_month m \<and> (sd_link d \<or> sd_present d)) dirs"

definition target_files :: "syslog_dir \<Rightarrow> int" where
  "target_files d = (if sd_link d then 0 else sd_files d)"

definition remove_month_entry :: "syslog_dir \<Rightarrow> unit act" where
  "remove_month_entry t =
     change (\<lambda>w. w\<lparr>pw_syslog := filter (\<lambda>d. \<not> (sd_ip d = sd_ip t \<and> sd_year d = sd_year t
                                                 \<and> sd_month d = sd_month t)) (pw_syslog w)\<rparr>)"

fun remove_targets ::
  "(int \<Rightarrow> int \<Rightarrow> bool \<Rightarrow> unit act) \<Rightarrow> int \<Rightarrow> int \<Rightarrow> syslog_dir list \<Rightarrow> int act" where
  "remove_targets on_progress expected finished [] = pass finished"
| "remove_targets on_progress expected finished (t # ts) =
     and_then (db (remove_month_entry t)) (\<lambda>_.
     and_then (on_progress (finished + target_files t) expected True) (\<lambda>_.
     remove_targets on_progress expected (finished + target_files t) ts))"

definition delete_syslog_month :: "cdr_month \<Rightarrow> int \<Rightarrow> (int \<Rightarrow> int \<Rightarrow> bool \<Rightarrow> unit act) \<Rightarrow> int act" where
  "delete_syslog_month m now on_progress =
     (let key = month_key (cm_year m) (cm_month m); live = bucket_of now 0
      in if key = cm_key (current_utc_month now) \<or> sb_year live @ ''-'' @ sb_month live \<le> key
         then throw current_month_text
         else
           and_then (db (look (\<lambda>w. list_syslog_month_targets m (pw_syslog w)))) (\<lambda>targets.
           let expected = sum_list (map target_files targets)
           in and_then (if expected > 0 then on_progress 0 expected False else pass ()) (\<lambda>_.
              and_then (remove_targets on_progress expected 0 targets) (\<lambda>finished.
              and_then (if expected = 0 then on_progress 0 0 False else pass ()) (\<lambda>_.
              pass finished)))))"

section \<open>All that is left of the month\<close>

definition done_then_publish :: "string \<Rightarrow> cdr_month \<Rightarrow> stage \<Rightarrow> int \<Rightarrow> unit act" where
  "done_then_publish rid m s n =
     and_then (put_done s n) (\<lambda>_. publish_purge_progress rid (cm_key m) s)"

definition cards_progress :: "string \<Rightarrow> cdr_month \<Rightarrow> int \<Rightarrow> int \<Rightarrow> unit act" where
  "cards_progress rid m cards delays =
     and_then (if cards > 0 then note_batch cards else pass ()) (\<lambda>_.
     and_then (put_done Stage_cards cards) (\<lambda>_.
     and_then (put_done Stage_delays delays) (\<lambda>_.
     publish_purge_progress rid (cm_key m) Stage_cards)))"

definition syslog_progress :: "string \<Rightarrow> cdr_month \<Rightarrow> int \<Rightarrow> int \<Rightarrow> bool \<Rightarrow> unit act" where
  "syslog_progress rid m finished expected held =
     and_then (if held \<or> finished > 0 then note_batch 1 else pass ()) (\<lambda>_.
     and_then (put_stage Stage_syslog \<lparr>sc_done = finished, sc_total = expected\<rparr>) (\<lambda>_.
     publish_purge_progress rid (cm_key m) Stage_syslog))"

definition delete_month_remainder ::
  "string \<Rightarrow> cdr_month \<Rightarrow> string list option \<Rightarrow> remainder_counts act" where
  "delete_month_remainder rid m card_keys =
     and_then (count_journal_month m) (\<lambda>journal.
     and_then (put_stage Stage_journal \<lparr>sc_done = 0, sc_total = journal\<rparr>) (\<lambda>_.
     and_then (publish_purge_progress rid (cm_key m) Stage_journal) (\<lambda>_.
     and_then (delete_journal_month m journal (done_then_publish rid m Stage_journal)) (\<lambda>_.
     and_then (case card_keys of Some ks \<Rightarrow> pass ks | None \<Rightarrow> collect_month_trace_keys m) (\<lambda>keys.
     and_then (count_trace_cards keys) (\<lambda>cards.
     and_then (count_trace_delays keys) (\<lambda>delays.
     and_then (put_stage Stage_cards \<lparr>sc_done = 0, sc_total = cards\<rparr>) (\<lambda>_.
     and_then (put_stage Stage_delays \<lparr>sc_done = 0, sc_total = delays\<rparr>) (\<lambda>_.
     and_then (publish_purge_progress rid (cm_key m) Stage_cards) (\<lambda>_.
     and_then (delete_trace_cards keys (cards_progress rid m)) (\<lambda>removed.
     and_then (publish_purge_progress rid (cm_key m) Stage_smg) (\<lambda>_.
     and_then (delete_smg_month m (done_then_publish rid m Stage_smg)) (\<lambda>smg.
     and_then read_clock (\<lambda>now.
     and_then (delete_syslog_month m now (syslog_progress rid m)) (\<lambda>syslog.
     and_then (delete_month_history m rid (publish_purge_progress rid (cm_key m))
                 (done_then_publish rid m)) (\<lambda>history.
     pass \<lparr>rc_cards = fst removed, rc_smg = smg, rc_syslog = syslog, rc_jobs = fst history,
           rc_audit = snd history\<rparr>))))))))))))))))"

section \<open>The end of a run\<close>

record purge_result =
  pt_failed :: bool
  pt_deleted :: int
  pt_remainder :: remainder_counts
  pt_target_count :: int
  pt_month :: "string option"
  pt_error :: "text16 option"

definition deleted_text :: text16 where "deleted_text = [1059, 1076, 1072, 1083, 1077, 1085, 1086, 32]"
definition calls_text :: text16 where "calls_text = [32, 1079, 1074, 1086, 1085, 1082, 1086, 1074, 32, 67, 68, 82]"
definition dot_text :: text16 where "dot_text = [32, 183, 32]"
definition smg_text :: text16 where
  "smg_text =
     [46, 32, 1047, 1074, 1086, 1085, 1082, 1086, 1074, 32, 83, 77, 71, 58, 32]"
definition cards_text :: text16 where "cards_text = [46, 32, 1050, 1072, 1088, 1090, 1086, 1095, 1077, 1082, 58, 32]"
definition syslog_text :: text16 where
  "syslog_text =
     [46, 32, 1040, 1088, 1093, 1080, 1074, 1086, 1074, 32, 83, 121, 115, 108, 111, 103, 58, 32]"
definition jobs_text :: text16 where "jobs_text = [46, 32, 1047, 1072, 1076, 1072, 1095, 58, 32]"
definition audit_text :: text16 where "audit_text = [46, 32, 1040, 1091, 1076, 1080, 1090, 58, 32]"
definition year_text :: text16 where "year_text = [32, 1075, 1086, 1076, 1072]"

definition month_names :: "text16 list" where
  "month_names =
     [
      [1071, 1085, 1074, 1072, 1088, 1100],
      [1060, 1077, 1074, 1088, 1072, 1083, 1100],
      [1052, 1072, 1088, 1090],
      [1040, 1087, 1088, 1077, 1083, 1100],
      [1052, 1072, 1081],
      [1048, 1102, 1085, 1100],
      [1048, 1102, 1083, 1100],
      [1040, 1074, 1075, 1091, 1089, 1090],
      [1057, 1077, 1085, 1090, 1103, 1073, 1088, 1100],
      [1054, 1082, 1090, 1103, 1073, 1088, 1100],
      [1053, 1086, 1103, 1073, 1088, 1100],
      [1044, 1077, 1082, 1072, 1073, 1088, 1100]]"

definition format_month_nominative :: "int \<Rightarrow> int \<Rightarrow> text16" where
  "format_month_nominative year month =
     month_names ! nat (month - 1) @ [32] @ units (int_str year) @ year_text"

definition success_message :: "purge_result \<Rightarrow> text16" where
  "success_message r =
     (let label = (case pt_month r of
                     None \<Rightarrow> []
                   | Some key \<Rightarrow>
                       (case parse_month_key (Some key) of
                          None \<Rightarrow> units key
                        | Some m \<Rightarrow> format_month_nominative (cm_year m) (cm_month m)));
          rc = pt_remainder r
      in deleted_text @ format_count (pt_deleted r) @ calls_text
         @ (if label \<noteq> [] then dot_text @ label else [])
         @ smg_text @ format_count (rc_smg rc) @ cards_text @ format_count (rc_cards rc)
         @ syslog_text @ format_count (rc_syslog rc) @ jobs_text @ format_count (rc_jobs rc)
         @ audit_text @ format_count (rc_audit rc) @ [46])"

definition opt_str :: "string option \<Rightarrow> jval" where
  "opt_str s = (case s of None \<Rightarrow> JNull | Some t \<Rightarrow> JStr t)"

definition finish_meta :: "bool \<Rightarrow> purge_result \<Rightarrow> jval" where
  "finish_meta history_only r =
     (let rc = pt_remainder r
      in JObj ([(''month'', opt_str (pt_month r)), (''targetCount'', JNum (pt_target_count r)),
                (''deletedCount'', JNum (pt_deleted r)), (''deletedSmg'', JNum (rc_smg rc)),
                (''deletedCards'', JNum (rc_cards rc)), (''deletedSyslog'', JNum (rc_syslog rc)),
                (''deletedJobs'', JNum (rc_jobs rc)), (''deletedAudit'', JNum (rc_audit rc))]
               @ (if pt_failed r \<and> pt_deleted r > 0 \<and> \<not> history_only
                  then [(''continueDelete'', JBool True)] else [])))"

definition finish_row :: "int \<Rightarrow> bool \<Rightarrow> purge_result \<Rightarrow> purge_run \<Rightarrow> purge_run" where
  "finish_row now history_only r row =
     row\<lparr>run_status := (if pt_failed r then Job_failed else Job_success), run_finished := Some now,
         run_error := (case pt_error r of
                         Some e \<Rightarrow> Some e
                       | None \<Rightarrow> if pt_failed r then None else Some (success_message r)),
         pr_phones := Some (pt_deleted r), pr_meta := finish_meta history_only r\<rparr>"

definition finish_purge :: "string \<Rightarrow> job_input \<Rightarrow> purge_result \<Rightarrow> unit act" where
  "finish_purge rid input r =
     and_then read_clock (\<lambda>now.
     and_then (db (update_run rid (finish_row now (ji_history_only input) r))) (\<lambda>_.
     audit_append ''cdr.purge_finish''))"

text \<open>The early exits: the failure is written and given.\<close>

definition refuse :: "string \<Rightarrow> job_input \<Rightarrow> int \<Rightarrow> string option \<Rightarrow> text16 \<Rightarrow> purge_result act" where
  "refuse rid input deleted month msg =
     (let r = \<lparr>pt_failed = True, pt_deleted = deleted, pt_remainder = no_remainder,
               pt_target_count = deleted, pt_month = month, pt_error = Some msg\<rparr>
      in and_then (finish_purge rid input r) (\<lambda>_. pass r))"

definition keep_remainder :: "remainder_counts \<Rightarrow> unit act" where
  "keep_remainder rc = change (\<lambda>w. w\<lparr>pw_remainder := rc\<rparr>)"

definition succeed :: "string \<Rightarrow> job_input \<Rightarrow> cdr_month \<Rightarrow> purge_result act" where
  "succeed rid input m w =
     (let r = \<lparr>pt_failed = False, pt_deleted = pw_deleted w, pt_remainder = pw_remainder w,
               pt_target_count = pw_target_count w, pt_month = Some (cm_key m), pt_error = None\<rparr>
      in and_then (finish_purge rid input r) (\<lambda>_. pass r) w)"

definition assert_purge_fk_indexes :: "unit act" where
  "assert_purge_fk_indexes =
     and_then (db (look pw_indexes)) (\<lambda>present.
       let missing = missing_purge_fk_index_names present
       in if missing = [] then pass ()
          else throw (missing_index_text @ units (sep_concat '', '' missing)))"

definition aim_at :: "cdr_month \<Rightarrow> unit act" where
  "aim_at m = change (\<lambda>w. w\<lparr>pw_slot := set_purge_target_month (Some (cm_key m)) (pw_slot w)\<rparr>)"

definition count_stages ::
  "int \<Rightarrow> int \<Rightarrow> int \<Rightarrow> int \<Rightarrow> int \<Rightarrow> int \<Rightarrow> int \<Rightarrow> int \<times> int \<Rightarrow> purge_stages" where
  "count_stages calls_done calls journal cards delays smg syslog history =
     (\<lambda>s. case s of
             Stage_calls \<Rightarrow> \<lparr>sc_done = calls_done, sc_total = calls\<rparr>
           | Stage_journal \<Rightarrow> \<lparr>sc_done = 0, sc_total = journal\<rparr>
           | Stage_cards \<Rightarrow> \<lparr>sc_done = 0, sc_total = cards\<rparr>
           | Stage_delays \<Rightarrow> \<lparr>sc_done = 0, sc_total = delays\<rparr>
           | Stage_smg \<Rightarrow> \<lparr>sc_done = 0, sc_total = smg\<rparr>
           | Stage_syslog \<Rightarrow> \<lparr>sc_done = 0, sc_total = syslog\<rparr>
           | Stage_jobs \<Rightarrow> \<lparr>sc_done = 0, sc_total = fst history\<rparr>
           | Stage_audit \<Rightarrow> \<lparr>sc_done = 0, sc_total = snd history\<rparr>)"

definition start_stages :: "int \<Rightarrow> purge_stages \<Rightarrow> unit act" where
  "start_stages target_count stages =
     change (\<lambda>w. w\<lparr>pw_target_count := target_count, pw_stages := stages\<rparr>)"

section \<open>The run\<close>

definition prior_calls :: "job_input \<Rightarrow> int" where
  "prior_calls input =
     (case ji_deleted_calls input of
        Some n \<Rightarrow> if ji_history_only input \<and> n > 0 then n else 0
      | None \<Rightarrow> 0)"

definition history_run :: "string \<Rightarrow> job_input \<Rightarrow> cdr_month option \<Rightarrow> purge_result act" where
  "history_run rid input target =
     (case target of
        None \<Rightarrow> refuse rid input 0 None month_format_text
      | Some m \<Rightarrow>
          and_then read_clock (\<lambda>now.
          if cm_key m = cm_key (current_utc_month now)
          then refuse rid input (prior_calls input) (Some (cm_key m)) current_month_text
          else
            and_then (aim_at m) (\<lambda>_.
            and_then assert_purge_fk_indexes (\<lambda>_.
            and_then (count_call_month m) (\<lambda>left.
            if left > 0 then throw calls_left_text
            else
              and_then (change (\<lambda>w. w\<lparr>pw_deleted := prior_calls input,
                                         pw_target_count := prior_calls input\<rparr>)) (\<lambda>_.
              and_then (count_smg_month m) (\<lambda>smg.
              and_then (count_month_history m rid) (\<lambda>history.
              and_then (count_syslog_files m) (\<lambda>syslog.
              and_then (start_stages (prior_calls input)
                          (count_stages (prior_calls input) (prior_calls input) 0 0 0 smg syslog history)) (\<lambda>_.
              and_then (audit_append ''cdr.purge_start'') (\<lambda>_.
              and_then (delete_month_remainder rid m None) (\<lambda>rc.
              and_then (keep_remainder rc) (\<lambda>_.
              succeed rid input m)))))))))))))"

definition deletable_gate :: "job_input \<Rightarrow> cdr_month option \<Rightarrow> text16 option act" where
  "deletable_gate input target =
     (if ji_resume_calls input
      then pass (if target = None then Some month_format_text else None)
      else and_then resolve_deletable_month_key (\<lambda>deletable.
        pass (case (target, deletable) of
                (None, _) \<Rightarrow> Some month_format_text
              | (Some _, None) \<Rightarrow> Some no_full_month_text
              | (Some m, Some key) \<Rightarrow>
                  if cm_key m \<noteq> key then Some (only_oldest_text @ units key @ [41]) else None)))"

definition calls_run :: "string \<Rightarrow> job_input \<Rightarrow> cdr_month option \<Rightarrow> purge_result act" where
  "calls_run rid input target =
     and_then (deletable_gate input target) (\<lambda>refusal.
     case (refusal, target) of
       (Some msg, _) \<Rightarrow> refuse rid input 0 (map_option cm_key target) msg
     | (None, None) \<Rightarrow> refuse rid input 0 None month_format_text
     | (None, Some m) \<Rightarrow>
         and_then read_clock (\<lambda>now.
         if cm_key m = cm_key (current_utc_month now)
         then refuse rid input 0 (Some (cm_key m)) current_month_text
         else
           and_then (aim_at m) (\<lambda>_.
           and_then assert_purge_fk_indexes (\<lambda>_.
           and_then (collect_month_trace_keys m) (\<lambda>card_keys.
           and_then (count_call_month m) (\<lambda>calls.
           and_then (count_smg_month m) (\<lambda>smg.
           and_then (count_month_history m rid) (\<lambda>history.
           and_then (count_syslog_files m) (\<lambda>syslog.
           and_then (count_trace_cards card_keys) (\<lambda>cards.
           and_then (count_journal_month m) (\<lambda>journal.
           and_then (count_trace_delays card_keys) (\<lambda>delays.
           and_then (start_stages calls (count_stages 0 calls journal cards delays smg syslog history)) (\<lambda>_.
           and_then (audit_append ''cdr.purge_start'') (\<lambda>_.
           and_then (publish_purge_progress rid (cm_key m) Stage_calls) (\<lambda>_.
           and_then (while_rows (call_turn rid m)) (\<lambda>_.
           and_then (delete_month_remainder rid m (Some card_keys)) (\<lambda>rc.
           and_then (keep_remainder rc) (\<lambda>_.
           succeed rid input m))))))))))))))))))"

text \<open>The row is written before the first delete, so a second restart still finds the month.\<close>

definition started_row :: "string \<Rightarrow> int \<Rightarrow> job_input \<Rightarrow> purge_run" where
  "started_row rid started input =
     (let month = (case parse_month_key (ji_month input) of
                     Some m \<Rightarrow> JStr (cm_key m) | None \<Rightarrow> opt_str (ji_month input));
          prior = prior_calls input
      in \<lparr>run_id = rid, run_action = Cdr_purge_month, run_status = Job_running, run_started = started,
          run_finished = None, run_error = None,
          pr_phones = (if ji_history_only input then Some prior else None),
          pr_meta =
            (if ji_history_only input
             then JObj [(''month'', month), (''phase'', JStr ''cards''), (''targetCount'', JNum prior),
                        (''deletedCount'', JNum prior), (''deletedSmg'', JNum 0),
                        (''historyOnly'', JBool True)]
             else JObj [(''month'', month), (''phase'', JStr ''started'')])\<rparr>)"

text \<open>The \<open>catch\<close> of the source.\<close>

definition caught :: "string \<Rightarrow> job_input \<Rightarrow> cdr_month option \<Rightarrow> purge_result act \<Rightarrow> purge_result act" where
  "caught rid input target body w =
     (case body w of
        (Thrown e, w1) \<Rightarrow>
          (let r = \<lparr>pt_failed = True, pt_deleted = pw_deleted w1, pt_remainder = pw_remainder w1,
                    pt_target_count = pw_target_count w1, pt_month = map_option cm_key target,
                    pt_error = Some (de_message e)\<rparr>
           in and_then (finish_purge rid input r) (\<lambda>_. pass r) w1)
      | res \<Rightarrow> res)"

text \<open>The \<open>finally\<close>: whether the hold goes, and the job row ends in any case.\<close>

definition clear_flags :: "string \<Rightarrow> unit act" where
  "clear_flags month =
     db (change (\<lambda>w. w\<lparr>pw_runs := snd (clear_purge_continuation_flags month (pw_runs w))\<rparr>))"

definition release_hold :: "string option \<Rightarrow> unit act" where
  "release_hold month =
     change (\<lambda>w.
       let w1 = w\<lparr>pw_slot := set_purge_target_month None (pw_slot w)\<rparr>
       in case month of
            None \<Rightarrow> w1
          | Some key \<Rightarrow>
              w1\<lparr>pw_poison := snd (clear_purge_holds key (pw_poison w1)),
                 pw_smg_poison := snd (clear_smg_purge_holds key (pw_smg_poison w1)),
                 pw_drains := pw_drains w1 @ [Cdr_import, Smg_import]\<rparr>)"

definition end_row :: "string \<Rightarrow> unit act" where
  "end_row rid w =
     (case and_then read_clock (\<lambda>now. db (change (\<lambda>v. v\<lparr>pw_runs :=
             fail_job_run_if_still_running now rid orphan_reclaim_message (pw_runs v)\<rparr>))) w of
        (Thrown e, w1) \<Rightarrow> (Done (), w1)
      | r \<Rightarrow> r)"

definition hold_goes :: "bool \<Rightarrow> bool \<Rightarrow> string option \<Rightarrow> bool act" where
  "hold_goes resume succeeded month w =
     (let release = (if resume then succeeded else succeeded \<or> \<not> slot_committed (pw_slot w))
      in case month of
           Some key \<Rightarrow>
             if release \<and> succeeded
             then (case clear_flags key w of
                     (Done _, w1) \<Rightarrow> (Done True, w1)
                   | (Thrown e, w1) \<Rightarrow> (Done False, w1)
                   | (Killed, w1) \<Rightarrow> (Killed, w1)
                   | (Stuck, w1) \<Rightarrow> (Stuck, w1))
             else (Done release, w)
         | None \<Rightarrow> (Done release, w))"

definition purge_finally :: "string \<Rightarrow> job_input \<Rightarrow> bool \<Rightarrow> string option \<Rightarrow> unit act" where
  "purge_finally rid input succeeded month =
     and_then (hold_goes (ji_resume_calls input) succeeded month) (\<lambda>goes.
     and_then (if goes then release_hold month else pass ()) (\<lambda>_. end_row rid))"

definition with_finally :: "(bool \<Rightarrow> unit act) \<Rightarrow> purge_result act \<Rightarrow> purge_result act" where
  "with_finally fin body w =
     (case body w of
        (Killed, w1) \<Rightarrow> (Killed, w1)
      | (Stuck, w1) \<Rightarrow> (Stuck, w1)
      | (Done r, w1) \<Rightarrow> and_then (fin (\<not> pt_failed r)) (\<lambda>_. pass r) w1
      | (Thrown e, w1) \<Rightarrow> and_then (fin False) (\<lambda>_ v. (Thrown e, v)) w1)"

definition process_cdr_purge_month :: "string \<Rightarrow> job_input \<Rightarrow> purge_result act" where
  "process_cdr_purge_month rid input =
     (let target = parse_month_key (ji_month input)
      in and_then read_clock (\<lambda>started.
         and_then (db (change (\<lambda>w. w\<lparr>pw_runs := pw_runs w @ [started_row rid started input]\<rparr>))) (\<lambda>_.
         and_then (change (\<lambda>w. w\<lparr>pw_deleted := 0, pw_target_count := 0, pw_remainder := no_remainder\<rparr>)) (\<lambda>_.
         with_finally (\<lambda>succeeded. purge_finally rid input succeeded (map_option cm_key target))
           (caught rid input target
              (if ji_history_only input then history_run rid input target
               else calls_run rid input target))))))"

section \<open>The start of the server (\<open>instrumentation.ts\<close>)\<close>

definition world_remainder :: "purge_world \<Rightarrow> string \<Rightarrow> month_remainder" where
  "world_remainder w key =
     (case parse_month_key (Some key) of
        None \<Rightarrow> \<lparr>mr_calls = 0, mr_smg = 0, mr_jobs = 0, mr_audit = 0\<rparr>
      | Some m \<Rightarrow>
          \<lparr>mr_calls = count_rows (call_in_month m) (pw_calls w),
           mr_smg = count_rows (smg_in_month m) (pw_smg w),
           mr_jobs = count_rows (run_in_month m ''__purge_resume__'') (pw_runs w),
           mr_audit = count_rows (audit_in_month m) (pw_audit w)\<rparr>)"

text \<open>
  A new process has an empty target. The statements of the start are taken as done: a failure
  there is logged and the rest goes on without a month.
\<close>

definition boot_purge :: "int \<Rightarrow> purge_world \<Rightarrow> job_input option \<times> purge_world" where
  "boot_purge now w =
     (let current = cm_key (current_utc_month now)
      in case reclaim_orphan_job_runs now (pw_runs w) of
           (_, running, runs) \<Rightarrow>
             (case prepare_call_continuation (world_remainder w) current running runs of
                (month, runs1) \<Rightarrow>
                  (let w1 = w\<lparr>pw_slot := (case month of
                                Some key \<Rightarrow> set_purge_target_month (Some key) empty_slot
                              | None \<Rightarrow> empty_slot),
                              pw_runs := runs1,
                              pw_poison := snd (clear_purge_holds_except month (pw_poison w)),
                              pw_smg_poison := snd (clear_smg_purge_holds_except month (pw_smg_poison w))\<rparr>
                   in (case month of
                         Some key \<Rightarrow> Some (calls_input key)
                       | None \<Rightarrow> enqueue_abandoned_purge_history (world_remainder w1) current runs1, w1))))"

end
