(* ===== verification/Purge_Logic.thy ===== *)
theory Purge_Logic
  imports Purge_Run "HOL-Library.Multiset"
begin

text \<open>
  A logic for the actions of a purge. \<open>triple P f Q E\<close>: from a world in \<open>P\<close> the action \<open>f\<close> ends,
  never by running out of turns; when it returns the world is in \<open>Q\<close>, when it throws or dies the
  world is in \<open>E\<close>. The rules follow the actions; then come the facts on one deleting statement
  and on the walk over the pages of SMG rows.
\<close>

text \<open>Predicates that do not look at the faults and the clock.\<close>

definition calm :: "(purge_world \<Rightarrow> bool) \<Rightarrow> bool" where
  "calm P \<longleftrightarrow>
     (\<forall>w fs. P w \<longrightarrow> P (w\<lparr>pw_faults := fs\<rparr>))
     \<and> (\<forall>w t ts. P w \<longrightarrow> P (w\<lparr>pw_now := pw_now w + int t, pw_ticks := ts\<rparr>))"

lemma calm_faults: "calm P \<Longrightarrow> P w \<Longrightarrow> P (w\<lparr>pw_faults := fs\<rparr>)"
  by (simp add: calm_def)

lemma calm_clock: "calm P \<Longrightarrow> P w \<Longrightarrow> P (w\<lparr>pw_now := pw_now w + int t, pw_ticks := ts\<rparr>)"
  by (simp add: calm_def)

lemma calm_conj: "calm P \<Longrightarrow> calm Q \<Longrightarrow> calm (\<lambda>w. P w \<and> Q w)"
  by (simp add: calm_def)

lemma triple_db:
  assumes "calm P" and "triple P f Q E" and "\<And>w. P w \<Longrightarrow> E w"
  shows "triple P (db f) Q E"
proof -
  have "case db f w of (Done x, w1) \<Rightarrow> Q x w1 | (Thrown e, w1) \<Rightarrow> E w1 | (Killed, w1) \<Rightarrow> E w1
          | (Stuck, w1) \<Rightarrow> False" if "P w" for w
  proof (cases "pw_faults w")
    case Nil
    then show ?thesis using assms(2) that by (simp add: db_def triple_def)
  next
    case (Cons a fs)
    have "P (w\<lparr>pw_faults := fs\<rparr>)" using calm_faults [OF assms(1) that] .
    then show ?thesis using Cons assms(2,3) by (cases a) (simp_all add: db_def triple_def)
  qed
  then show ?thesis by (simp add: triple_def)
qed

lemma triple_read_clock: "calm P \<Longrightarrow> triple P read_clock (\<lambda>_. P) E"
  by (auto simp: triple_def read_clock_def intro: calm_clock split: list.splits)

lemma triple_db_look: "calm P \<Longrightarrow> (\<And>w. P w \<Longrightarrow> E w) \<Longrightarrow> triple P (db (look f)) (\<lambda>_. P) E"
  by (rule triple_db) (auto intro: triple_look)

lemma triple_not_current:
  assumes "calm P" and "\<And>w. P w \<Longrightarrow> E w"
  shows "triple P (not_current m) (\<lambda>_. P) E"
  unfolding not_current_def
  by (rule triple_and_then [OF triple_read_clock [OF assms(1)]]) (auto intro: triple_throw triple_pass assms(2))

lemma triple_while_rows:
  assumes turn: "\<And>k n. triple (\<lambda>w. I k w \<and> rows_left w \<le> n) (body k)
                    (\<lambda>r w. case r of Some k1 \<Rightarrow> I k1 w \<and> rows_left w < n | None \<Rightarrow> Q w) E"
  shows "triple (I 0) (while_rows body) (\<lambda>_. Q) E"
proof -
  have "I 0 w \<Longrightarrow> case while_rows body w of (Done x, w1) \<Rightarrow> Q w1 | (Thrown e, w1) \<Rightarrow> E w1
          | (Killed, w1) \<Rightarrow> E w1 | (Stuck, w1) \<Rightarrow> False" for w
    unfolding while_rows_def
    by (rule triple_turns [where size_of = rows_left and I = I, OF turn]) simp_all
  then show ?thesis by (simp add: triple_def)
qed

section \<open>One deleting statement\<close>

lemma delete_some_subseq: "delete_some n P rs = (k, rs1) \<Longrightarrow> subseq rs1 rs"
  by (induction n P rs arbitrary: k rs1 rule: delete_some.induct) (auto split: if_splits prod.splits)

lemma delete_some_length: "delete_some n P rs = (k, rs1) \<Longrightarrow> length rs = k + length rs1"
  by (induction n P rs arbitrary: k rs1 rule: delete_some.induct) (auto split: if_splits prod.splits)

lemma delete_some_others:
  "delete_some n P rs = (k, rs1) \<Longrightarrow> filter (\<lambda>r. \<not> P r) rs1 = filter (\<lambda>r. \<not> P r) rs"
  by (induction n P rs arbitrary: k rs1 rule: delete_some.induct) (auto split: if_splits prod.splits)

lemma delete_some_none:
  "delete_some n P rs = (0, rs1) \<Longrightarrow> 0 < n \<Longrightarrow> rs1 = rs \<and> filter P rs = []"
  by (induction n P rs arbitrary: rs1 rule: delete_some.induct) (auto split: if_splits prod.splits)

section \<open>The walk over the pages of SMG rows\<close>

abbreviation rows_after :: "(smg_row \<Rightarrow> bool) \<Rightarrow> string \<Rightarrow> smg_row list \<Rightarrow> smg_row list" where
  "rows_after P c rows \<equiv> filter (\<lambda>r. P r \<and> c < sm_id r) rows"

abbreviation page_rows :: "(smg_row \<Rightarrow> bool) \<Rightarrow> string \<Rightarrow> smg_row list \<Rightarrow> smg_row list" where
  "page_rows P c rows \<equiv> take trace_page_size (sort_key sm_id (rows_after P c rows))"

lemma last_greatest:
  "sorted_wrt (<) (map f T) \<Longrightarrow> a \<in> set T \<Longrightarrow> (f a :: 'b::linorder) \<le> f (last T)"
  by (induction T rule: rev_induct) (auto simp: sorted_wrt_append less_imp_le)

lemma filter_shrinks:
  assumes "x \<in> set xs" and "Q x" and "\<not> Q' x" and "\<And>y. Q' y \<Longrightarrow> Q y"
  shows "length (filter Q' xs) < length (filter Q xs)"
proof -
  have "filter Q' xs = filter Q' (filter Q xs)" by (simp add: filter_filter assms(4) cong: filter_cong) (metis assms(4))
  moreover have "x \<in> set (filter Q xs)" using assms by simp
  ultimately show ?thesis using assms(3) by (metis length_filter_less)
qed

lemma page_rest:
  assumes "distinct (map sm_id rows)" and "page_rows P c rows \<noteq> []"
  shows "set (rows_after P c rows) =
    set (page_rows P c rows) \<union> set (rows_after P (sm_id (last (page_rows P c rows))) rows)"
    and "length (rows_after P (sm_id (last (page_rows P c rows))) rows) < length (rows_after P c rows)"
proof -
  let ?L = "sort_key sm_id (rows_after P c rows)"
  let ?T = "page_rows P c rows" and ?D = "drop trace_page_size ?L"
  let ?l = "last ?T"
  have dL: "distinct (map sm_id ?L)"
  proof -
    have "mset (map sm_id ?L) = mset (map sm_id (rows_after P c rows))"
      by (simp only: mset_map mset_sort)
    moreover have "distinct (map sm_id (rows_after P c rows))" by (simp add: assms(1) distinct_map_filter)
    ultimately show ?thesis using mset_eq_imp_distinct_iff by blast
  qed
  have "sorted_wrt (<) (map sm_id ?L)" using dL by (simp add: strict_sorted_iff)
  then have "sorted_wrt (<) (map sm_id ?T @ map sm_id ?D)"
    by (simp only: map_append [symmetric] append_take_drop_id)
  then have sT: "sorted_wrt (<) (map sm_id ?T)"
    and TD: "\<And>a b. a \<in> set ?T \<Longrightarrow> b \<in> set ?D \<Longrightarrow> sm_id a < sm_id b"
    by (auto simp: sorted_wrt_append)
  have lT: "?l \<in> set ?T" using assms(2) by simp
  have setL: "set ?L = set ?T \<union> set ?D"
    by (metis append_take_drop_id set_append)
  then have lL: "?l \<in> set (rows_after P c rows)" using lT by auto
  have le: "sm_id a \<le> sm_id ?l" if "a \<in> set ?T" for a
    by (rule last_greatest [OF sT that])
  have D: "set ?D = set (rows_after P (sm_id ?l) rows)"
  proof (intro subset_antisym subsetI)
    fix r assume "r \<in> set ?D"
    then show "r \<in> set (rows_after P (sm_id ?l) rows)" using TD [OF lT] setL by auto
  next
    fix r assume r: "r \<in> set (rows_after P (sm_id ?l) rows)"
    then have "r \<in> set ?L" using lL by auto
    moreover have "r \<notin> set ?T" using r le by fastforce
    ultimately show "r \<in> set ?D" using setL by blast
  qed
  show "set (rows_after P c rows) = set ?T \<union> set (rows_after P (sm_id ?l) rows)"
    using D setL by simp
  show "length (rows_after P (sm_id ?l) rows) < length (rows_after P c rows)"
    by (rule filter_shrinks [where x = ?l]) (use lL in auto)
qed

lemma page_all:
  assumes "length (page_rows P c rows) < trace_page_size"
  shows "set (page_rows P c rows) = set (rows_after P c rows)"
  using assms by simp

lemma page_none: "page_rows P c rows = [] \<Longrightarrow> rows_after P c rows = []"
  by (auto simp: trace_page_size_def simp del: filter_empty_conv) (metis set_empty set_sort)

definition reads_smg :: "(purge_world \<Rightarrow> bool) \<Rightarrow> smg_row list \<Rightarrow> purge_world \<Rightarrow> bool" where
  "reads_smg I rows w \<longleftrightarrow> I w \<and> pw_smg w = rows"

lemma calm_reads_smg: "calm I \<Longrightarrow> calm (reads_smg I rows)"
  by (simp add: calm_def reads_smg_def)

lemma triple_trace_page:
  assumes "calm I"
  shows "triple (reads_smg I rows) (trace_page P c)
    (\<lambda>rs w. reads_smg I rows w \<and> rs = page_rows P c rows) I"
  unfolding trace_page_def
  by (rule triple_db [OF calm_reads_smg [OF assms]]) (auto intro: triple_look simp: reads_smg_def)

definition keys_of :: "smg_row list \<Rightarrow> string set" where
  "keys_of rows = (\<Union>r\<in>set rows. set (row_keys r))"

lemma set_foldl_add: "set (foldl set_add ks xs) = set ks \<union> set xs"
  by (induction xs arbitrary: ks) (auto simp: set_add_def)

lemma set_add_rows: "set (foldl (\<lambda>ks r. foldl set_add ks (row_keys r)) keys rs) = set keys \<union> keys_of rs"
  by (induction rs arbitrary: keys) (auto simp: set_foldl_add keys_of_def)

lemma keys_of_split: "set a = set b \<union> set c \<Longrightarrow> keys_of a = keys_of b \<union> keys_of c"
  by (simp add: keys_of_def)

lemma triple_month_keys:
  assumes "calm I" and "distinct (map sm_id rows)"
  shows "length (rows_after (smg_in_month m) c rows) < n \<Longrightarrow>
    triple (reads_smg I rows) (month_keys_loop n m c keys)
      (\<lambda>ks w. reads_smg I rows w \<and> set ks = set keys \<union> keys_of (rows_after (smg_in_month m) c rows)) I"
proof (induction n arbitrary: c keys)
  case (Suc n)
  let ?P = "smg_in_month m"
  let ?page = "page_rows ?P c rows"
  let ?keys = "foldl (\<lambda>ks r. foldl set_add ks (row_keys r)) keys ?page"
  let ?Q = "\<lambda>ks w. reads_smg I rows w \<and> set ks = set keys \<union> keys_of (rows_after ?P c rows)"
  have rest: "triple (reads_smg I rows)
      (if ?page = [] then pass keys
       else if length ?page < trace_page_size then pass ?keys
       else month_keys_loop n m (sm_id (last ?page)) ?keys) ?Q I"
  proof (cases "?page = []")
    case True
    have "rows_after ?P c rows = []" using True by (rule page_none)
    then show ?thesis using True by (auto intro: triple_pass simp: keys_of_def)
  next
    case ne: False
    show ?thesis
    proof (cases "length ?page < trace_page_size")
      case True
      have "set ?keys = set keys \<union> keys_of (rows_after ?P c rows)"
        unfolding set_add_rows keys_of_def page_all [OF True] ..
      then show ?thesis using True ne by (auto intro!: triple_pass)
    next
      case False
      note r = page_rest [OF assms(2) ne]
      have eq: "set ?keys \<union> keys_of (rows_after ?P (sm_id (last ?page)) rows) =
          set keys \<union> keys_of (rows_after ?P c rows)"
        unfolding set_add_rows keys_of_split [OF r(1)] by blast
      have "length (rows_after ?P (sm_id (last ?page)) rows) < n" using r(2) Suc.prems by linarith
      from Suc.IH [OF this, of ?keys] show ?thesis
        unfolding eq using False ne by simp
    qed
  qed
  have step: "triple (\<lambda>w. reads_smg I rows w \<and> x = ?page)
      (if x = [] then pass keys
       else let keys1 = foldl (\<lambda>ks r. foldl set_add ks (row_keys r)) keys x
            in if length x < trace_page_size then pass keys1
               else month_keys_loop n m (sm_id (last x)) keys1) ?Q I" for x
  proof (cases "x = ?page")
    case True
    show ?thesis unfolding True Let_def
      by (rule triple_weaken [OF rest]) (simp_all only: simp_thms)
  qed (simp only: triple_def simp_thms)
  have "triple (reads_smg I rows)
      (and_then (trace_page ?P c) (\<lambda>x. if x = [] then pass keys
         else let keys1 = foldl (\<lambda>ks r. foldl set_add ks (row_keys r)) keys x
              in if length x < trace_page_size then pass keys1
                 else month_keys_loop n m (sm_id (last x)) keys1)) ?Q I"
    by (rule triple_and_then [OF triple_trace_page [OF assms(1)] step])
  then show ?case by (simp add: triple_def)
qed simp

lemma set_filter_unlisted: "set (filter (\<lambda>k. \<not> list_ex (\<lambda>r. k \<in> set (row_keys r)) rs) keys) = set keys - keys_of rs"
  by (auto simp: keys_of_def list_ex_iff)

lemma triple_other_keys:
  assumes "calm I" and "distinct (map sm_id rows)"
  shows "length (rows_after (smg_outside_month m) c rows) < n \<Longrightarrow>
    triple (reads_smg I rows) (other_keys_loop n m c keys)
      (\<lambda>ks w. reads_smg I rows w \<and> set ks = set keys - keys_of (rows_after (smg_outside_month m) c rows)) I"
proof (induction n arbitrary: c keys)
  case (Suc n)
  let ?P = "smg_outside_month m"
  let ?page = "page_rows ?P c rows"
  let ?keys = "filter (\<lambda>k. \<not> list_ex (\<lambda>r. k \<in> set (row_keys r)) ?page) keys"
  let ?Q = "\<lambda>ks w. reads_smg I rows w \<and> set ks = set keys - keys_of (rows_after ?P c rows)"
  have rest: "triple (reads_smg I rows)
      (if ?page = [] then pass keys
       else if length ?page < trace_page_size then pass ?keys
       else other_keys_loop n m (sm_id (last ?page)) ?keys) ?Q I"
  proof (cases "?page = []")
    case True
    have "rows_after ?P c rows = []" using True by (rule page_none)
    then show ?thesis using True by (auto intro: triple_pass simp: keys_of_def)
  next
    case ne: False
    show ?thesis
    proof (cases "length ?page < trace_page_size")
      case True
      have eq: "set ?keys = set keys - keys_of (rows_after ?P c rows)"
        unfolding set_filter_unlisted keys_of_def page_all [OF True] ..
      show ?thesis unfolding if_not_P [OF ne] if_P [OF True]
        by (rule triple_pass) (simp only: eq simp_thms)
    next
      case False
      note r = page_rest [OF assms(2) ne]
      have eq: "set ?keys - keys_of (rows_after ?P (sm_id (last ?page)) rows) =
          set keys - keys_of (rows_after ?P c rows)"
        unfolding set_filter_unlisted keys_of_split [OF r(1)] by blast
      have "length (rows_after ?P (sm_id (last ?page)) rows) < n" using r(2) Suc.prems by linarith
      from Suc.IH [OF this, of ?keys] show ?thesis
        unfolding eq if_not_P [OF ne] if_not_P [OF False] .
    qed
  qed
  have step: "triple (\<lambda>w. reads_smg I rows w \<and> x = ?page)
      (if x = [] then pass keys
       else let keys1 = filter (\<lambda>k. \<not> list_ex (\<lambda>r. k \<in> set (row_keys r)) x) keys
            in if length x < trace_page_size then pass keys1
               else other_keys_loop n m (sm_id (last x)) keys1) ?Q I" for x
  proof (cases "x = ?page")
    case True
    show ?thesis unfolding True Let_def
      by (rule triple_weaken [OF rest]) (simp_all only: simp_thms)
  qed (simp only: triple_def simp_thms)
  have "triple (reads_smg I rows)
      (and_then (trace_page ?P c) (\<lambda>x. if x = [] then pass keys
         else let keys1 = filter (\<lambda>k. \<not> list_ex (\<lambda>r. k \<in> set (row_keys r)) x) keys
              in if length x < trace_page_size then pass keys1
                 else other_keys_loop n m (sm_id (last x)) keys1)) ?Q I"
    by (rule triple_and_then [OF triple_trace_page [OF assms(1)] step])
  then have loop: "keys \<noteq> [] \<Longrightarrow> triple (reads_smg I rows) (other_keys_loop (Suc n) m c keys) ?Q I"
    by (simp add: triple_def)
  show ?case
  proof (cases "keys = []")
    case True
    then show ?thesis by (simp add: triple_def pass_def)
  qed (rule loop)
qed simp

text \<open>The rows of a table with ids: no two are the same and none is empty.\<close>

definition ids_ok :: "smg_row list \<Rightarrow> bool" where
  "ids_ok rows \<longleftrightarrow> distinct (map sm_id rows) \<and> [] \<notin> sm_id ` set rows"

definition month_tags :: "cdr_month \<Rightarrow> smg_row list \<Rightarrow> string set" where
  "month_tags m rows = keys_of (filter (smg_in_month m) rows)"

definition other_tags :: "cdr_month \<Rightarrow> smg_row list \<Rightarrow> string set" where
  "other_tags m rows = keys_of (filter (smg_outside_month m) rows)"

lemma outside_iff: "smg_outside_month m r \<longleftrightarrow> \<not> smg_in_month m r"
  by (auto simp: smg_outside_month_def smg_in_month_def split: prod.splits)

lemma rows_after_Nil:
  assumes "[] \<notin> sm_id ` set rows"
  shows "rows_after P [] rows = filter P rows"
proof (rule filter_cong [OF refl])
  fix r assume "r \<in> set rows"
  then have "sm_id r \<noteq> []" using assms by (metis imageI)
  then show "(P r \<and> [] < sm_id r) = P r" by (cases "sm_id r") simp_all
qed

lemma triple_collect_keys:
  assumes "calm I" and "ids_ok rows"
  shows "triple (reads_smg I rows) (collect_month_trace_keys m)
    (\<lambda>ks w. reads_smg I rows w \<and> set ks = month_tags m rows - other_tags m rows) I"
proof -
  have d: "distinct (map sm_id rows)" and e: "[] \<notin> sm_id ` set rows" using assms(2) by (simp_all add: ids_ok_def)
  let ?b = "Suc (length rows)"
  let ?Q = "\<lambda>ks w. reads_smg I rows w \<and> set ks = month_tags m rows - other_tags m rows"
  have len: "length (rows_after P [] rows) < ?b" for P
    by (simp add: le_imp_less_Suc)
  have first: "triple (reads_smg I rows) (month_keys_loop ?b m [] [])
      (\<lambda>ks w. reads_smg I rows w \<and> set ks = month_tags m rows) I"
    by (rule triple_weaken [OF triple_month_keys [OF assms(1) d len]])
      (auto simp: rows_after_Nil [OF e] month_tags_def)
  have second: "triple (\<lambda>w. reads_smg I rows w \<and> set x = month_tags m rows)
      (if x = [] then pass [] else other_keys_loop ?b m [] x) ?Q I" for x
  proof (cases "set x = month_tags m rows")
    case True
    have "triple (reads_smg I rows) (other_keys_loop ?b m [] x) ?Q I"
      by (rule triple_weaken [OF triple_other_keys [OF assms(1) d len]])
        (auto simp: rows_after_Nil [OF e] other_tags_def True)
    then show ?thesis using True by (auto simp: triple_def pass_def)
  qed (simp only: triple_def simp_thms)
  have "triple (reads_smg I rows)
      (and_then (month_keys_loop ?b m [] []) (\<lambda>keys. if keys = [] then pass [] else other_keys_loop ?b m [] keys)) ?Q I"
    by (rule triple_and_then [OF first second])
  then show ?thesis
    by (auto simp: triple_def collect_month_trace_keys_def Let_def reads_smg_def)
qed

section \<open>What a purge of a month may change\<close>

text \<open>
  \<open>trimmed P rows1 rows\<close>: some rows with \<open>P\<close> went, and nothing else. A predicate is \<open>steady\<close> for a
  month, a job row and a set of tags when the steps after the calls keep it: notes, counts of the
  stages, the publication in the job row, rows of the month leaving, cards outside the tags
  leaving.
\<close>

definition trimmed :: "('a \<Rightarrow> bool) \<Rightarrow> 'a list \<Rightarrow> 'a list \<Rightarrow> bool" where
  "trimmed P rows1 rows \<longleftrightarrow>
     subseq rows1 rows \<and> filter (\<lambda>r. \<not> P r) rows1 = filter (\<lambda>r. \<not> P r) rows"

lemma trimmed_set: "trimmed P rows1 rows \<Longrightarrow> set rows1 \<subseteq> set rows"
  by (auto simp: trimmed_def elim: list_emb_set)

lemma trimmed_length: "trimmed P rows1 rows \<Longrightarrow> length rows1 \<le> length rows"
  by (auto simp: trimmed_def intro: list_emb_length)

lemma trimmed_delete: "delete_some n P rs = (k, rs1) \<Longrightarrow> trimmed P rs1 rs"
  by (simp add: trimmed_def delete_some_subseq delete_some_others)

definition publish_in :: "string \<Rightarrow> string \<Rightarrow> stage \<Rightarrow> purge_world \<Rightarrow> purge_world" where
  "publish_in rid month phase w =
     w\<lparr>pw_runs := map (\<lambda>r. if run_id r = rid
        then set_progress (sc_done (pw_stages w Stage_calls)) (progress_meta month phase (pw_stages w)) r
        else r) (pw_runs w)\<rparr>"

definition without_dir :: "cdr_month \<Rightarrow> string \<Rightarrow> syslog_dir list \<Rightarrow> syslog_dir list" where
  "without_dir m ip dirs =
     filter (\<lambda>d. \<not> (sd_ip d = ip \<and> sd_year d = cm_year m \<and> sd_month d = cm_month m)) dirs"

definition steady :: "cdr_month \<Rightarrow> string \<Rightarrow> string set \<Rightarrow> (purge_world \<Rightarrow> bool) \<Rightarrow> bool" where
  "steady m rid tags I \<longleftrightarrow>
     calm I
     \<and> (\<forall>w n. I w \<longrightarrow> I (w\<lparr>pw_slot := note_purge_batch_committed n (pw_slot w)\<rparr>))
     \<and> (\<forall>w s c. I w \<longrightarrow> s \<noteq> Stage_calls \<longrightarrow> I (w\<lparr>pw_stages := (pw_stages w)(s := c)\<rparr>))
     \<and> (\<forall>w phase. I w \<longrightarrow> I (publish_in rid (cm_key m) phase w))
     \<and> (\<forall>w rows. I w \<longrightarrow> trimmed (logged_in_month m) rows (pw_journal w) \<longrightarrow> I (w\<lparr>pw_journal := rows\<rparr>))
     \<and> (\<forall>w rows. I w \<longrightarrow> trimmed (smg_in_month m) rows (pw_smg w) \<longrightarrow> I (w\<lparr>pw_smg := rows\<rparr>))
     \<and> (\<forall>w rows. I w \<longrightarrow> trimmed (run_in_month m rid) rows (pw_runs w) \<longrightarrow> I (w\<lparr>pw_runs := rows\<rparr>))
     \<and> (\<forall>w rows. I w \<longrightarrow> trimmed (audit_in_month m) rows (pw_audit w) \<longrightarrow> I (w\<lparr>pw_audit := rows\<rparr>))
     \<and> (\<forall>w keys. I w \<longrightarrow> set keys \<inter> tags = {} \<longrightarrow>
            I (w\<lparr>pw_cards := filter (\<lambda>c. cd_tag c \<notin> set keys) (pw_cards w)\<rparr>))
     \<and> (\<forall>w ip. I w \<longrightarrow>
            I (w\<lparr>pw_syslog := without_dir m ip (pw_syslog w)\<rparr>))"

lemma steady_calm: "steady m rid tags I \<Longrightarrow> calm I"
  by (simp add: steady_def)

lemma steady_steps:
  assumes "steady m rid tags I" and "I w"
  shows "I (w\<lparr>pw_slot := note_purge_batch_committed n (pw_slot w)\<rparr>)"
    and "s \<noteq> Stage_calls \<Longrightarrow> I (w\<lparr>pw_stages := (pw_stages w)(s := c)\<rparr>)"
    and "I (publish_in rid (cm_key m) phase w)"
    and "trimmed (logged_in_month m) jrows (pw_journal w) \<Longrightarrow> I (w\<lparr>pw_journal := jrows\<rparr>)"
    and "trimmed (smg_in_month m) srows (pw_smg w) \<Longrightarrow> I (w\<lparr>pw_smg := srows\<rparr>)"
    and "trimmed (run_in_month m rid) rrows (pw_runs w) \<Longrightarrow> I (w\<lparr>pw_runs := rrows\<rparr>)"
    and "trimmed (audit_in_month m) arows (pw_audit w) \<Longrightarrow> I (w\<lparr>pw_audit := arows\<rparr>)"
    and "set keys \<inter> tags = {} \<Longrightarrow> I (w\<lparr>pw_cards := filter (\<lambda>c. cd_tag c \<notin> set keys) (pw_cards w)\<rparr>)"
    and "I (w\<lparr>pw_syslog := without_dir m ip (pw_syslog w)\<rparr>)"
  using assms unfolding steady_def by simp_all

lemma steadyI:
  assumes "calm I"
    and "\<And>w n. I w \<Longrightarrow> I (w\<lparr>pw_slot := note_purge_batch_committed n (pw_slot w)\<rparr>)"
    and "\<And>w s c. I w \<Longrightarrow> s \<noteq> Stage_calls \<Longrightarrow> I (w\<lparr>pw_stages := (pw_stages w)(s := c)\<rparr>)"
    and "\<And>w phase. I w \<Longrightarrow> I (publish_in rid (cm_key m) phase w)"
    and "\<And>w rows. I w \<Longrightarrow> trimmed (logged_in_month m) rows (pw_journal w) \<Longrightarrow> I (w\<lparr>pw_journal := rows\<rparr>)"
    and "\<And>w rows. I w \<Longrightarrow> trimmed (smg_in_month m) rows (pw_smg w) \<Longrightarrow> I (w\<lparr>pw_smg := rows\<rparr>)"
    and "\<And>w rows. I w \<Longrightarrow> trimmed (run_in_month m rid) rows (pw_runs w) \<Longrightarrow> I (w\<lparr>pw_runs := rows\<rparr>)"
    and "\<And>w rows. I w \<Longrightarrow> trimmed (audit_in_month m) rows (pw_audit w) \<Longrightarrow> I (w\<lparr>pw_audit := rows\<rparr>)"
    and "\<And>w keys. I w \<Longrightarrow> set keys \<inter> tags = {} \<Longrightarrow>
            I (w\<lparr>pw_cards := filter (\<lambda>c. cd_tag c \<notin> set keys) (pw_cards w)\<rparr>)"
    and "\<And>w ip. I w \<Longrightarrow>
            I (w\<lparr>pw_syslog := without_dir m ip (pw_syslog w)\<rparr>)"
  shows "steady m rid tags I"
  unfolding steady_def
  by (intro conjI allI impI, rule assms(1), erule assms(2), erule (1) assms(3), erule assms(4),
      erule (1) assms(5), erule (1) assms(6), erule (1) assms(7), erule (1) assms(8),
      erule (1) assms(9), erule assms(10))

lemma steady_conj:
  assumes "steady m rid tags I" and "steady m rid tags J"
  shows "steady m rid tags (\<lambda>w. I w \<and> J w)"
  by (rule steadyI)
    (simp_all add: calm_conj [OF assms [THEN steady_calm]] steady_steps [OF assms(1)] steady_steps [OF assms(2)])

lemma rows_left_steps:
  "trimmed P1 jrows (pw_journal w) \<Longrightarrow> rows_left (w\<lparr>pw_journal := jrows\<rparr>) \<le> rows_left w"
  "trimmed P2 srows (pw_smg w) \<Longrightarrow> rows_left (w\<lparr>pw_smg := srows\<rparr>) \<le> rows_left w"
  "trimmed P3 rrows (pw_runs w) \<Longrightarrow> rows_left (w\<lparr>pw_runs := rrows\<rparr>) \<le> rows_left w"
  "trimmed P4 arows (pw_audit w) \<Longrightarrow> rows_left (w\<lparr>pw_audit := arows\<rparr>) \<le> rows_left w"
  by (simp_all add: rows_left_def trimmed_length)

lemma rows_left_same [simp]:
  "rows_left (w\<lparr>pw_slot := sl\<rparr>) = rows_left w"
  "rows_left (w\<lparr>pw_stages := st\<rparr>) = rows_left w"
  "rows_left (w\<lparr>pw_cards := cs\<rparr>) = rows_left w"
  "rows_left (w\<lparr>pw_syslog := sy\<rparr>) = rows_left w"
  "rows_left (w\<lparr>pw_faults := fs\<rparr>) = rows_left w"
  "rows_left (w\<lparr>pw_now := t, pw_ticks := ts\<rparr>) = rows_left w"
  "rows_left (publish_in rid key phase w) = rows_left w"
  by (simp_all add: rows_left_def publish_in_def)

lemma steady_rows_left: "steady m rid tags (\<lambda>w. rows_left w \<le> n)"
  by (rule steadyI) (auto simp: calm_def dest!: rows_left_steps)

lemma steady_rows_less: "steady m rid tags (\<lambda>w. rows_left w < n)"
  by (rule steadyI) (auto simp: calm_def dest!: rows_left_steps)

end
