(* ===== verification/Purge_Walk.thy ===== *)
theory Purge_Walk
  imports Purge_Logic
begin

text \<open>
  The steps of a purge keep every steady predicate, come to an end, and leave nothing of the
  month in the tables they went through.
\<close>

section \<open>Steps\<close>

lemma steady_const: "steady m rid tags (\<lambda>w. c)"
  by (rule steadyI) (simp_all add: calm_def)

lemma triple_note: "steady m rid tags I \<Longrightarrow> triple I (note_batch n) (\<lambda>_. I) E"
  unfolding note_batch_def by (rule triple_change) (rule steady_steps(1))

lemma triple_put_stage: "steady m rid tags I \<Longrightarrow> s \<noteq> Stage_calls \<Longrightarrow> triple I (put_stage s c) (\<lambda>_. I) E"
  unfolding put_stage_def by (rule triple_change) (rule steady_steps(2))

lemma triple_put_done: "steady m rid tags I \<Longrightarrow> s \<noteq> Stage_calls \<Longrightarrow> triple I (put_done s n) (\<lambda>_. I) E"
  unfolding put_done_def set_done_def by (rule triple_change) (rule steady_steps(2))

lemma triple_publish:
  assumes "steady m rid tags I"
  shows "triple I (publish_purge_progress rid (cm_key m) phase) (\<lambda>_. I) I"
proof -
  have "case publish_purge_progress rid (cm_key m) phase w of (Done x, w1) \<Rightarrow> I w1
      | (Thrown e, w1) \<Rightarrow> I w1 | (Killed, w1) \<Rightarrow> I w1 | (Stuck, w1) \<Rightarrow> False" if "I w" for w
  proof -
    let ?st = "pw_stages w"
    let ?f = "set_progress (sc_done (?st Stage_calls)) (progress_meta (cm_key m) phase ?st)"
    let ?P = "\<lambda>v. I v \<and> pw_stages v = ?st"
    have "calm ?P" using steady_calm [OF assms] by (simp add: calm_def)
    moreover have "triple ?P (update_run rid ?f) (\<lambda>_. I) I"
    proof -
      have "I (v\<lparr>pw_runs := map (\<lambda>r. if run_id r = rid then ?f r else r) (pw_runs v)\<rparr>)" if "?P v" for v
      proof -
        have st: "pw_stages v = ?st" and iv: "I v" using that by simp_all
        show ?thesis using steady_steps(3) [OF assms iv, of phase] unfolding publish_in_def st .
      qed
      then show ?thesis by (simp add: triple_def update_run_def throw_def)
    qed
    ultimately have "triple ?P (db (update_run rid ?f)) (\<lambda>_. I) I"
      by (rule triple_db) simp
    then show ?thesis using that by (simp add: triple_def publish_purge_progress_def)
  qed
  then show ?thesis by (simp add: triple_def)
qed

lemma triple_done_then_publish:
  assumes "steady m rid tags I" and "s \<noteq> Stage_calls"
  shows "triple I (done_then_publish rid m s n) (\<lambda>_. I) I"
  unfolding done_then_publish_def
  by (rule triple_and_then [OF triple_put_done [OF assms] triple_publish [OF assms(1)]])

lemma triple_cards_progress:
  assumes "steady m rid tags I"
  shows "triple I (cards_progress rid m cards delays) (\<lambda>_. I) I"
  unfolding cards_progress_def
  by (rule triple_and_then, rule triple_if, rule triple_note [OF assms], rule triple_pass, assumption,
      rule triple_and_then, rule triple_put_done [OF assms], simp,
      rule triple_and_then, rule triple_put_done [OF assms], simp, rule triple_publish [OF assms])

lemma triple_syslog_progress:
  assumes "steady m rid tags I"
  shows "triple I (syslog_progress rid m fin expected held) (\<lambda>_. I) I"
  unfolding syslog_progress_def
  by (rule triple_and_then, rule triple_if, rule triple_note [OF assms], rule triple_pass, assumption,
      rule triple_and_then, rule triple_put_stage [OF assms], simp, rule triple_publish [OF assms])

section \<open>The deleting loops\<close>

lemma triple_delete_loop:
  assumes st: "steady m rid tags I"
    and guard: "\<And>J. calm J \<Longrightarrow> triple J guard (\<lambda>_. J) J"
    and batch: "\<And>n. triple (\<lambda>w. I w \<and> rows_left w \<le> n) batch
                  (\<lambda>k w. I w \<and> (if k \<le> 0 then Q w else rows_left w < n)) I"
    and prog: "\<And>J k. steady m rid tags J \<Longrightarrow> triple J (on_progress k) (\<lambda>_. J) J"
  shows "triple I (while_rows (delete_turn guard batch on_progress)) (\<lambda>_ w. I w \<and> Q w) I"
proof (rule triple_while_rows [where I = "\<lambda>_. I"])
  fix k :: int and n :: nat
  let ?P = "\<lambda>w. I w \<and> rows_left w \<le> n"
  let ?L = "\<lambda>w. I w \<and> rows_left w < n"
  have cP: "calm ?P" by (rule steady_calm [OF steady_conj [OF st steady_rows_left]])
  have sL: "steady m rid tags ?L" by (rule steady_conj [OF st steady_rows_less])
  have g: "triple ?P guard (\<lambda>_. ?P) I"
    by (rule triple_weaken [OF guard [OF cP]]) simp_all
  have b: "triple ?P (db batch) (\<lambda>k w. I w \<and> (if k \<le> 0 then Q w else rows_left w < n)) I"
    by (rule triple_db [OF cP batch]) simp
  have go: "triple ?L (and_then (note_batch x) (\<lambda>_. and_then (on_progress (k + x)) (\<lambda>_. pass (Some (k + x)))))
      (\<lambda>r w. case r of Some k1 \<Rightarrow> I w \<and> rows_left w < n | None \<Rightarrow> I w \<and> Q w) I" for x
  proof -
    have p: "triple ?L (on_progress (k + x)) (\<lambda>_. ?L) I"
      by (rule triple_weaken [OF prog [OF sL]]) simp_all
    have q: "triple ?L (pass (Some (k + x)))
        (\<lambda>r w. case r of Some k1 \<Rightarrow> I w \<and> rows_left w < n | None \<Rightarrow> I w \<and> Q w) I"
      by (rule triple_pass) simp
    show ?thesis by (rule triple_and_then [OF triple_note [OF sL] triple_and_then [OF p q]])
  qed
  have rest: "triple (\<lambda>w. I w \<and> (if x \<le> 0 then Q w else rows_left w < n))
      (if x \<le> 0 then pass None
       else and_then (note_batch x) (\<lambda>_. and_then (on_progress (k + x)) (\<lambda>_. pass (Some (k + x)))))
      (\<lambda>r w. case r of Some k1 \<Rightarrow> I w \<and> rows_left w < n | None \<Rightarrow> I w \<and> Q w) I" for x
    using go [of x] by (cases "x \<le> 0") (auto intro: triple_pass)
  show "triple ?P (delete_turn guard batch on_progress k)
      (\<lambda>r w. case r of Some k1 \<Rightarrow> I w \<and> rows_left w < n | None \<Rightarrow> I w \<and> Q w) I"
    unfolding delete_turn_def
    by (rule triple_and_then [OF g triple_and_then [OF b rest]])
qed

lemma batch_size_pos: "0 < cdr_purge_batch_size"
  by (simp add: cdr_purge_batch_size_def)

lemma triple_pass_guard: "triple J (pass ()) (\<lambda>_. J) J"
  by (rule triple_pass)

text \<open>One deleting statement, for any table: \<open>get\<close> reads it and \<open>put\<close> writes it.\<close>

lemma triple_delete_batch:
  assumes batch: "\<And>w. batch w =
        (case delete_some cdr_purge_batch_size P (get w) of (k, rows) \<Rightarrow> (Done (int k), put rows w))"
    and keep: "\<And>w rows. I w \<Longrightarrow> trimmed P rows (get w) \<Longrightarrow> I (put rows w)"
    and get_put: "\<And>w rows. get (put rows w) = rows"
    and count: "\<And>w rows. rows_left (put rows w) + length (get w) = rows_left w + length rows"
  shows "triple (\<lambda>w. I w \<and> rows_left w \<le> n) batch
    (\<lambda>k w. I w \<and> (if k \<le> 0 then filter P (get w) = [] else rows_left w < n)) E"
proof -
  have "I (put rows w) \<and> (if int k \<le> 0 then filter P rows = [] else rows_left (put rows w) < n)"
    if "I w" "rows_left w \<le> n" and d: "delete_some cdr_purge_batch_size P (get w) = (k, rows)" for w k rows
  proof
    show "I (put rows w)" by (rule keep [OF that(1) trimmed_delete [OF d]])
    show "if int k \<le> 0 then filter P rows = [] else rows_left (put rows w) < n"
      using delete_some_length [OF d] delete_some_none [of _ P "get w" rows] d batch_size_pos count [of rows w]
        that(2) by (cases k) auto
  qed
  then show ?thesis by (auto simp: triple_def batch get_put split: prod.splits)
qed

lemmas table_batches = purge_journal_batch_def purge_smg_batch_def purge_jobs_batch_def purge_audit_batch_def

lemma journal_batch:
  assumes "steady m rid tags I"
  shows "triple (\<lambda>w. I w \<and> rows_left w \<le> n) (purge_journal_batch m)
    (\<lambda>k w. I w \<and> (if k \<le> 0 then filter (logged_in_month m) (pw_journal w) = [] else rows_left w < n)) I"
  by (rule triple_delete_batch [where put = "\<lambda>rows w. w\<lparr>pw_journal := rows\<rparr>"])
    (simp_all add: table_batches steady_steps [OF assms] rows_left_def)

lemma smg_batch:
  assumes "steady m rid tags I"
  shows "triple (\<lambda>w. I w \<and> rows_left w \<le> n) (purge_smg_batch m)
    (\<lambda>k w. I w \<and> (if k \<le> 0 then filter (smg_in_month m) (pw_smg w) = [] else rows_left w < n)) I"
  by (rule triple_delete_batch [where put = "\<lambda>rows w. w\<lparr>pw_smg := rows\<rparr>"])
    (simp_all add: table_batches steady_steps [OF assms] rows_left_def)

lemma jobs_batch:
  assumes "steady m rid tags I"
  shows "triple (\<lambda>w. I w \<and> rows_left w \<le> n) (purge_jobs_batch m rid)
    (\<lambda>k w. I w \<and> (if k \<le> 0 then filter (run_in_month m rid) (pw_runs w) = [] else rows_left w < n)) I"
  by (rule triple_delete_batch [where put = "\<lambda>rows w. w\<lparr>pw_runs := rows\<rparr>"])
    (simp_all add: table_batches steady_steps [OF assms] rows_left_def)

lemma audit_batch:
  assumes "steady m rid tags I"
  shows "triple (\<lambda>w. I w \<and> rows_left w \<le> n) (purge_audit_batch m)
    (\<lambda>k w. I w \<and> (if k \<le> 0 then filter (audit_in_month m) (pw_audit w) = [] else rows_left w < n)) I"
  by (rule triple_delete_batch [where put = "\<lambda>rows w. w\<lparr>pw_audit := rows\<rparr>"])
    (simp_all add: table_batches steady_steps [OF assms] rows_left_def)

section \<open>Tables of the month\<close>

abbreviation no_journal :: "cdr_month \<Rightarrow> purge_world \<Rightarrow> bool" where
  "no_journal m w \<equiv> filter (logged_in_month m) (pw_journal w) = []"

abbreviation no_smg :: "cdr_month \<Rightarrow> purge_world \<Rightarrow> bool" where
  "no_smg m w \<equiv> filter (smg_in_month m) (pw_smg w) = []"

abbreviation no_runs :: "cdr_month \<Rightarrow> string \<Rightarrow> purge_world \<Rightarrow> bool" where
  "no_runs m rid w \<equiv> filter (run_in_month m rid) (pw_runs w) = []"

abbreviation no_calls :: "cdr_month \<Rightarrow> purge_world \<Rightarrow> bool" where
  "no_calls m w \<equiv> filter (call_in_month m) (pw_calls w) = []"

abbreviation no_cards :: "string set \<Rightarrow> purge_world \<Rightarrow> bool" where
  "no_cards keys w \<equiv> filter (\<lambda>c. cd_tag c \<in> keys) (pw_cards w) = []"

abbreviation no_syslog :: "cdr_month \<Rightarrow> purge_world \<Rightarrow> bool" where
  "no_syslog m w \<equiv> list_syslog_month_targets m (pw_syslog w) = []"

lemma run_in_month_progress [simp]: "run_in_month m keep (set_progress n meta r) = run_in_month m keep r"
  by (simp add: run_in_month_def set_progress_def)

lemma trimmed_none: "trimmed P rows1 rows \<Longrightarrow> filter Q rows = [] \<Longrightarrow> filter Q rows1 = []"
  using trimmed_set by (fastforce simp: filter_empty_conv)

lemma steady_no_journal: "steady m rid tags (no_journal m)"
  by (rule steadyI) (auto simp: calm_def publish_in_def simp del: filter_empty_conv intro: trimmed_none)

lemma steady_no_smg: "steady m rid tags (no_smg m)"
  by (rule steadyI) (auto simp: calm_def publish_in_def simp del: filter_empty_conv intro: trimmed_none)

lemma steady_no_calls: "steady m rid tags (no_calls m)"
  by (rule steadyI) (auto simp: calm_def publish_in_def simp del: filter_empty_conv)

lemma steady_no_runs: "steady m rid tags (no_runs m rid)"
proof (rule steadyI)
  fix w phase
  show "no_runs m rid w \<Longrightarrow> no_runs m rid (publish_in rid (cm_key m) phase w)"
    by (auto simp: publish_in_def filter_empty_conv)
qed (auto simp: calm_def simp del: filter_empty_conv intro: trimmed_none)

lemma steady_no_cards: "steady m rid tags (no_cards keys)"
  by (rule steadyI) (auto simp: calm_def publish_in_def filter_empty_conv)

lemma steady_no_syslog: "steady m rid tags (no_syslog m)"
  by (rule steadyI)
    (auto simp: calm_def publish_in_def without_dir_def list_syslog_month_targets_def filter_empty_conv)

section \<open>Readings\<close>

lemma triple_quiet:
  assumes "calm I"
  shows "triple I (count_journal_month m) (\<lambda>_. I) I" and "triple I (count_smg_month m) (\<lambda>_. I) I"
    and "triple I (count_call_month m) (\<lambda>n w. I w) I" and "triple I (count_syslog_files m) (\<lambda>_. I) I"
    and "triple I (count_month_history m keep) (\<lambda>_. I) I"
    and "triple I assert_purge_fk_indexes (\<lambda>_. I) I"
  unfolding count_journal_month_def count_smg_month_def count_call_month_def count_syslog_files_def
    count_month_history_def assert_purge_fk_indexes_def Let_def
  using triple_db_look [OF assms, of I]
  by (blast intro: triple_and_then triple_pass triple_throw triple_if)+

lemma triple_sum_over:
  assumes "\<And>b. triple I (f b) (\<lambda>_. I) I"
  shows "triple I (sum_over f n bs) (\<lambda>_. I) I"
  by (induction bs arbitrary: n) (auto intro: triple_pass triple_and_then assms)

lemma triple_count_cards:
  assumes "calm I"
  shows "triple I (count_trace_cards keys) (\<lambda>_. I) I" and "triple I (count_trace_delays keys) (\<lambda>_. I) I"
  unfolding count_trace_cards_def count_trace_delays_def
  by (rule triple_sum_over, rule triple_db_look [OF assms], assumption)+

section \<open>Journal, SMG rows, history\<close>

lemma triple_journal:
  assumes st: "steady m rid tags I"
  shows "triple (\<lambda>w. I w \<and> (expected \<le> 0 \<longrightarrow> no_journal m w))
      (delete_journal_month m expected (done_then_publish rid m Stage_journal)) (\<lambda>_ w. I w \<and> no_journal m w) I"
proof (cases "expected \<le> 0")
  case True
  then show ?thesis by (auto simp: delete_journal_month_def intro: triple_pass)
next
  case False
  have "triple I (while_rows (delete_turn (not_current m) (purge_journal_batch m)
          (done_then_publish rid m Stage_journal))) (\<lambda>_ w. I w \<and> no_journal m w) I"
    by (rule triple_delete_loop [OF st triple_not_current journal_batch [OF st] triple_done_then_publish])
      simp_all
  then show ?thesis using False by (auto simp: delete_journal_month_def elim: triple_weaken)
qed

lemma triple_smg:
  assumes st: "steady m rid tags I"
  shows "triple I (delete_smg_month m (done_then_publish rid m Stage_smg)) (\<lambda>_ w. I w \<and> no_smg m w) I"
  unfolding delete_smg_month_def
  by (rule triple_delete_loop [OF st triple_not_current smg_batch [OF st] triple_done_then_publish]) simp_all

lemma triple_history:
  assumes st: "steady m rid tags I"
  shows "triple I (delete_month_history m rid (publish_purge_progress rid (cm_key m)) (done_then_publish rid m))
    (\<lambda>_ w. I w \<and> no_runs m rid w) I"
proof -
  let ?J = "\<lambda>w. I w \<and> no_runs m rid w"
  have sJ: "steady m rid tags ?J" by (rule steady_conj [OF st steady_no_runs])
  have jobs: "triple I (while_rows (delete_turn (pass ()) (purge_jobs_batch m rid) (done_then_publish rid m Stage_jobs)))
      (\<lambda>_. ?J) I"
    by (rule triple_delete_loop [OF st triple_pass_guard jobs_batch [OF st] triple_done_then_publish]) simp_all
  have pub: "triple ?J (publish_purge_progress rid (cm_key m) Stage_audit) (\<lambda>_. ?J) I"
    by (rule triple_weaken [OF triple_publish [OF sJ]]) simp_all
  have audit: "triple ?J (while_rows (delete_turn (pass ()) (purge_audit_batch m) (done_then_publish rid m Stage_audit)))
      (\<lambda>_. ?J) I"
    by (rule triple_weaken [OF triple_delete_loop [OF sJ triple_pass_guard audit_batch [OF sJ] triple_done_then_publish]])
      simp_all
  have last: "triple ?J (pass (a, b)) (\<lambda>_. ?J) I" for a b :: int
    by (rule triple_pass)
  show ?thesis
    unfolding delete_month_history_def
    by (rule triple_and_then [OF triple_publish [OF st] triple_and_then [OF jobs triple_and_then [OF pub
          triple_and_then [OF audit last]]]])
qed

section \<open>Cards\<close>

lemma set_card_batches: "set keys = (\<Union>b\<in>set (card_batches keys). set b)"
proof (induction keys rule: card_batches.induct)
  case (1 keys)
  have "set keys = set (take card_batch keys) \<union> set (drop card_batch keys)"
    by (metis append_take_drop_id set_append)
  then show ?case using 1 card_batches.simps [of keys] by (cases "keys = []") simp_all
qed

lemma triple_delete_card_rows:
  assumes st: "steady m rid tags I" and "set b \<inter> tags = {}"
  shows "triple I (db (delete_card_rows b)) (\<lambda>_ w. I w \<and> no_cards (set b) w) I"
  by (rule triple_db [OF steady_calm [OF st]])
    (use steady_steps(8) [OF st _ assms(2)] in \<open>auto simp: triple_def delete_card_rows_def filter_empty_conv\<close>)

lemma triple_delete_cards:
  assumes st: "steady m rid tags I" and "(\<Union>b\<in>set bs. set b) \<inter> tags = {}"
  shows "triple I (delete_card_batches (cards_progress rid m) n d bs)
    (\<lambda>_ w. I w \<and> no_cards (\<Union>b\<in>set bs. set b) w) I"
  using assms
proof (induction bs arbitrary: I n d)
  case Nil
  then show ?case by (auto intro: triple_pass simp: filter_empty_conv)
next
  case (Cons b bs)
  let ?J = "\<lambda>w. I w \<and> no_cards (set b) w"
  have sJ: "steady m rid tags ?J" by (rule steady_conj [OF Cons.prems(1) steady_no_cards])
  have del: "triple I (db (delete_card_rows b)) (\<lambda>_. ?J) I"
    by (rule triple_delete_card_rows [OF Cons.prems(1)]) (use Cons.prems(2) in auto)
  have prog: "triple ?J (cards_progress rid m n1 d1) (\<lambda>_. ?J) I" for n1 d1
    by (rule triple_weaken [OF triple_cards_progress [OF sJ]]) simp_all
  have rest: "triple ?J (delete_card_batches (cards_progress rid m) n1 d1 bs)
      (\<lambda>_ w. I w \<and> no_cards (\<Union>b\<in>set (b # bs). set b) w) I" for n1 d1
    by (rule triple_weaken [OF Cons.IH [OF sJ]]) (use Cons.prems(2) in \<open>auto simp: filter_empty_conv\<close>)
  show ?case
    unfolding delete_card_batches.simps Let_def
    by (rule triple_and_then [OF del triple_and_then [OF prog rest]])
qed

lemma triple_trace_cards:
  assumes st: "steady m rid tags I" and "set keys \<inter> tags = {}"
  shows "triple I (delete_trace_cards keys (cards_progress rid m)) (\<lambda>_ w. I w \<and> no_cards (set keys) w) I"
  unfolding delete_trace_cards_def
  using triple_delete_cards [OF st, of "card_batches keys" 0 0] assms(2)
  by (simp only: set_card_batches [of keys, symmetric])

section \<open>Syslog\<close>

lemma triple_remove_entry:
  assumes st: "steady m rid tags I" and "sd_year t = cm_year m" and "sd_month t = cm_month m"
  shows "triple (\<lambda>w. I w \<and> set (list_syslog_month_targets m (pw_syslog w)) \<subseteq> set (t # ts))
    (db (remove_month_entry t)) (\<lambda>_ w. I w \<and> set (list_syslog_month_targets m (pw_syslog w)) \<subseteq> set ts) I"
proof -
  let ?P = "\<lambda>w. I w \<and> set (list_syslog_month_targets m (pw_syslog w)) \<subseteq> set (t # ts)"
  have eff: "filter (\<lambda>d. \<not> (sd_ip d = sd_ip t \<and> sd_year d = sd_year t \<and> sd_month d = sd_month t)) dirs =
      without_dir m (sd_ip t) dirs" for dirs
    by (simp add: without_dir_def assms(2,3))
  have gone: "t \<notin> set (list_syslog_month_targets m (without_dir m (sd_ip t) dirs))"
    and sub: "set (list_syslog_month_targets m (without_dir m ip dirs)) \<subseteq> set (list_syslog_month_targets m dirs)" for dirs ip
    using assms(2,3) by (auto simp: list_syslog_month_targets_def without_dir_def)
  have "calm ?P" using steady_calm [OF st] by (simp add: calm_def)
  moreover have "triple ?P (remove_month_entry t)
      (\<lambda>_ w. I w \<and> set (list_syslog_month_targets m (pw_syslog w)) \<subseteq> set ts) I"
    unfolding remove_month_entry_def eff
    by (rule triple_change) (use gone sub steady_steps(9) [OF st] in \<open>fastforce simp: subset_iff\<close>)
  ultimately show ?thesis by (rule triple_db) simp
qed

lemma steady_targets: "steady m rid tags (\<lambda>w. set (list_syslog_month_targets m (pw_syslog w)) \<subseteq> S)"
  by (rule steadyI) (auto simp: calm_def publish_in_def without_dir_def list_syslog_month_targets_def)

lemma triple_remove_targets:
  assumes st: "steady m rid tags I" and "list_all (\<lambda>t. sd_year t = cm_year m \<and> sd_month t = cm_month m) ts"
  shows "triple (\<lambda>w. I w \<and> set (list_syslog_month_targets m (pw_syslog w)) \<subseteq> set ts)
    (remove_targets (syslog_progress rid m) expected n ts) (\<lambda>_ w. I w \<and> no_syslog m w) I"
  using assms(2)
proof (induction ts arbitrary: n)
  case Nil
  show ?case by (auto intro: triple_pass)
next
  case (Cons t ts)
  let ?J = "\<lambda>w. I w \<and> set (list_syslog_month_targets m (pw_syslog w)) \<subseteq> set ts"
  have sJ: "steady m rid tags ?J" by (rule steady_conj [OF st steady_targets])
  have prog: "triple ?J (syslog_progress rid m f e True) (\<lambda>_. ?J) I" for f e
    by (rule triple_weaken [OF triple_syslog_progress [OF sJ]]) simp_all
  show ?case
    unfolding remove_targets.simps
    by (rule triple_and_then [OF triple_remove_entry [OF st] triple_and_then [OF prog Cons.IH]])
      (use Cons.prems in simp_all)
qed

lemma triple_syslog:
  assumes st: "steady m rid tags I"
  shows "triple I (delete_syslog_month m now (syslog_progress rid m)) (\<lambda>_ w. I w \<and> no_syslog m w) I"
proof -
  let ?T = "\<lambda>ts w. I w \<and> set (list_syslog_month_targets m (pw_syslog w)) \<subseteq> set ts
      \<and> list_all (\<lambda>t. sd_year t = cm_year m \<and> sd_month t = cm_month m) ts"
  let ?N = "\<lambda>w. I w \<and> no_syslog m w"
  have sN: "steady m rid tags ?N" by (rule steady_conj [OF st steady_no_syslog])
  have list: "triple I (db (look (\<lambda>w. list_syslog_month_targets m (pw_syslog w)))) ?T I"
    by (rule triple_db [OF steady_calm [OF st]])
      (auto intro!: triple_look simp: list_syslog_month_targets_def list_all_iff)
  have first: "triple (?T ts) (if 0 < x then syslog_progress rid m 0 x False else pass ()) (\<lambda>_. ?T ts) I" for ts x
  proof -
    have s: "steady m rid tags (?T ts)"
      by (rule steady_conj [OF st steady_conj [OF steady_targets steady_const]])
    show ?thesis
      by (rule triple_if, rule triple_weaken [OF triple_syslog_progress [OF s]]) (auto intro: triple_pass)
  qed
  have rem: "triple (?T ts) (remove_targets (syslog_progress rid m) x 0 ts) (\<lambda>_. ?N) I" for ts x
  proof (cases "list_all (\<lambda>t. sd_year t = cm_year m \<and> sd_month t = cm_month m) ts")
    case True
    show ?thesis by (rule triple_weaken [OF triple_remove_targets [OF st True]]) simp_all
  qed (simp add: triple_def)
  have last: "triple ?N (if (x::int) = 0 then syslog_progress rid m 0 0 False else pass ()) (\<lambda>_. ?N) I" for x
    by (rule triple_if, rule triple_weaken [OF triple_syslog_progress [OF sN]]) (auto intro: triple_pass)
  have ret: "triple ?N (pass (f::int)) (\<lambda>_. ?N) I" for f
    by (rule triple_pass)
  show ?thesis
    unfolding delete_syslog_month_def Let_def
    by (rule triple_if, rule triple_throw, assumption)
      (rule triple_and_then [OF list triple_and_then [OF first triple_and_then [OF rem
          triple_and_then [OF last ret]]]])
qed

section \<open>All that is left of the month\<close>

definition tagged :: "cdr_month \<Rightarrow> string set \<Rightarrow> (purge_world \<Rightarrow> bool) \<Rightarrow> bool" where
  "tagged m tags I \<longleftrightarrow> (\<forall>w. I w \<longrightarrow> ids_ok (pw_smg w) \<and> other_tags m (pw_smg w) = tags)"

lemma tagged_conj: "tagged m tags I \<Longrightarrow> tagged m tags (\<lambda>w. I w \<and> J w)"
  by (simp add: tagged_def)

lemma triple_none: "(\<And>w. \<not> P w) \<Longrightarrow> triple P f Q E"
  by (simp add: triple_def)

lemma triple_each: "(\<And>x. triple (\<lambda>w. P w \<and> g w = x) f Q E) \<Longrightarrow> triple P f Q E"
  by (simp add: triple_def)

lemma triple_collect:
  assumes "calm I" and "tagged m tags I"
  shows "triple I (collect_month_trace_keys m)
    (\<lambda>ks w. I w \<and> set ks = month_tags m (pw_smg w) - tags) I"
proof (rule triple_each [where g = pw_smg])
  fix rows
  show "triple (\<lambda>w. I w \<and> pw_smg w = rows) (collect_month_trace_keys m)
    (\<lambda>ks w. I w \<and> set ks = month_tags m (pw_smg w) - tags) I"
  proof (cases "ids_ok rows \<and> other_tags m rows = tags")
    case True
    then have ok: "ids_ok rows" and ot: "other_tags m rows = tags" by simp_all
    show ?thesis
      by (rule triple_weaken [OF triple_collect_keys [OF assms(1) ok, of m]])
        (simp_all add: reads_smg_def ot)
  next
    case False
    then show ?thesis by (intro triple_none) (use assms(2) in \<open>auto simp: tagged_def\<close>)
  qed
qed

lemma steady_imp: "steady m rid tags J \<Longrightarrow> steady m rid tags (\<lambda>w. c \<longrightarrow> J w)"
  by (cases c) (simp_all add: steady_const)

definition month_gone :: "cdr_month \<Rightarrow> string \<Rightarrow> purge_world \<Rightarrow> bool" where
  "month_gone m rid w \<longleftrightarrow> no_journal m w \<and> no_smg m w \<and> no_syslog m w \<and> no_runs m rid w"

text \<open>The same step under a predicate that says more; failures only keep the first predicate.\<close>

lemma under:
  assumes "triple J f (\<lambda>x w. J w \<and> Q x w) J" and "\<And>w. J w \<Longrightarrow> I w"
  shows "triple J f (\<lambda>x w. J w \<and> Q x w) I"
  by (rule triple_weaken [OF assms(1)]) (simp_all add: assms(2))

lemma under_plain:
  assumes "triple J f (\<lambda>_. J) J" and "\<And>w. J w \<Longrightarrow> I w"
  shows "triple J f (\<lambda>_. J) I"
  by (rule triple_weaken [OF assms(1)]) (simp_all add: assms(2))

lemma triple_month_remainder:
  assumes st: "steady m rid tags I" and tg: "tagged m tags I"
    and keys: "\<And>ks. card_keys = Some ks \<Longrightarrow> set ks \<inter> tags = {}"
  shows "triple I (delete_month_remainder rid m card_keys)
    (\<lambda>_ w. I w \<and> month_gone m rid w \<and> (\<forall>ks. card_keys = Some ks \<longrightarrow> no_cards (set ks) w)) I"
proof -
  let ?A = "\<lambda>n w. I w \<and> (n \<le> (0::int) \<longrightarrow> no_journal m w)"
  let ?B = "\<lambda>w. I w \<and> no_journal m w"
  let ?K = "\<lambda>ks w. ?B w \<and> (set ks \<inter> tags = {} \<and> (\<forall>ks1. card_keys = Some ks1 \<longrightarrow> ks = ks1))"
  let ?C = "\<lambda>ks w. ?B w \<and> no_cards (set ks) w"
  let ?S = "\<lambda>ks w. ?C ks w \<and> no_smg m w"
  let ?Y = "\<lambda>ks w. ?S ks w \<and> no_syslog m w"
  let ?H = "\<lambda>ks w. ?Y ks w \<and> no_runs m rid w"
  let ?ok = "\<lambda>ks. set ks \<inter> tags = {} \<and> (\<forall>ks1. card_keys = Some ks1 \<longrightarrow> ks = ks1)"
  have sA: "steady m rid tags (?A n)" for n by (rule steady_conj [OF st steady_imp [OF steady_no_journal]])
  have sB: "steady m rid tags ?B" by (rule steady_conj [OF st steady_no_journal])
  have sK: "steady m rid tags (?K ks)" for ks
    by (rule steady_conj [OF sB steady_const])
  have sC: "steady m rid tags (?C ks)" for ks by (rule steady_conj [OF sB steady_no_cards])
  have sS: "steady m rid tags (?S ks)" for ks by (rule steady_conj [OF sC steady_no_smg])
  have sY: "steady m rid tags (?Y ks)" for ks by (rule steady_conj [OF sS steady_no_syslog])
  note cK = steady_calm [OF sK]
  have count: "triple I (count_journal_month m) ?A I"
    unfolding count_journal_month_def
    by (rule triple_db [OF steady_calm [OF st]])
      (auto intro!: triple_look simp: count_rows_def simp del: filter_empty_conv)
  have s1: "triple (?A n) (put_stage Stage_journal \<lparr>sc_done = 0, sc_total = n\<rparr>) (\<lambda>_. ?A n) I" for n
    by (rule triple_put_stage [OF sA]) simp
  have s2: "triple (?A n) (publish_purge_progress rid (cm_key m) Stage_journal) (\<lambda>_. ?A n) I" for n
    by (rule under_plain [OF triple_publish [OF sA]]) simp
  have s3: "triple (?A n) (delete_journal_month m n (done_then_publish rid m Stage_journal)) (\<lambda>_. ?B) I" for n
    by (rule triple_journal [OF st])
  have s4: "triple ?B (case card_keys of Some ks \<Rightarrow> pass ks | None \<Rightarrow> collect_month_trace_keys m) ?K I"
  proof (cases card_keys)
    case None
    show ?thesis unfolding None option.case
      by (rule triple_weaken [OF triple_collect [OF steady_calm [OF sB] tagged_conj [OF tg]]]) auto
  next
    case (Some ks)
    show ?thesis unfolding Some option.case by (rule triple_pass) (use keys Some in auto)
  qed
  have s5: "triple (?K ks) (count_trace_cards ks) (\<lambda>_. ?K ks) I"
    and s6: "triple (?K ks) (count_trace_delays ks) (\<lambda>_. ?K ks) I" for ks
    by (rule under_plain [OF triple_count_cards(1) [OF cK]], simp,
        rule under_plain [OF triple_count_cards(2) [OF cK]], simp)
  have s7: "triple (?K ks) (put_stage s c) (\<lambda>_. ?K ks) I" if "s \<noteq> Stage_calls" for ks s c
    by (rule triple_put_stage [OF sK that])
  have s8: "triple (?K ks) (publish_purge_progress rid (cm_key m) Stage_cards) (\<lambda>_. ?K ks) I" for ks
    by (rule under_plain [OF triple_publish [OF sK]]) simp
  have s9: "triple (?K ks) (delete_trace_cards ks (cards_progress rid m))
      (\<lambda>_ w. ?C ks w \<and> ?ok ks) I" for ks
  proof (cases "?ok ks")
    case True
    then have d: "set ks \<inter> tags = {}" by simp
    show ?thesis by (rule triple_weaken [OF triple_trace_cards [OF sB d]]) (use True in simp_all)
  qed (rule triple_none, simp)
  let ?D = "\<lambda>J ks w. J ks w \<and> ?ok ks"
  have sD: "steady m rid tags (?D J ks)" if "steady m rid tags (J ks)" for J ks
    by (rule steady_conj [OF that steady_const])
  have s10: "triple (?D ?C ks) (publish_purge_progress rid (cm_key m) Stage_smg) (\<lambda>_. ?D ?C ks) I" for ks
    by (rule under_plain [OF triple_publish [OF sD [OF sC]]]) simp
  have s11: "triple (?D ?C ks) (delete_smg_month m (done_then_publish rid m Stage_smg)) (\<lambda>_. ?D ?S ks) I" for ks
    by (rule triple_weaken [OF triple_smg [OF sD [OF sC]]]) auto
  have s12: "triple (?D ?S ks) read_clock (\<lambda>_. ?D ?S ks) I" for ks
    by (rule triple_read_clock [OF steady_calm [OF sD [OF sS]]])
  have s13: "triple (?D ?S ks) (delete_syslog_month m now (syslog_progress rid m)) (\<lambda>_. ?D ?Y ks) I" for ks now
    by (rule triple_weaken [OF triple_syslog [OF sD [OF sS]]]) auto
  have s14: "triple (?D ?Y ks) (delete_month_history m rid (publish_purge_progress rid (cm_key m))
      (done_then_publish rid m)) (\<lambda>_. ?D ?H ks) I" for ks
    by (rule triple_weaken [OF triple_history [OF sD [OF sY]]]) auto
  have s15: "triple (?D ?H ks) (pass r)
      (\<lambda>_ w. I w \<and> month_gone m rid w \<and> (\<forall>ks. card_keys = Some ks \<longrightarrow> no_cards (set ks) w)) I"
    for ks and r :: remainder_counts
    by (rule triple_pass) (auto simp: month_gone_def simp del: filter_empty_conv)
  show ?thesis
    unfolding delete_month_remainder_def
    by (rule triple_and_then [OF count], rule triple_and_then [OF s1], rule triple_and_then [OF s2],
        rule triple_and_then [OF s3], rule triple_and_then [OF s4], rule triple_and_then [OF s5],
        rule triple_and_then [OF s6], rule triple_and_then [OF s7], simp, rule triple_and_then [OF s7], simp,
        rule triple_and_then [OF s8], rule triple_and_then [OF s9], rule triple_and_then [OF s10],
        rule triple_and_then [OF s11], rule triple_and_then [OF s12], rule triple_and_then [OF s13],
        rule triple_and_then [OF s14], rule s15)
qed

end
