(* ===== verification/Purge_Contract.thy ===== *)
theory Purge_Contract
  imports Purge_Walk
begin

text \<open>
  The whole run of a purge against an invariant of its client. The locale states what the run
  asks of the invariant, one law for each kind of change, and proves that every end of the run
  keeps it, that the run ends, and that a success leaves nothing of the month.
\<close>

section \<open>The changes of a run\<close>

definition call_written :: "string \<Rightarrow> cdr_month \<Rightarrow> int \<Rightarrow> call_row list \<Rightarrow> purge_world \<Rightarrow> purge_world" where
  "call_written rid m deleted rows w =
     (let stages = set_done Stage_calls deleted (pw_stages w)
      in w\<lparr>pw_calls := rows,
           pw_runs := map (\<lambda>r. if run_id r = rid
                                then set_progress deleted (batch_meta (cm_key m) stages) r else r) (pw_runs w)\<rparr>)"

definition call_noted :: "int \<Rightarrow> int \<Rightarrow> purge_world \<Rightarrow> purge_world" where
  "call_noted batch deleted w =
     w\<lparr>pw_slot := note_purge_batch_committed batch (pw_slot w), pw_deleted := deleted,
       pw_stages := set_done Stage_calls deleted (pw_stages w)\<rparr>"

definition row_finished :: "string \<Rightarrow> int \<Rightarrow> bool \<Rightarrow> purge_result \<Rightarrow> purge_world \<Rightarrow> purge_world" where
  "row_finished rid now history_only r w =
     w\<lparr>pw_runs := map (\<lambda>x. if run_id x = rid then finish_row now history_only r x else x) (pw_runs w)\<rparr>"

definition row_ended :: "string \<Rightarrow> int \<Rightarrow> purge_world \<Rightarrow> purge_world" where
  "row_ended rid now w =
     w\<lparr>pw_runs := fail_job_run_if_still_running now rid orphan_reclaim_message (pw_runs w)\<rparr>"

definition flags_cleared :: "string \<Rightarrow> purge_world \<Rightarrow> purge_world" where
  "flags_cleared month w = w\<lparr>pw_runs := snd (clear_purge_continuation_flags month (pw_runs w))\<rparr>"

definition hold_released :: "string \<Rightarrow> purge_world \<Rightarrow> purge_world" where
  "hold_released key w =
     w\<lparr>pw_slot := set_purge_target_month None (pw_slot w),
       pw_poison := snd (clear_purge_holds key (pw_poison w)),
       pw_smg_poison := snd (clear_smg_purge_holds key (pw_smg_poison w)),
       pw_drains := pw_drains w @ [Cdr_import, Smg_import]\<rparr>"

definition row_begun :: "string \<Rightarrow> int \<Rightarrow> job_input \<Rightarrow> purge_world \<Rightarrow> purge_world" where
  "row_begun rid now input w =
     w\<lparr>pw_runs := pw_runs w @ [started_row rid now input],
       pw_deleted := 0, pw_target_count := 0, pw_remainder := no_remainder\<rparr>"

text \<open>The tags whose cards a run deletes: those of the month and of no other month.\<close>

definition purge_keys :: "cdr_month \<Rightarrow> job_input \<Rightarrow> string set \<Rightarrow> smg_row list \<Rightarrow> string set" where
  "purge_keys m input tags rows = (if ji_history_only input then {} else month_tags m rows - tags)"

definition purged :: "cdr_month \<Rightarrow> string \<Rightarrow> string set \<Rightarrow> purge_world \<Rightarrow> bool" where
  "purged m rid keys w \<longleftrightarrow> no_calls m w \<and> month_gone m rid w \<and> no_cards keys w"

lemma purged_same [simp]:
  "purged m rid keys (w\<lparr>pw_faults := fs\<rparr>) = purged m rid keys w"
  "purged m rid keys (w\<lparr>pw_now := t, pw_ticks := ts\<rparr>) = purged m rid keys w"
  "purged m rid keys (w\<lparr>pw_audit := as\<rparr>) = purged m rid keys w"
  "purged m rid keys (w\<lparr>pw_remainder := rc\<rparr>) = purged m rid keys w"
  by (simp_all add: purged_def month_gone_def)

lemma purged_no_calls: "purged m rid keys w \<Longrightarrow> no_calls m w"
  by (simp add: purged_def)

lemma purged_runs:
  assumes "\<And>r. run_id (f r) = run_id r \<and> run_started (f r) = run_started r"
  shows "purged m rid keys (w\<lparr>pw_runs := map f (pw_runs w)\<rparr>) = purged m rid keys w"
  by (auto simp: purged_def month_gone_def filter_empty_conv run_in_month_def assms split: prod.splits)

lemma purged_finished [simp]: "purged m rid keys (row_finished k now h r w) = purged m rid keys w"
  unfolding row_finished_def by (rule purged_runs) (simp add: finish_row_def)

lemma purged_ended [simp]: "purged m rid keys (row_ended k now w) = purged m rid keys w"
  unfolding row_ended_def fail_job_run_if_still_running_def by (rule purged_runs) simp

lemma purged_swaps [simp]: "purged m rid keys (hold_released key w) = purged m rid keys w"
  by (simp add: purged_def month_gone_def hold_released_def)

text \<open>Clearing the flags changes nothing of a row but its metadata.\<close>

lemma clear_flags_map:
  "\<exists>g. snd (clear_purge_continuation_flags month runs) = map g runs
     \<and> (\<forall>r. (g r)\<lparr>pr_meta := JNull\<rparr> = r\<lparr>pr_meta := JNull\<rparr>)"
proof -
  have "\<exists>g. snd (foldl (\<lambda>(cleared, rs) row.
              if month_from_job row \<noteq> Some month \<or> \<not> continues_delete (pr_meta row) then (cleared, rs)
              else (Suc cleared, set_meta (run_id row) (without_continue_delete (pr_meta row)) rs))
       (c, map h runs) rows) = map g runs \<and> (\<forall>r. (g r)\<lparr>pr_meta := JNull\<rparr> = r\<lparr>pr_meta := JNull\<rparr>)"
    if "\<forall>r. (h r)\<lparr>pr_meta := JNull\<rparr> = r\<lparr>pr_meta := JNull\<rparr>"
    for c :: nat and rows :: "purge_run list" and h :: "purge_run \<Rightarrow> purge_run"
    using that
  proof (induction rows arbitrary: c h)
    case Nil
    then show ?case by auto
  next
    case (Cons row rows)
    let ?h = "\<lambda>r. if run_id (h r) = run_id row then (h r)\<lparr>pr_meta := without_continue_delete (pr_meta row)\<rparr> else h r"
    have "set_meta (run_id row) (without_continue_delete (pr_meta row)) (map h runs) = map ?h runs"
      by (simp add: set_meta_def)
    moreover have "\<forall>r. (?h r)\<lparr>pr_meta := JNull\<rparr> = r\<lparr>pr_meta := JNull\<rparr>" using Cons.prems by simp
    ultimately show ?case using Cons.IH [of h c] Cons.IH [of ?h "Suc c"] Cons.prems by simp
  qed
  from this [of "\<lambda>r. r" 0 "flagged_purges runs"] show ?thesis
    by (simp add: clear_purge_continuation_flags_def)
qed

lemma same_but_meta:
  assumes "a\<lparr>pr_meta := JNull\<rparr> = (b :: purge_run)\<lparr>pr_meta := JNull\<rparr>"
  shows "run_id a = run_id b" and "run_started a = run_started b" and "run_action a = run_action b"
    and "run_status a = run_status b"
  using assms by (cases a; cases b; simp)+

lemma purged_flags [simp]: "purged m rid keys (flags_cleared key w) = purged m rid keys w"
proof -
  obtain g where "snd (clear_purge_continuation_flags key (pw_runs w)) = map g (pw_runs w)"
      and same: "\<forall>r. (g r)\<lparr>pr_meta := JNull\<rparr> = r\<lparr>pr_meta := JNull\<rparr>"
    using clear_flags_map by blast
  moreover have "run_id (g r) = run_id r \<and> run_started (g r) = run_started r" for r
    using same_but_meta(1,2) [OF same [rule_format]] by blast
  ultimately show ?thesis unfolding flags_cleared_def using purged_runs [of g] by simp
qed

lemma publish_in_deleted [simp]: "pw_deleted (publish_in rid month phase w) = pw_deleted w"
  by (simp add: publish_in_def)

lemma triple_publish_once:
  assumes "calm P" and "\<And>w. P w \<Longrightarrow> P (publish_in rid month phase w)" and "\<And>w. P w \<Longrightarrow> E w"
  shows "triple P (publish_purge_progress rid month phase) (\<lambda>_. P) E"
proof (rule triple_each [where g = pw_stages])
  fix st
  let ?f = "set_progress (sc_done (st Stage_calls)) (progress_meta month phase st)"
  let ?P = "\<lambda>v. P v \<and> pw_stages v = st"
  have "triple ?P (update_run rid ?f) (\<lambda>_. P) E"
  proof -
    have "P (v\<lparr>pw_runs := map (\<lambda>r. if run_id r = rid then ?f r else r) (pw_runs v)\<rparr>)" if "?P v" for v
    proof -
      have st: "pw_stages v = st" and pv: "P v" using that by simp_all
      show ?thesis using assms(2) [OF pv] unfolding publish_in_def st .
    qed
    then show ?thesis using assms(3) by (simp add: triple_def update_run_def throw_def)
  qed
  moreover have "calm ?P" using assms(1) by (simp add: calm_def)
  ultimately have "triple ?P (db (update_run rid ?f)) (\<lambda>_. P) E"
    using triple_db assms(3) by blast
  then show "triple ?P (publish_purge_progress rid month phase) (\<lambda>_. P) E"
    by (simp add: triple_def publish_purge_progress_def)
qed

lemma triple_use:
  "triple P f Q E \<Longrightarrow> P w \<Longrightarrow>
    case f w of (Done x, w1) \<Rightarrow> Q x w1 | (Thrown e, w1) \<Rightarrow> E w1 | (Killed, w1) \<Rightarrow> E w1
      | (Stuck, w1) \<Rightarrow> False"
  by (simp add: triple_def)

lemma triple_swallow:
  assumes "triple P f (\<lambda>_. Q) Q"
  shows "triple P (\<lambda>w. case f w of (Thrown e, w1) \<Rightarrow> (Done (), w1) | r \<Rightarrow> r) (\<lambda>_. Q) Q"
proof (rule tripleI)
  fix w x w1 assume P: "P w" and "(case f w of (Thrown e, w1) \<Rightarrow> (Done (), w1) | r \<Rightarrow> r) = (Done x, w1)"
  then show "Q w1" using tripleD [OF assms P] by (cases "f w"; cases "fst (f w)") auto
next
  fix w e w1 assume "P w" and "(case f w of (Thrown e, w1) \<Rightarrow> (Done (), w1) | r \<Rightarrow> r) = (Thrown e, w1)"
  then show "Q w1" by (cases "f w"; cases "fst (f w)") auto
next
  fix w w1 assume P: "P w" and "(case f w of (Thrown e, w1) \<Rightarrow> (Done (), w1) | r \<Rightarrow> r) = (Killed, w1)"
  then show "Q w1" using tripleD [OF assms P] by (cases "f w"; cases "fst (f w)") auto
next
  fix w w1 assume P: "P w"
  then show "(case f w of (Thrown e, w1) \<Rightarrow> (Done (), w1) | r \<Rightarrow> r) \<noteq> (Stuck, w1)"
    using tripleD(4) [OF assms P, of w1] by (cases "f w"; cases "fst (f w)") auto
qed

text \<open>After the transaction: nothing was left, or the batch is written and not yet noted.\<close>

definition batch_post ::
  "cdr_month \<Rightarrow> string \<Rightarrow> int \<Rightarrow> nat \<Rightarrow> (purge_world \<Rightarrow> bool) \<Rightarrow> int \<Rightarrow> purge_world \<Rightarrow> bool" where
  "batch_post m rid d n I batch w1 \<longleftrightarrow>
     (if batch \<le> 0 then I w1 \<and> no_calls m w1
      else \<exists>w k rows. batch = int k \<and> 0 < k \<and> I w \<and> pw_deleted w = d \<and> rows_left w \<le> n
             \<and> trimmed (call_in_month m) rows (pw_calls w) \<and> length (pw_calls w) = k + length rows
             \<and> w1 = call_written rid m (d + batch) rows w)"

section \<open>The contract\<close>

locale purge_contract =
  fixes m :: cdr_month and rid :: string and input :: job_input and tags :: "string set"
    and I :: "purge_world \<Rightarrow> bool"
  assumes calm_I: "calm I"
    and late: "steady m rid tags (\<lambda>w. I w \<and> no_calls m w)"
    and tagged_I: "tagged m tags I"
    and aim: "I w \<Longrightarrow> I (w\<lparr>pw_slot := set_purge_target_month (Some (cm_key m)) (pw_slot w)\<rparr>)"
    and audit: "I w \<Longrightarrow> I (w\<lparr>pw_audit := pw_audit w @ [a]\<rparr>)"
    and start: "I w \<Longrightarrow> I (w\<lparr>pw_target_count := n, pw_stages := st\<rparr>)"
    and history_start: "I w \<Longrightarrow> no_calls m w \<Longrightarrow> I (w\<lparr>pw_deleted := d, pw_target_count := n\<rparr>)"
    and first_publish: "I w \<Longrightarrow> pw_deleted w = 0 \<Longrightarrow> I (publish_in rid (cm_key m) Stage_calls w)"
    and calls: "I w \<Longrightarrow> trimmed (call_in_month m) rows (pw_calls w) \<Longrightarrow> 0 < k \<Longrightarrow>
        length (pw_calls w) = k + length rows \<Longrightarrow>
        I (call_noted (int k) (pw_deleted w + int k) (call_written rid m (pw_deleted w + int k) rows w))"
    and remainder: "I w \<Longrightarrow> I (w\<lparr>pw_remainder := rc\<rparr>)"
    and finish: "I w \<Longrightarrow> pt_month r = Some (cm_key m) \<Longrightarrow>
        ji_history_only input \<or> pt_deleted r = pw_deleted w \<Longrightarrow> pt_failed r \<or> no_calls m w \<Longrightarrow>
        I (row_finished rid now (ji_history_only input) r w)"
    and ended: "I w \<Longrightarrow> I (row_ended rid now w)"
    and flags: "I w \<Longrightarrow> no_calls m w \<Longrightarrow> I (flags_cleared (cm_key m) w)"
    and released: "I w \<Longrightarrow> I (hold_released (cm_key m) w)"
begin

abbreviation done_or_failed :: "string set \<Rightarrow> purge_result \<Rightarrow> purge_world \<Rightarrow> bool" where
  "done_or_failed keys r w \<equiv> I w \<and> (pt_failed r \<or> purged m rid keys w)"

lemma audit_triple:
  assumes "calm J" and "\<And>w a. J w \<Longrightarrow> J (w\<lparr>pw_audit := pw_audit w @ [a]\<rparr>)"
  shows "triple J (audit_append c) (\<lambda>_. J) J"
proof -
  have "triple J (and_then read_clock (\<lambda>now. db (change (\<lambda>v. v\<lparr>pw_audit :=
            pw_audit v @ [\<lparr>ad_action = c, ad_created = now\<rparr>]\<rparr>)))) (\<lambda>_. J) J"
    by (rule triple_and_then [OF triple_read_clock [OF assms(1)]], rule triple_db [OF assms(1)], rule triple_change)
      (simp_all add: assms(2))
  then show ?thesis unfolding audit_append_def by (rule triple_swallow)
qed

lemma call_transaction_triple:
  "triple (\<lambda>w. I w \<and> pw_deleted w = d \<and> rows_left w \<le> n) (call_transaction rid m d)
     (batch_post m rid d n I)
     (\<lambda>w. I w \<and> pw_deleted w = d \<and> rows_left w \<le> n)"
proof (rule tripleI)
  fix w x w1
  assume P: "I w \<and> pw_deleted w = d \<and> rows_left w \<le> n" and run: "call_transaction rid m d w = (Done x, w1)"
  obtain k rows where d: "delete_some cdr_purge_batch_size (call_in_month m) (pw_calls w) = (k, rows)"
    by (cases "delete_some cdr_purge_batch_size (call_in_month m) (pw_calls w)")
  show "batch_post m rid d n I x w1"
  proof (cases "k = 0")
    case True
    then have "rows = pw_calls w" "no_calls m w" using delete_some_none d batch_size_pos by blast+
    moreover have "x = 0" "w1 = w\<lparr>pw_calls := rows\<rparr>"
      using run d True by (simp_all add: call_transaction_def transaction_def and_then_def
          purge_delete_batch_def pass_def)
    ultimately show ?thesis using P by (simp add: batch_post_def)
  next
    case False
    have "x = int k \<and> w1 = call_written rid m (d + int k) rows w"
      using run d False
      by (auto simp: call_transaction_def transaction_def and_then_def purge_delete_batch_def pass_def
          update_run_def throw_def call_written_def Let_def split: if_splits)
    then show ?thesis using P False trimmed_delete [OF d] delete_some_length [OF d] by (auto simp: batch_post_def)
  qed
next
  fix w e w1
  assume P: "I w \<and> pw_deleted w = d \<and> rows_left w \<le> n" and "call_transaction rid m d w = (Thrown e, w1)"
  then have "w1 = w" by (auto simp: call_transaction_def transaction_def split: prod.splits outcome.splits)
  then show "I w1 \<and> pw_deleted w1 = d \<and> rows_left w1 \<le> n" using P by simp
next
  fix w w1
  assume "call_transaction rid m d w = (Killed, w1)"
  then show "I w1 \<and> pw_deleted w1 = d \<and> rows_left w1 \<le> n"
    by (auto simp: call_transaction_def transaction_def and_then_def purge_delete_batch_def pass_def
        update_run_def throw_def Let_def split: if_splits prod.splits outcome.splits)
next
  fix w w1
  show "call_transaction rid m d w \<noteq> (Stuck, w1)"
    by (auto simp: call_transaction_def transaction_def and_then_def purge_delete_batch_def pass_def
        update_run_def throw_def Let_def split: if_splits prod.splits outcome.splits)
qed

lemma delete_call_batch_triple:
  "triple (\<lambda>w. I w \<and> pw_deleted w = d \<and> rows_left w \<le> n) (delete_call_batch attempt rid m d)
     (batch_post m rid d n I) I"
proof (induction "call_lock_attempts - attempt" arbitrary: attempt rule: less_induct)
  case less
  let ?P = "\<lambda>w. I w \<and> pw_deleted w = d \<and> rows_left w \<le> n"
  have "calm ?P" using calm_I by (simp add: calm_def)
  then have one: "triple ?P (db (call_transaction rid m d)) (batch_post m rid d n I) ?P"
    by (rule triple_db [OF _ call_transaction_triple])
  have "case delete_call_batch attempt rid m d w of
      (Done x, w1) \<Rightarrow> batch_post m rid d n I x w1
    | (Thrown e, w1) \<Rightarrow> I w1 | (Killed, w1) \<Rightarrow> I w1 | (Stuck, w1) \<Rightarrow> False" if P: "?P w" for w
  proof -
    note t = tripleD [OF one P]
    obtain r w1 where r: "db (call_transaction rid m d) w = (r, w1)"
      by (cases "db (call_transaction rid m d) w")
    note step = delete_call_batch.simps [of attempt rid m d w]
    show ?thesis
    proof (cases r)
      case (Thrown e)
      have P1: "?P w1" using t(2) r Thrown by simp
      show ?thesis
      proof (cases "attempt \<ge> call_lock_attempts \<or> \<not> is_purge_lock_timeout e")
        case True
        then show ?thesis using step r Thrown P1 by simp
      next
        case False
        then have "call_lock_attempts - Suc attempt < call_lock_attempts - attempt" by linarith
        from less.hyps [OF this] P1 show ?thesis using step r Thrown False by (simp add: triple_def)
      qed
    next
      case (Done x)
      then show ?thesis using step r t(1) [of x w1] by simp
    next
      case Killed
      then show ?thesis using step r t(3) [of w1] by simp
    next
      case Stuck
      then show ?thesis using r t(4) [of w1] by simp
    qed
  qed
  then show ?case by (simp add: triple_def)
qed

lemma call_turn_triple:
  "triple (\<lambda>w. (I w \<and> pw_deleted w = d) \<and> rows_left w \<le> n) (call_turn rid m d)
     (\<lambda>r w. case r of Some k1 \<Rightarrow> (I w \<and> pw_deleted w = k1) \<and> rows_left w < n
              | None \<Rightarrow> I w \<and> no_calls m w) I"
proof -
  let ?P = "\<lambda>w. I w \<and> pw_deleted w = d \<and> rows_left w \<le> n"
  let ?Q = "\<lambda>r w. case r of Some k1 \<Rightarrow> (I w \<and> pw_deleted w = k1) \<and> rows_left w < n
              | None \<Rightarrow> I w \<and> no_calls m w"
  have cP: "calm ?P" using calm_I by (simp add: calm_def)
  have cur: "triple ?P (not_current m) (\<lambda>_. ?P) I"
    by (rule triple_weaken [OF triple_not_current [OF cP]]) simp_all
  let ?note = "\<lambda>b. and_then (note_batch b) (\<lambda>_. and_then (change (\<lambda>w. w\<lparr>pw_deleted := d + b\<rparr>)) (\<lambda>_.
         and_then (put_done Stage_calls (d + b)) (\<lambda>_. pass (Some (d + b)))))"
  have rest: "triple (batch_post m rid d n I b) (if b \<le> 0 then pass None else ?note b) ?Q I" for b
  proof (cases "b \<le> 0")
    case True
    then show ?thesis by (auto intro!: triple_pass simp: batch_post_def)
  next
    case False
    have run: "?note b w1 = (Done (Some (d + b)), call_noted b (d + b) w1)" for w1
      by (simp add: and_then_def note_batch_def change_def put_done_def pass_def call_noted_def)
    have "(I (call_noted b (d + b) w1) \<and> pw_deleted (call_noted b (d + b) w1) = d + b)
        \<and> rows_left (call_noted b (d + b) w1) < n" if "batch_post m rid d n I b w1" for w1
    proof -
      obtain w k rows where f: "b = int k" "0 < k" "I w" "pw_deleted w = d" "rows_left w \<le> n"
          "trimmed (call_in_month m) rows (pw_calls w)" "length (pw_calls w) = k + length rows"
          "w1 = call_written rid m (d + b) rows w"
        using \<open>batch_post m rid d n I b w1\<close> False by (auto simp: batch_post_def)
      have "I (call_noted b (d + b) w1)" using calls [OF f(3,6,2,7)] by (simp add: f(1,4,8))
      moreover have "rows_left (call_noted b (d + b) w1) < n"
        using f(2,5,7) by (simp add: f(8) rows_left_def call_noted_def call_written_def Let_def)
      ultimately show ?thesis by (simp add: call_noted_def)
    qed
    then show ?thesis using False by (simp add: triple_def run)
  qed
  have "triple ?P (call_turn rid m d) ?Q I"
    unfolding call_turn_def
    by (rule triple_and_then [OF cur triple_and_then [OF delete_call_batch_triple rest]])
  then show ?thesis by (rule triple_weaken) simp_all
qed

lemma call_loop_triple:
  "triple (\<lambda>w. I w \<and> pw_deleted w = 0) (while_rows (call_turn rid m)) (\<lambda>_ w. I w \<and> no_calls m w) I"
  by (rule triple_while_rows [where I = "\<lambda>d w. I w \<and> pw_deleted w = d", OF call_turn_triple])

lemma finish_triple:
  assumes "pt_month r = Some (cm_key m)"
  shows "triple (\<lambda>w. done_or_failed keys r w \<and> (ji_history_only input \<or> pt_deleted r = pw_deleted w))
    (finish_purge rid input r) (\<lambda>_. done_or_failed keys r) I"
proof -
  let ?P = "\<lambda>w. done_or_failed keys r w \<and> (ji_history_only input \<or> pt_deleted r = pw_deleted w)"
  let ?J = "done_or_failed keys r"
  have cP: "calm ?P" and cJ: "calm ?J" using calm_I by (auto simp: calm_def)
  have upd: "triple ?P (update_run rid (finish_row now (ji_history_only input) r)) (\<lambda>_. ?J) I" for now
  proof -
    have "?J (row_finished rid now (ji_history_only input) r w)" if "?P w" for w
      using finish [OF _ assms, of w now] that purged_no_calls [of m rid keys w] by auto
    then show ?thesis by (auto simp: triple_def update_run_def throw_def row_finished_def)
  qed
  have db: "triple ?P (db (update_run rid (finish_row now (ji_history_only input) r))) (\<lambda>_. ?J) I" for now
    by (rule triple_db [OF cP upd]) simp
  have app: "triple ?J (audit_append c) (\<lambda>_. ?J) I" for c
    by (rule triple_weaken [OF audit_triple [OF cJ]]) (auto intro: audit)
  show ?thesis
    unfolding finish_purge_def
    by (rule triple_and_then [OF triple_read_clock [OF cP] triple_and_then [OF db app]])
qed

lemma refuse_triple:
  "triple (\<lambda>w. I w \<and> (ji_history_only input \<or> pw_deleted w = d)) (refuse rid input d (Some (cm_key m)) msg)
     (done_or_failed keys) I"
proof -
  let ?r = "\<lparr>pt_failed = True, pt_deleted = d, pt_remainder = no_remainder, pt_target_count = d,
      pt_month = Some (cm_key m), pt_error = Some msg\<rparr>"
  have "triple (\<lambda>w. I w \<and> (ji_history_only input \<or> pw_deleted w = d)) (finish_purge rid input ?r)
      (\<lambda>_. done_or_failed keys ?r) I"
    by (rule triple_weaken [OF finish_triple [of ?r keys]]) auto
  then show ?thesis
    unfolding refuse_def Let_def by (rule triple_and_then) (rule triple_pass)
qed

lemma succeed_triple:
  "triple (\<lambda>w. I w \<and> purged m rid keys w) (succeed rid input m) (done_or_failed keys) I"
proof (rule triple_each [where g = "\<lambda>w. (pw_deleted w, pw_remainder w, pw_target_count w)"])
  fix x :: "int \<times> remainder_counts \<times> int"
  obtain d rc n where x: "x = (d, rc, n)" by (cases x)
  let ?r = "\<lparr>pt_failed = False, pt_deleted = d, pt_remainder = rc, pt_target_count = n,
      pt_month = Some (cm_key m), pt_error = None\<rparr>"
  have "triple (\<lambda>w. (I w \<and> purged m rid keys w) \<and> (pw_deleted w, pw_remainder w, pw_target_count w) = x)
      (finish_purge rid input ?r) (\<lambda>_. done_or_failed keys ?r) I"
    by (rule triple_weaken [OF finish_triple [of ?r keys]]) (auto simp: x)
  then have "triple (\<lambda>w. (I w \<and> purged m rid keys w) \<and> (pw_deleted w, pw_remainder w, pw_target_count w) = x)
      (and_then (finish_purge rid input ?r) (\<lambda>_. pass ?r)) (done_or_failed keys) I"
    by (rule triple_and_then) (rule triple_pass)
  then show "triple (\<lambda>w. (I w \<and> purged m rid keys w) \<and> (pw_deleted w, pw_remainder w, pw_target_count w) = x)
      (succeed rid input m) (done_or_failed keys) I"
    by (simp add: triple_def succeed_def Let_def x)
qed

lemma keep_remainder_triple:
  "triple (\<lambda>w. I w \<and> purged m rid keys w) (keep_remainder rc) (\<lambda>_ w. I w \<and> purged m rid keys w) I"
  unfolding keep_remainder_def by (rule triple_change) (simp add: remainder)

lemma late_triple:
  assumes "\<And>ks. card_keys = Some ks \<Longrightarrow> set ks = keys - tags" and "card_keys = None \<Longrightarrow> keys = {}"
  shows "triple (\<lambda>w. I w \<and> no_calls m w) (delete_month_remainder rid m card_keys)
    (\<lambda>_ w. I w \<and> purged m rid (keys - tags) w) I"
proof (rule triple_weaken [OF triple_month_remainder [OF late tagged_conj [OF tagged_I]]])
  fix ks assume "card_keys = Some ks"
  then show "set ks \<inter> tags = {}" using assms(1) by auto
next
  fix x w
  assume "(I w \<and> no_calls m w) \<and> month_gone m rid w \<and> (\<forall>ks. card_keys = Some ks \<longrightarrow> no_cards (set ks) w)"
  then show "I w \<and> purged m rid (keys - tags) w"
    using assms by (cases card_keys) (auto simp: purged_def simp del: filter_empty_conv)
qed simp_all

lemma history_run_triple:
  assumes "ji_history_only input"
  shows "triple I (history_run rid input (Some m)) (done_or_failed {}) I"
proof -
  let ?N = "\<lambda>w. I w \<and> no_calls m w"
  have cN: "calm ?N" using late by (rule steady_calm)
  have clock: "triple I read_clock (\<lambda>_. I) I" by (rule triple_read_clock [OF calm_I])
  have no: "triple I (refuse rid input d (Some (cm_key m)) msg) (done_or_failed {}) I" for d msg
    by (rule triple_weaken [OF refuse_triple [of d msg "{}"]]) (simp_all add: assms)
  have aim_t: "triple I (aim_at m) (\<lambda>_. I) I"
    unfolding aim_at_def by (rule triple_change) (rule aim)
  note idx = triple_quiet(6) [OF calm_I]
  have count: "triple I (count_call_month m) (\<lambda>n w. I w \<and> (n \<le> 0 \<longrightarrow> no_calls m w)) I"
    unfolding count_call_month_def
    by (rule triple_db [OF calm_I]) (auto intro!: triple_look simp: count_rows_def simp del: filter_empty_conv)
  have vars: "triple ?N (change (\<lambda>w. w\<lparr>pw_deleted := d, pw_target_count := d\<rparr>)) (\<lambda>_. ?N) I" for d
    by (rule triple_change) (auto intro: history_start)
  have c1: "triple ?N (count_smg_month m) (\<lambda>_. ?N) I" and c2: "triple ?N (count_month_history m rid) (\<lambda>_. ?N) I"
    and c3: "triple ?N (count_syslog_files m) (\<lambda>_. ?N) I"
    by (rule under_plain [OF triple_quiet(2) [OF cN]], simp, rule under_plain [OF triple_quiet(5) [OF cN]], simp,
        rule under_plain [OF triple_quiet(4) [OF cN]], simp)
  have st: "triple ?N (start_stages n stages) (\<lambda>_. ?N) I" for n stages
    unfolding start_stages_def by (rule triple_change) (auto intro: start)
  have au: "triple ?N (audit_append c) (\<lambda>_. ?N) I" for c
    by (rule under_plain [OF audit_triple [OF cN]]) (auto intro: audit)
  have rem: "triple ?N (delete_month_remainder rid m None) (\<lambda>_ w. I w \<and> purged m rid {} w) I"
    by (rule triple_weaken [OF late_triple [of None "{}"]]) auto
  note steps = triple_and_then [OF vars triple_and_then [OF c1 triple_and_then [OF c2 triple_and_then [OF c3
      triple_and_then [OF st triple_and_then [OF au triple_and_then [OF rem
      triple_and_then [OF keep_remainder_triple succeed_triple]]]]]]]]
  have left: "triple (\<lambda>w. I w \<and> (n \<le> 0 \<longrightarrow> no_calls m w))
      (if n > 0 then throw calls_left_text
       else and_then (change (\<lambda>w. w\<lparr>pw_deleted := prior_calls input, pw_target_count := prior_calls input\<rparr>)) (\<lambda>_.
              and_then (count_smg_month m) (\<lambda>smg.
              and_then (count_month_history m rid) (\<lambda>history.
              and_then (count_syslog_files m) (\<lambda>syslog.
              and_then (start_stages (prior_calls input)
                          (count_stages (prior_calls input) (prior_calls input) 0 0 0 smg syslog history)) (\<lambda>_.
              and_then (audit_append ''cdr.purge_start'') (\<lambda>_.
              and_then (delete_month_remainder rid m None) (\<lambda>rc.
              and_then (keep_remainder rc) (\<lambda>_.
              succeed rid input m))))))))) (done_or_failed {}) I" for n :: int
    by (rule triple_if, rule triple_throw, simp, rule triple_weaken [OF steps]) auto
  show ?thesis
    unfolding history_run_def option.case
    by (rule triple_and_then [OF clock], rule triple_if, rule no,
        rule triple_and_then [OF aim_t triple_and_then [OF idx triple_and_then [OF count left]]])
qed

lemma gate_triple:
  assumes "calm P" and "\<And>w. P w \<Longrightarrow> I w"
  shows "triple P (deletable_gate input (Some m)) (\<lambda>_. P) I"
proof -
  have res: "triple P resolve_deletable_month_key (\<lambda>_. P) I"
    unfolding resolve_deletable_month_key_def Let_def
    by (rule triple_and_then, rule triple_read_clock, rule assms(1),
        rule triple_and_then, rule triple_db_look, rule assms(1), erule assms(2),
        rule triple_and_then, rule triple_db_look, rule assms(1), erule assms(2),
        rule triple_and_then, rule triple_db_look, rule assms(1), erule assms(2),
        rule triple_and_then, rule triple_db_look, rule assms(1), erule assms(2),
        rule triple_pass, assumption)
  show ?thesis
    unfolding deletable_gate_def
    by (rule triple_if, rule triple_pass, assumption, rule triple_and_then [OF res], rule triple_pass, assumption)
qed

lemma calls_run_triple:
  assumes "\<not> ji_history_only input"
  shows "triple (\<lambda>w. I w \<and> pw_deleted w = 0 \<and> pw_smg w = smg0) (calls_run rid input (Some m))
    (done_or_failed (month_tags m smg0 - tags)) I"
proof -
  let ?keys = "month_tags m smg0 - tags"
  let ?A = "\<lambda>w. I w \<and> pw_deleted w = 0 \<and> pw_smg w = smg0"
  let ?B = "\<lambda>ks w. (I w \<and> pw_deleted w = 0) \<and> set ks = ?keys"
  let ?C = "\<lambda>ks w. I w \<and> no_calls m w \<and> set ks = ?keys"
  have cA: "calm ?A" and cB: "calm (?B ks)" for ks using calm_I by (simp_all add: calm_def)
  have gate: "triple ?A (deletable_gate input (Some m)) (\<lambda>_. ?A) I"
    by (rule gate_triple [OF cA]) simp
  have clock: "triple ?A read_clock (\<lambda>_. ?A) I" by (rule triple_read_clock [OF cA])
  have no: "triple ?A (refuse rid input 0 (Some (cm_key m)) msg) (done_or_failed ?keys) I" for msg
    by (rule triple_weaken [OF refuse_triple]) auto
  have aim_t: "triple ?A (aim_at m) (\<lambda>_. ?A) I"
    unfolding aim_at_def by (rule triple_change) (simp add: aim)
  have idx: "triple ?A assert_purge_fk_indexes (\<lambda>_. ?A) I"
    by (rule under_plain [OF triple_quiet(6) [OF cA]]) simp
  have keys: "triple ?A (collect_month_trace_keys m) ?B I"
    by (rule triple_weaken [OF triple_collect [OF cA tagged_conj [OF tagged_I]]]) auto
  have c1: "triple (?B ks) (count_call_month m) (\<lambda>_. ?B ks) I"
    and c2: "triple (?B ks) (count_smg_month m) (\<lambda>_. ?B ks) I"
    and c3: "triple (?B ks) (count_month_history m rid) (\<lambda>_. ?B ks) I"
    and c4: "triple (?B ks) (count_syslog_files m) (\<lambda>_. ?B ks) I"
    and c5: "triple (?B ks) (count_trace_cards ks) (\<lambda>_. ?B ks) I"
    and c6: "triple (?B ks) (count_journal_month m) (\<lambda>_. ?B ks) I"
    and c7: "triple (?B ks) (count_trace_delays ks) (\<lambda>_. ?B ks) I" for ks
    by (rule under_plain [OF triple_quiet(3) [OF cB]], simp, rule under_plain [OF triple_quiet(2) [OF cB]], simp,
        rule under_plain [OF triple_quiet(5) [OF cB]], simp, rule under_plain [OF triple_quiet(4) [OF cB]], simp,
        rule under_plain [OF triple_count_cards(1) [OF cB]], simp, rule under_plain [OF triple_quiet(1) [OF cB]], simp,
        rule under_plain [OF triple_count_cards(2) [OF cB]], simp)
  have st: "triple (?B ks) (start_stages n stages) (\<lambda>_. ?B ks) I" for ks n stages
    unfolding start_stages_def by (rule triple_change) (auto intro: start)
  have au: "triple (?B ks) (audit_append c) (\<lambda>_. ?B ks) I" for ks c
    by (rule under_plain [OF audit_triple [OF cB]]) (auto intro: audit)
  have pub: "triple (?B ks) (publish_purge_progress rid (cm_key m) Stage_calls) (\<lambda>_. ?B ks) I" for ks
    by (rule triple_publish_once [OF cB]) (simp_all add: first_publish)
  have loop: "triple (?B ks) (while_rows (call_turn rid m)) (\<lambda>_. ?C ks) I" for ks
  proof (cases "set ks = ?keys")
    case True
    show ?thesis by (rule triple_weaken [OF call_loop_triple]) (use True in simp_all)
  qed (rule triple_none, simp)
  have rem: "triple (?C ks) (delete_month_remainder rid m (Some ks)) (\<lambda>_ w. I w \<and> purged m rid ?keys w) I" for ks
  proof (cases "set ks = ?keys")
    case True
    show ?thesis by (rule triple_weaken [OF late_triple [of "Some ks" "month_tags m smg0"]]) (use True in simp_all)
  qed (rule triple_none, simp)
  note steps = triple_and_then [OF aim_t triple_and_then [OF idx triple_and_then [OF keys triple_and_then [OF c1
      triple_and_then [OF c2 triple_and_then [OF c3 triple_and_then [OF c4 triple_and_then [OF c5
      triple_and_then [OF c6 triple_and_then [OF c7 triple_and_then [OF st triple_and_then [OF au
      triple_and_then [OF pub triple_and_then [OF loop triple_and_then [OF rem
      triple_and_then [OF keep_remainder_triple succeed_triple]]]]]]]]]]]]]]]]
  have go: "triple ?A (and_then read_clock (\<lambda>now.
         if cm_key m = cm_key (current_utc_month now)
         then refuse rid input 0 (Some (cm_key m)) current_month_text
         else
           and_then (aim_at m) (\<lambda>_.
           and_then assert_purge_fk_indexes (\<lambda>_.
           and_then (collect_month_trace_keys m) (\<lambda>card_keys.
           and_then (count_call_month m) (\<lambda>calls.
           and_then (count_smg_month m) (\<lambda>smg.
           and_then (count_month_history m rid) (\<lambda>history.
           and_then (count_syslog_files m) (\<lambda>syslog.
           and_then (count_trace_cards card_keys) (\<lambda>cards.
           and_then (count_journal_month m) (\<lambda>journal.
           and_then (count_trace_delays card_keys) (\<lambda>delays.
           and_then (start_stages calls (count_stages 0 calls journal cards delays smg syslog history)) (\<lambda>_.
           and_then (audit_append ''cdr.purge_start'') (\<lambda>_.
           and_then (publish_purge_progress rid (cm_key m) Stage_calls) (\<lambda>_.
           and_then (while_rows (call_turn rid m)) (\<lambda>_.
           and_then (delete_month_remainder rid m (Some card_keys)) (\<lambda>rc.
           and_then (keep_remainder rc) (\<lambda>_.
           succeed rid input m)))))))))))))))))) (done_or_failed ?keys) I"
    by (rule triple_and_then [OF clock], rule triple_if, rule no, rule steps)
  show ?thesis
    unfolding calls_run_def
    apply (rule triple_and_then [OF gate])
    subgoal for x
      by (cases x; simp only: prod.case option.case option.map; (rule go | rule no))
    done
qed

lemma caught_triple:
  assumes "triple P body (done_or_failed keys) I"
  shows "triple P (caught rid input (Some m) body) (done_or_failed keys) I"
proof -
  have "case caught rid input (Some m) body w of (Done r, w1) \<Rightarrow> done_or_failed keys r w1
      | (Thrown e, w1) \<Rightarrow> I w1 | (Killed, w1) \<Rightarrow> I w1 | (Stuck, w1) \<Rightarrow> False" if P: "P w" for w
  proof -
    note t = tripleD [OF assms P]
    obtain o1 w1 where b: "body w = (o1, w1)" by (cases "body w")
    show ?thesis
    proof (cases o1)
      case (Thrown e)
      let ?r = "\<lparr>pt_failed = True, pt_deleted = pw_deleted w1, pt_remainder = pw_remainder w1,
          pt_target_count = pw_target_count w1, pt_month = map_option cm_key (Some m),
          pt_error = Some (de_message e)\<rparr>"
      have "I w1" using t(2) b Thrown by blast
      then have pre: "done_or_failed keys ?r w1 \<and> (ji_history_only input \<or> pt_deleted ?r = pw_deleted w1)" by simp
      have "triple (\<lambda>w. done_or_failed keys ?r w \<and> (ji_history_only input \<or> pt_deleted ?r = pw_deleted w))
          (and_then (finish_purge rid input ?r) (\<lambda>_. pass ?r)) (done_or_failed keys) I"
        by (rule triple_and_then [OF finish_triple]) (simp_all add: triple_pass)
      then have "case and_then (finish_purge rid input ?r) (\<lambda>_. pass ?r) w1 of
          (Done r, w1) \<Rightarrow> done_or_failed keys r w1
        | (Thrown e, w1) \<Rightarrow> I w1 | (Killed, w1) \<Rightarrow> I w1 | (Stuck, w1) \<Rightarrow> False"
        using pre by (rule triple_use)
      then show ?thesis using b Thrown by (simp add: caught_def Let_def)
    next
      case (Done x)
      then show ?thesis using t(1) [of x w1] b by (simp add: caught_def)
    next
      case Killed
      then show ?thesis using t(3) [of w1] b by (simp add: caught_def)
    next
      case Stuck
      then show ?thesis using t(4) [of w1] b by simp
    qed
  qed
  then show ?thesis by (simp add: triple_def)
qed

lemma end_row_triple: "triple (done_or_failed keys r) (end_row rid) (\<lambda>_. done_or_failed keys r) (done_or_failed keys r)"
proof -
  let ?J = "done_or_failed keys r"
  have cJ: "calm ?J" using calm_I by (auto simp: calm_def)
  have "?J (w\<lparr>pw_runs := fail_job_run_if_still_running now rid orphan_reclaim_message (pw_runs w)\<rparr>)"
    if "?J w" for w now
    using that ended [of w now] purged_ended [of m rid keys rid now w] unfolding row_ended_def by auto
  then have "triple ?J (and_then read_clock (\<lambda>now. db (change (\<lambda>v. v\<lparr>pw_runs :=
             fail_job_run_if_still_running now rid orphan_reclaim_message (pw_runs v)\<rparr>)))) (\<lambda>_. ?J) ?J"
    by (intro triple_and_then [OF triple_read_clock [OF cJ]] triple_db [OF cJ] triple_change) simp_all
  then show ?thesis unfolding end_row_def by (rule triple_swallow)
qed

lemma hold_goes_triple:
  "triple (\<lambda>w. I w \<and> (succeeded \<longrightarrow> purged m rid keys w)) (hold_goes resume succeeded (Some (cm_key m)))
    (\<lambda>_ w. I w \<and> (succeeded \<longrightarrow> purged m rid keys w)) I"
proof -
  let ?J = "\<lambda>w. I w \<and> (succeeded \<longrightarrow> purged m rid keys w)"
  have cJ: "calm ?J" using calm_I by (auto simp: calm_def)
  have t: "triple ?J (clear_flags (cm_key m)) (\<lambda>_. ?J) ?J" if succeeded
    unfolding clear_flags_def
  proof (rule triple_db [OF cJ], rule triple_change)
    fix w assume J: "?J w"
    then have "purged m rid keys w" using \<open>succeeded\<close> by simp
    then have "I (flags_cleared (cm_key m) w)" using J flags purged_no_calls by blast
    moreover have "purged m rid keys (flags_cleared (cm_key m) w)" using \<open>purged m rid keys w\<close> by simp
    ultimately show "?J (w\<lparr>pw_runs := snd (clear_purge_continuation_flags (cm_key m) (pw_runs w))\<rparr>)"
      by (simp add: flags_cleared_def)
  qed
  have "case hold_goes resume succeeded (Some (cm_key m)) w of (Done b, w1) \<Rightarrow> ?J w1
      | (Thrown e, w1) \<Rightarrow> I w1 | (Killed, w1) \<Rightarrow> I w1 | (Stuck, w1) \<Rightarrow> False" if J: "?J w" for w
  proof (cases succeeded)
    case True
    note d = tripleD [OF t [OF True] J]
    obtain o1 w1 where c: "clear_flags (cm_key m) w = (o1, w1)" by (cases "clear_flags (cm_key m) w")
    show ?thesis
      by (cases o1) (use d c True in \<open>auto simp: hold_goes_def\<close>)
  next
    case False
    then show ?thesis using J by (simp add: hold_goes_def)
  qed
  then show ?thesis by (simp add: triple_def)
qed

lemma finally_triple:
  "triple (\<lambda>w. I w \<and> (succeeded \<longrightarrow> purged m rid keys w))
    (purge_finally rid input succeeded (Some (cm_key m)))
    (\<lambda>_ w. I w \<and> (succeeded \<longrightarrow> purged m rid keys w)) I"
proof -
  let ?J = "\<lambda>w. I w \<and> (succeeded \<longrightarrow> purged m rid keys w)"
  let ?r = "\<lparr>pt_failed = (\<not> succeeded), pt_deleted = 0, pt_remainder = no_remainder, pt_target_count = 0,
      pt_month = None, pt_error = None\<rparr>"
  have rel: "triple ?J (if goes then release_hold (Some (cm_key m)) else pass ()) (\<lambda>_. ?J) I" for goes
  proof (rule triple_if)
    show "triple ?J (release_hold (Some (cm_key m))) (\<lambda>_. ?J) I"
      unfolding release_hold_def
    proof (rule triple_change)
      fix w assume J: "?J w"
      have "I (hold_released (cm_key m) w)" "succeeded \<longrightarrow> purged m rid keys (hold_released (cm_key m) w)"
        using J released by simp_all
      then show "?J (let w1 = w\<lparr>pw_slot := set_purge_target_month None (pw_slot w)\<rparr>
          in case Some (cm_key m) of None \<Rightarrow> w1
           | Some key \<Rightarrow> w1\<lparr>pw_poison := snd (clear_purge_holds key (pw_poison w1)),
                 pw_smg_poison := snd (clear_smg_purge_holds key (pw_smg_poison w1)),
                 pw_drains := pw_drains w1 @ [Cdr_import, Smg_import]\<rparr>)"
        by (simp add: hold_released_def)
    qed
    show "triple ?J (pass ()) (\<lambda>_. ?J) I" by (rule triple_pass)
  qed
  have row: "triple ?J (end_row rid) (\<lambda>_. ?J) I"
    by (rule triple_weaken [OF end_row_triple [of ?r keys]]) auto
  show ?thesis
    unfolding purge_finally_def
    by (rule triple_and_then [OF hold_goes_triple triple_and_then [OF rel row]])
qed

lemma with_finally_triple:
  assumes "triple P body (done_or_failed keys) I"
  shows "triple P (with_finally (\<lambda>succeeded. purge_finally rid input succeeded (Some (cm_key m))) body)
    (done_or_failed keys) I"
proof -
  let ?fin = "\<lambda>succeeded. purge_finally rid input succeeded (Some (cm_key m))"
  have "case with_finally ?fin body w of (Done r, w1) \<Rightarrow> done_or_failed keys r w1
      | (Thrown e, w1) \<Rightarrow> I w1 | (Killed, w1) \<Rightarrow> I w1 | (Stuck, w1) \<Rightarrow> False" if P: "P w" for w
  proof -
    note t = tripleD [OF assms P]
    obtain o1 w1 where b: "body w = (o1, w1)" by (cases "body w")
    show ?thesis
    proof (cases o1)
      case (Done r)
      have pre: "I w1 \<and> (\<not> pt_failed r \<longrightarrow> purged m rid keys w1)" using t(1) b Done by blast
      have "triple (\<lambda>w. I w \<and> (\<not> pt_failed r \<longrightarrow> purged m rid keys w))
          (and_then (?fin (\<not> pt_failed r)) (\<lambda>_. pass r)) (done_or_failed keys) I"
        by (rule triple_and_then [OF finally_triple]) (auto intro: triple_pass)
      then show ?thesis using pre b Done by (simp add: with_finally_def triple_def)
    next
      case (Thrown e)
      have pre: "I w1 \<and> (False \<longrightarrow> purged m rid keys w1)" using t(2) b Thrown by blast
      have "triple I (\<lambda>v. (Thrown e, v)) (done_or_failed keys) I" by (simp add: triple_def)
      then have "triple (\<lambda>w. I w \<and> (False \<longrightarrow> purged m rid keys w))
          (and_then (?fin False) (\<lambda>_ v. (Thrown e, v))) (done_or_failed keys) I"
        by (intro triple_and_then [OF finally_triple]) (simp add: triple_weaken)
      then show ?thesis using pre b Thrown by (simp add: with_finally_def triple_def)
    next
      case Killed
      then show ?thesis using t(3) [of w1] b by (simp add: with_finally_def)
    next
      case Stuck
      then show ?thesis using t(4) [of w1] b by simp
    qed
  qed
  then show ?thesis by (simp add: triple_def)
qed

lemma process_triple:
  assumes target: "parse_month_key (ji_month input) = Some m"
    and cP: "calm P" and begun: "\<And>w now. P w \<Longrightarrow> I (row_begun rid now input w)" and E: "\<And>w. P w \<or> I w \<Longrightarrow> E w"
  shows "triple (\<lambda>w. P w \<and> pw_smg w = rows) (process_cdr_purge_month rid input)
    (done_or_failed (purge_keys m input tags rows)) E"
proof -
  let ?keys = "purge_keys m input tags rows"
  let ?P = "\<lambda>w. P w \<and> pw_smg w = rows"
  let ?row = "\<lambda>now w. w\<lparr>pw_runs := pw_runs w @ [started_row rid now input]\<rparr>"
  let ?S = "\<lambda>now w. \<exists>v. ?P v \<and> w = ?row now v"
  let ?B = "\<lambda>w. I w \<and> pw_deleted w = 0 \<and> pw_smg w = rows"
  have c: "calm ?P" using cP by (simp add: calm_def)
  have clock: "triple ?P read_clock (\<lambda>_. ?P) E" by (rule triple_read_clock [OF c])
  have add: "triple ?P (db (change (?row now))) (\<lambda>_. ?S now) E" for now
    by (rule triple_db [OF c]) (auto intro: triple_change E)
  have vars: "triple (?S now) (change (\<lambda>w. w\<lparr>pw_deleted := 0, pw_target_count := 0, pw_remainder := no_remainder\<rparr>))
      (\<lambda>_. ?B) E" for now
  proof (rule triple_change)
    fix w assume "?S now w"
    then obtain v where v: "P v" "pw_smg v = rows" "w = ?row now v" by auto
    have "w\<lparr>pw_deleted := 0, pw_target_count := 0, pw_remainder := no_remainder\<rparr> = row_begun rid now input v"
      by (simp add: v(3) row_begun_def)
    then show "?B (w\<lparr>pw_deleted := 0, pw_target_count := 0, pw_remainder := no_remainder\<rparr>)"
      using begun [OF v(1)] v(2) by (simp add: row_begun_def)
  qed
  have body: "triple ?B (if ji_history_only input then history_run rid input (Some m)
      else calls_run rid input (Some m)) (done_or_failed ?keys) I"
  proof (rule triple_if)
    assume h: "ji_history_only input"
    show "triple ?B (history_run rid input (Some m)) (done_or_failed ?keys) I"
      by (rule triple_weaken [OF history_run_triple [OF h]]) (simp_all add: purge_keys_def h)
  next
    assume h: "\<not> ji_history_only input"
    show "triple ?B (calls_run rid input (Some m)) (done_or_failed ?keys) I"
      by (rule triple_weaken [OF calls_run_triple [OF h]]) (simp_all add: purge_keys_def h)
  qed
  have run: "triple ?B (with_finally (\<lambda>succeeded. purge_finally rid input succeeded (Some (cm_key m)))
      (caught rid input (Some m) (if ji_history_only input then history_run rid input (Some m)
        else calls_run rid input (Some m)))) (done_or_failed ?keys) E"
    by (rule triple_weaken [OF with_finally_triple [OF caught_triple [OF body]]]) (simp_all add: E)
  show ?thesis
    unfolding process_cdr_purge_month_def Let_def target option.map
    by (rule triple_and_then [OF clock triple_and_then [OF add triple_and_then [OF vars run]]])
qed

end

end
