(* ===== verification/Purge_Spares.thy ===== *)
theory Purge_Spares
  imports Purge_Contract
begin

text \<open>
  What a purge must not touch. The contract of the run is interpreted on the invariant that the
  rows of all other months, the cards of tags other months still carry, and the directories of
  other months are those of the start.
\<close>

section \<open>The rows outside the month\<close>

definition blank_meta :: "purge_run \<Rightarrow> purge_run" where
  "blank_meta r = r\<lparr>pr_meta := JNull\<rparr>"

definition other_runs :: "cdr_month \<Rightarrow> string \<Rightarrow> purge_run list \<Rightarrow> purge_run list" where
  "other_runs m rid runs =
     map blank_meta (filter (\<lambda>r. run_id r \<noteq> rid) (filter (\<lambda>r. \<not> run_in_month m rid r) runs))"

definition other_dirs :: "cdr_month \<Rightarrow> syslog_dir list \<Rightarrow> syslog_dir list" where
  "other_dirs m dirs = filter (\<lambda>d. \<not> (sd_year d = cm_year m \<and> sd_month d = cm_month m)) dirs"

definition spared_rows :: "cdr_month \<Rightarrow> purge_world \<Rightarrow> purge_world \<Rightarrow> bool" where
  "spared_rows m w0 w \<longleftrightarrow>
     filter (\<lambda>r. \<not> call_in_month m r) (pw_calls w) = filter (\<lambda>r. \<not> call_in_month m r) (pw_calls w0)
     \<and> filter (\<lambda>r. \<not> logged_in_month m r) (pw_journal w) = filter (\<lambda>r. \<not> logged_in_month m r) (pw_journal w0)
     \<and> filter (\<lambda>r. \<not> smg_in_month m r) (pw_smg w) = filter (\<lambda>r. \<not> smg_in_month m r) (pw_smg w0)
     \<and> prefix (filter (\<lambda>r. \<not> audit_in_month m r) (pw_audit w0)) (filter (\<lambda>r. \<not> audit_in_month m r) (pw_audit w))"

definition spared_rest :: "cdr_month \<Rightarrow> string \<Rightarrow> purge_world \<Rightarrow> purge_world \<Rightarrow> bool" where
  "spared_rest m rid w0 w \<longleftrightarrow>
     other_runs m rid (pw_runs w) = other_runs m rid (pw_runs w0)
     \<and> filter (\<lambda>c. cd_tag c \<in> other_tags m (pw_smg w0)) (pw_cards w)
         = filter (\<lambda>c. cd_tag c \<in> other_tags m (pw_smg w0)) (pw_cards w0)
     \<and> other_dirs m (pw_syslog w) = other_dirs m (pw_syslog w0)"

definition spared :: "cdr_month \<Rightarrow> string \<Rightarrow> purge_world \<Rightarrow> purge_world \<Rightarrow> bool" where
  "spared m rid w0 w \<longleftrightarrow> ids_ok (pw_smg w) \<and> spared_rows m w0 w \<and> spared_rest m rid w0 w"

lemma trimmed_others: "trimmed P rows1 rows \<Longrightarrow> filter (\<lambda>r. \<not> P r) rows1 = filter (\<lambda>r. \<not> P r) rows"
  by (simp add: trimmed_def)

lemma subseq_distinct: "subseq xs ys \<Longrightarrow> distinct ys \<Longrightarrow> distinct xs"
  by (induction rule: list_emb.induct) (auto dest: list_emb_set)

lemma ids_ok_trimmed: "trimmed P rows1 rows \<Longrightarrow> ids_ok rows \<Longrightarrow> ids_ok rows1"
  using trimmed_set [of P rows1 rows] subseq_map [of rows1 rows sm_id]
  by (auto simp: ids_ok_def trimmed_def dest: subseq_distinct)

lemma other_runs_map:
  assumes "\<And>r. run_id r \<noteq> rid \<Longrightarrow> blank_meta (f r) = blank_meta r" and "\<And>r. run_id (f r) = run_id r"
    and "\<And>r. run_started (f r) = run_started r"
  shows "other_runs m rid (map f runs) = other_runs m rid runs"
proof -
  have "run_in_month m rid (f r) = run_in_month m rid r" for r
    by (simp add: run_in_month_def assms(2,3))
  then show ?thesis
    by (induction runs) (simp_all add: other_runs_def assms)
qed

lemma other_runs_trimmed: "trimmed (run_in_month m rid) rows1 rows \<Longrightarrow> other_runs m rid rows1 = other_runs m rid rows"
  by (simp add: other_runs_def trimmed_others)

lemma other_runs_begun: "run_id r = rid \<Longrightarrow> other_runs m rid (runs @ [r]) = other_runs m rid runs"
  by (simp add: other_runs_def)

lemma blank_meta_same: "(g r)\<lparr>pr_meta := JNull\<rparr> = r\<lparr>pr_meta := JNull\<rparr> \<Longrightarrow> blank_meta (g r) = blank_meta r"
  by (simp add: blank_meta_def)

lemma other_runs_flags: "other_runs m rid (snd (clear_purge_continuation_flags key runs)) = other_runs m rid runs"
proof -
  obtain g where g: "snd (clear_purge_continuation_flags key runs) = map g runs"
      and same: "\<forall>r. (g r)\<lparr>pr_meta := JNull\<rparr> = r\<lparr>pr_meta := JNull\<rparr>"
    using clear_flags_map by blast
  show ?thesis
    unfolding g by (rule other_runs_map) (use same blank_meta_same same_but_meta(1,2) in blast)+
qed

section \<open>The invariant of the run\<close>

lemma other_tags_outside:
  "filter (\<lambda>r. \<not> smg_in_month m r) a = filter (\<lambda>r. \<not> smg_in_month m r) b \<Longrightarrow> other_tags m a = other_tags m b"
  by (simp add: other_tags_def outside_iff [abs_def])

lemma tagged_spared: "tagged m (other_tags m (pw_smg w0)) (spared m rid w0)"
  unfolding tagged_def
proof (intro allI impI)
  fix w assume "spared m rid w0 w"
  then show "ids_ok (pw_smg w) \<and> other_tags m (pw_smg w) = other_tags m (pw_smg w0)"
    using other_tags_outside [of m "pw_smg w" "pw_smg w0"] by (simp add: spared_def spared_rows_def)
qed

lemma calm_spared: "calm (spared m rid w0)"
  by (simp add: calm_def spared_def spared_rows_def spared_rest_def)

lemma other_runs_publish: "other_runs m rid (pw_runs (publish_in rid month phase w)) = other_runs m rid (pw_runs w)"
  unfolding publish_in_def by (simp add: other_runs_map set_progress_def)

lemma spared_publish: "spared m rid w0 w \<Longrightarrow> spared m rid w0 (publish_in rid month phase w)"
  unfolding spared_def spared_rest_def other_runs_publish by (simp add: spared_rows_def publish_in_def)

lemma kept_cards:
  assumes "set keys \<inter> T = {}"
  shows "filter (\<lambda>c. cd_tag c \<in> T) (filter (\<lambda>c. cd_tag c \<notin> set keys) cards) = filter (\<lambda>c. cd_tag c \<in> T) cards"
  using assms by (induction cards) auto

lemma other_dirs_without: "other_dirs m (without_dir m ip dirs) = other_dirs m dirs"
  by (induction dirs) (auto simp: other_dirs_def without_dir_def)

lemma spared_steady: "steady m rid (other_tags m (pw_smg w0)) (spared m rid w0)"
proof (rule steadyI [OF calm_spared])
  fix w rows assume I: "spared m rid w0 w"
  show "trimmed (smg_in_month m) rows (pw_smg w) \<Longrightarrow> spared m rid w0 (w\<lparr>pw_smg := rows\<rparr>)"
    using I ids_ok_trimmed [of "smg_in_month m" rows "pw_smg w"] trimmed_others [of "smg_in_month m" rows "pw_smg w"]
    by (simp add: spared_def spared_rows_def spared_rest_def)
next
  fix w and keys :: "string list"
  assume I: "spared m rid w0 w" and "set keys \<inter> other_tags m (pw_smg w0) = {}"
  then show "spared m rid w0 (w\<lparr>pw_cards := filter (\<lambda>c. cd_tag c \<notin> set keys) (pw_cards w)\<rparr>)"
    using kept_cards [of keys "other_tags m (pw_smg w0)" "pw_cards w"]
    by (simp add: spared_def spared_rows_def spared_rest_def)
qed (simp_all add: spared_publish,
    simp_all add: spared_def spared_rows_def spared_rest_def trimmed_others other_runs_trimmed other_dirs_without)

lemma other_runs_rid:
  assumes "\<And>r. run_id (f r) = run_id r" and "\<And>r. run_started (f r) = run_started r"
  shows "other_runs m rid (map (\<lambda>r. if run_id r = rid then f r else r) runs) = other_runs m rid runs"
  by (rule other_runs_map) (simp_all add: assms)

lemma spared_runs:
  assumes "spared m rid w0 w" and "other_runs m rid runs = other_runs m rid (pw_runs w)"
  shows "spared m rid w0 (w\<lparr>pw_runs := runs\<rparr>)"
  using assms by (simp add: spared_def spared_rows_def spared_rest_def)

lemma spared_calls:
  assumes "spared m rid w0 w" and "trimmed (call_in_month m) rows (pw_calls w)"
  shows "spared m rid w0 (call_noted batch d (call_written rid m d rows w))"
proof -
  have "other_runs m rid (pw_runs (call_written rid m d rows w)) = other_runs m rid (pw_runs w)"
    by (simp add: call_written_def Let_def other_runs_rid set_progress_def)
  then show ?thesis
    using assms trimmed_others [OF assms(2)]
    by (simp add: spared_def spared_rows_def spared_rest_def call_noted_def call_written_def Let_def)
qed

lemma spared_audit: "spared m rid w0 w \<Longrightarrow> spared m rid w0 (w\<lparr>pw_audit := pw_audit w @ [a]\<rparr>)"
  by (auto simp: spared_def spared_rows_def spared_rest_def intro: prefix_prefix)

lemma spared_same:
  assumes "spared m rid w0 w"
  shows "spared m rid w0 (w\<lparr>pw_slot := sl\<rparr>)" and "spared m rid w0 (w\<lparr>pw_target_count := n, pw_stages := st\<rparr>)"
    and "spared m rid w0 (w\<lparr>pw_deleted := d, pw_target_count := n\<rparr>)"
    and "spared m rid w0 (w\<lparr>pw_remainder := rc\<rparr>)" and "spared m rid w0 (hold_released key w)"
  using assms by (simp_all add: spared_def spared_rows_def spared_rest_def hold_released_def)

lemma spared_finished: "spared m rid w0 w \<Longrightarrow> spared m rid w0 (row_finished rid now h r w)"
  unfolding row_finished_def by (rule spared_runs) (simp_all add: other_runs_rid finish_row_def)

lemma spared_ended: "spared m rid w0 w \<Longrightarrow> spared m rid w0 (row_ended rid now w)"
  unfolding row_ended_def fail_job_run_if_still_running_def
  by (rule spared_runs) (simp_all add: other_runs_map)

lemma spared_flags: "spared m rid w0 w \<Longrightarrow> spared m rid w0 (flags_cleared key w)"
  unfolding flags_cleared_def by (rule spared_runs) (simp_all add: other_runs_flags)

lemma spared_begun: "spared m rid w0 w \<Longrightarrow> spared m rid w0 (row_begun rid now input w)"
  using other_runs_begun [of "started_row rid now input" rid m "pw_runs w"]
  by (simp add: spared_def spared_rows_def spared_rest_def row_begun_def started_row_def Let_def)

interpretation spare: purge_contract m rid input "other_tags m (pw_smg w0)" "spared m rid w0"
  for m rid input w0
proof unfold_locales
  show "steady m rid (other_tags m (pw_smg w0)) (\<lambda>w. spared m rid w0 w \<and> no_calls m w)"
    by (rule steady_conj [OF spared_steady steady_no_calls])
qed (simp_all add: calm_spared tagged_spared spared_same spared_audit spared_publish spared_calls spared_finished
    spared_ended spared_flags)

lemma spared_refl: "ids_ok (pw_smg w) \<Longrightarrow> spared m rid w w"
  by (simp add: spared_def spared_rows_def spared_rest_def)

lemma purge_triple:
  assumes "parse_month_key (ji_month input) = Some m"
  shows "triple (\<lambda>w. spared m rid w0 w \<and> pw_smg w = rows) (process_cdr_purge_month rid input)
    (\<lambda>r w. spared m rid w0 w
       \<and> (pt_failed r \<or> purged m rid (purge_keys m input (other_tags m (pw_smg w0)) rows) w))
    (spared m rid w0)"
  by (rule spare.process_triple [OF assms calm_spared]) (auto intro: spared_begun)

end
