(* ===== verification/Purge_Restart.thy ===== *)
theory Purge_Restart
  imports Purge_Spares
begin

text \<open>
  The mark a purge leaves for a restart. The contract of the run is interpreted on the invariant
  that the row of the run carries the mark as soon as one call of the month is deleted; from such a
  world the start of the server selects the month again.
\<close>

section \<open>The mark\<close>

definition lone_purge :: "string \<Rightarrow> purge_run list \<Rightarrow> bool" where
  "lone_purge rid runs \<longleftrightarrow>
     distinct (map run_id runs)
     \<and> (\<forall>r\<in>set runs. run_id r \<noteq> rid \<and> run_action r = Cdr_purge_month \<longrightarrow>
           run_status r \<noteq> Job_running \<and> \<not> continues_delete (pr_meta r))"

definition marked :: "cdr_month \<Rightarrow> purge_run \<Rightarrow> bool" where
  "marked m r \<longleftrightarrow> month_from_job r = Some (cm_key m) \<and> continues_delete (pr_meta r) \<and> purge_has_resume_trace r"

definition own_row :: "cdr_month \<Rightarrow> string \<Rightarrow> int \<Rightarrow> purge_run list \<Rightarrow> bool" where
  "own_row m rid deleted runs \<longleftrightarrow>
     (\<exists>r\<in>set runs. run_id r = rid)
     \<and> (\<forall>r\<in>set runs. run_id r = rid \<longrightarrow> run_action r = Cdr_purge_month \<and> (deleted > 0 \<longrightarrow> marked m r))"

definition call_count :: "cdr_month \<Rightarrow> purge_world \<Rightarrow> int" where
  "call_count m w = count_rows (call_in_month m) (pw_calls w)"

text \<open>As long as calls are left; \<open>n\<close> is their number at the start.\<close>

definition delete_marked :: "cdr_month \<Rightarrow> string \<Rightarrow> int \<Rightarrow> purge_world \<Rightarrow> bool" where
  "delete_marked m rid n w \<longleftrightarrow>
     lone_purge rid (pw_runs w) \<and> own_row m rid (pw_deleted w) (pw_runs w)
     \<and> 0 \<le> pw_deleted w \<and> call_count m w + pw_deleted w = n"

definition restartable ::
  "cdr_month \<Rightarrow> string \<Rightarrow> job_input \<Rightarrow> string set \<Rightarrow> int \<Rightarrow> purge_world \<Rightarrow> bool" where
  "restartable m rid input tags n w \<longleftrightarrow>
     ids_ok (pw_smg w) \<and> other_tags m (pw_smg w) = tags \<and> parse_month_key (Some (cm_key m)) = Some m
     \<and> (ji_history_only input \<or> no_calls m w \<or> delete_marked m rid n w)"

text \<open>A change of the runs that keeps the ids, and the rows of other purges.\<close>

definition row_step :: "string \<Rightarrow> (purge_run \<Rightarrow> purge_run) \<Rightarrow> bool" where
  "row_step rid f \<longleftrightarrow>
     (\<forall>r. run_id (f r) = run_id r \<and> run_action (f r) = run_action r \<and> (run_id r \<noteq> rid \<longrightarrow> f r = r))"

lemma lone_map:
  assumes "row_step rid f" and "lone_purge rid runs"
  shows "lone_purge rid (map f runs)"
proof -
  have ids: "map run_id (map f runs) = map run_id runs" using assms(1) by (simp add: row_step_def)
  show ?thesis using assms unfolding lone_purge_def row_step_def ids by auto
qed

lemma own_row_map:
  assumes "row_step rid f" and "own_row m rid d runs"
    and "\<And>r. run_id r = rid \<Longrightarrow> d1 > 0 \<Longrightarrow> (d > 0 \<Longrightarrow> marked m r) \<Longrightarrow> marked m (f r)"
  shows "own_row m rid d1 (map f runs)"
  using assms unfolding own_row_def row_step_def by (auto 0 3)

lemma delete_marked_map:
  assumes "row_step rid f" and "delete_marked m rid n w"
    and "\<And>r. run_id r = rid \<Longrightarrow> pw_deleted w > 0 \<Longrightarrow> marked m r \<Longrightarrow> marked m (f r)"
  shows "delete_marked m rid n (w\<lparr>pw_runs := map f (pw_runs w)\<rparr>)"
  using assms own_row_map [OF assms(1), of m "pw_deleted w" "pw_runs w" "pw_deleted w"]
  by (simp add: delete_marked_def lone_map call_count_def)

lemma month_key_again: "parse_month_key raw = Some m \<Longrightarrow> parse_month_key (Some (cm_key m)) = Some m"
  using parse_month_keyD [of raw m] parse_month_key_print [of "cm_year m" "cm_month m"]
  by (auto simp: parse_month_key_def Let_def split: if_splits)

lemma marked_batch:
  assumes "parse_month_key (Some (cm_key m)) = Some m" and "0 < d"
  shows "marked m (set_progress d (batch_meta (cm_key m) stages) r)"
  using assms
  by (simp add: marked_def set_progress_def batch_meta_def with_continue_delete_def meta_or_empty_def object_meta_def
      progress_meta_def month_from_job_def meta_field_def continues_delete_def purge_has_resume_trace_def
      deleted_calls_from_purge_job_def Let_def)

lemma marked_finished:
  assumes "parse_month_key (Some (cm_key m)) = Some m" and "pt_failed x" and "0 < pt_deleted x"
    and "pt_month x = Some (cm_key m)"
  shows "marked m (finish_row now False x r)"
  using assms
  by (simp add: marked_def finish_row_def finish_meta_def opt_str_def object_meta_def
      month_from_job_def meta_field_def continues_delete_def purge_has_resume_trace_def
      deleted_calls_from_purge_job_def Let_def)

lemma marked_status: "marked m (r\<lparr>run_status := s, run_finished := t, run_error := e\<rparr>) = marked m r"
  by (simp add: marked_def month_from_job_def purge_has_resume_trace_def deleted_calls_from_purge_job_def
      deleted_smg_from_purge_job_def Let_def)

lemma trimmed_count:
  assumes "trimmed P rows1 rows" and "length rows = k + length rows1"
  shows "count_rows P rows = int k + count_rows P rows1"
proof -
  have "length (filter (\<lambda>r. \<not> P r) rows1) = length (filter (\<lambda>r. \<not> P r) rows)" using assms(1) by (simp add: trimmed_def)
  then show ?thesis
    using assms(2) sum_length_filter_compl [of P rows] sum_length_filter_compl [of P rows1]
    by (simp add: count_rows_def)
qed

lemma call_count_zero: "call_count m w = 0 \<longleftrightarrow> no_calls m w"
  by (simp add: call_count_def count_rows_def)

section \<open>The invariant of the run\<close>

lemma restartable_calls:
  assumes I: "restartable m rid input tags n w" and t: "trimmed (call_in_month m) rows (pw_calls w)"
    and k: "0 < k" and len: "length (pw_calls w) = k + length rows"
  shows "restartable m rid input tags n
    (call_noted (int k) (pw_deleted w + int k) (call_written rid m (pw_deleted w + int k) rows w))"
proof -
  let ?d = "pw_deleted w + int k"
  let ?st = "set_done Stage_calls ?d (pw_stages w)"
  let ?f = "\<lambda>r. if run_id r = rid then set_progress ?d (batch_meta (cm_key m) ?st) r else r"
  let ?w = "call_noted (int k) ?d (call_written rid m ?d rows w)"
  have w: "pw_runs ?w = map ?f (pw_runs w)" "pw_calls ?w = rows" "pw_deleted ?w = ?d" "pw_smg ?w = pw_smg w"
    by (simp_all add: call_noted_def call_written_def Let_def)
  have cnt: "call_count m w = int k + call_count m ?w"
    unfolding call_count_def w by (rule trimmed_count [OF t len])
  have step: "row_step rid ?f" by (simp add: row_step_def set_progress_def)
  have "delete_marked m rid n ?w" if "delete_marked m rid n w"
  proof -
    have "own_row m rid ?d (map ?f (pw_runs w))"
      by (rule own_row_map [OF step, where d = "pw_deleted w"])
        (use that I k marked_batch in \<open>auto simp: delete_marked_def restartable_def\<close>)
    then show ?thesis
      using that lone_map [OF step, of "pw_runs w"] cnt k unfolding delete_marked_def w by simp
  qed
  moreover have "no_calls m ?w" if "no_calls m w"
    using trimmed_none [OF t that] unfolding w .
  ultimately show ?thesis using I unfolding restartable_def w by blast
qed

lemma restartable_runs:
  assumes "restartable m rid input tags n w" and "row_step rid f"
    and "\<And>r. run_id r = rid \<Longrightarrow> \<not> ji_history_only input \<Longrightarrow> \<not> no_calls m w \<Longrightarrow> pw_deleted w > 0 \<Longrightarrow>
        parse_month_key (Some (cm_key m)) = Some m \<Longrightarrow> marked m r \<Longrightarrow> marked m (f r)"
  shows "restartable m rid input tags n (w\<lparr>pw_runs := map f (pw_runs w)\<rparr>)"
  using assms(1,3) delete_marked_map [OF assms(2), of m n w]
  by (auto simp: restartable_def simp del: filter_empty_conv)

lemma restartable_finished:
  assumes "restartable m rid input tags n w" and "pt_month r = Some (cm_key m)"
    and "ji_history_only input \<or> pt_deleted r = pw_deleted w" and "pt_failed r \<or> no_calls m w"
  shows "restartable m rid input tags n (row_finished rid now (ji_history_only input) r w)"
  unfolding row_finished_def
proof (rule restartable_runs [OF assms(1)])
  show "row_step rid (\<lambda>x. if run_id x = rid then finish_row now (ji_history_only input) r x else x)"
    by (simp add: row_step_def finish_row_def)
  fix x :: purge_run
  assume "\<not> ji_history_only input" "\<not> no_calls m w" "pw_deleted w > 0" "run_id x = rid"
    "parse_month_key (Some (cm_key m)) = Some m"
  then show "marked m (if run_id x = rid then finish_row now (ji_history_only input) r x else x)"
    using assms(2,3,4) marked_finished [of m r now x] by simp
qed

lemma restartable_ended:
  assumes "restartable m rid input tags n w"
  shows "restartable m rid input tags n (row_ended rid now w)"
  unfolding row_ended_def fail_job_run_if_still_running_def
  by (rule restartable_runs [OF assms]) (simp_all add: row_step_def marked_status)

lemma restartable_no_calls:
  assumes "restartable m rid input tags n w" and "no_calls m w" and "pw_calls w1 = pw_calls w" and "pw_smg w1 = pw_smg w"
  shows "restartable m rid input tags n w1"
  using assms by (simp add: restartable_def)

lemma restartable_same:
  assumes "restartable m rid input tags n w"
  shows "restartable m rid input tags n (w\<lparr>pw_slot := sl\<rparr>)" and "restartable m rid input tags n (w\<lparr>pw_audit := as\<rparr>)"
    and "restartable m rid input tags n (w\<lparr>pw_target_count := k, pw_stages := st\<rparr>)"
    and "restartable m rid input tags n (w\<lparr>pw_remainder := rc\<rparr>)"
    and "restartable m rid input tags n (hold_released key w)"
  using assms by (simp_all add: restartable_def delete_marked_def call_count_def hold_released_def del: filter_empty_conv)

lemma restartable_first:
  assumes "restartable m rid input tags n w" and "pw_deleted w = 0"
  shows "restartable m rid input tags n (publish_in rid month phase w)"
  unfolding publish_in_def
  by (rule restartable_runs [OF assms(1)]) (simp_all add: row_step_def set_progress_def assms(2))

lemma restartable_calm: "calm (restartable m rid input tags n)"
  by (simp add: calm_def restartable_def delete_marked_def call_count_def del: filter_empty_conv)

definition late_ok :: "cdr_month \<Rightarrow> string set \<Rightarrow> purge_world \<Rightarrow> bool" where
  "late_ok m tags w \<longleftrightarrow>
     ids_ok (pw_smg w) \<and> other_tags m (pw_smg w) = tags \<and> parse_month_key (Some (cm_key m)) = Some m"

lemma steady_late_ok: "steady m rid tags (late_ok m tags)"
proof (rule steadyI)
  fix w rows assume "late_ok m tags w" and t: "trimmed (smg_in_month m) rows (pw_smg w)"
  then show "late_ok m tags (w\<lparr>pw_smg := rows\<rparr>)"
    using ids_ok_trimmed [OF t] other_tags_outside [of m rows "pw_smg w"] trimmed_others [OF t]
    by (simp add: late_ok_def)
qed (simp_all add: calm_def late_ok_def publish_in_def)

lemma restartable_late: "(restartable m rid input tags n w \<and> no_calls m w) = (late_ok m tags w \<and> no_calls m w)"
  unfolding restartable_def late_ok_def by blast

interpretation restart: purge_contract m rid input tags "restartable m rid input tags n"
  for m rid input tags n
proof unfold_locales
  show "steady m rid tags (\<lambda>w. restartable m rid input tags n w \<and> no_calls m w)"
    unfolding restartable_late by (rule steady_conj [OF steady_late_ok steady_no_calls])
  show "tagged m tags (restartable m rid input tags n)"
    by (simp add: tagged_def restartable_def)
  show "restartable m rid input tags n (w\<lparr>pw_deleted := d, pw_target_count := k\<rparr>)"
    if "restartable m rid input tags n w" "no_calls m w" for w d k
    by (rule restartable_no_calls [OF that]) simp_all
  show "restartable m rid input tags n (flags_cleared (cm_key m) w)"
    if "restartable m rid input tags n w" "no_calls m w" for w
    by (rule restartable_no_calls [OF that]) (simp_all add: flags_cleared_def)
qed (simp_all add: restartable_calm restartable_same restartable_first restartable_calls restartable_finished
    restartable_ended)

section \<open>The start of the server\<close>

lemma filter_single:
  assumes "distinct (map run_id xs)" and "r \<in> set xs" and "P r"
    and "\<And>x. x \<in> set xs \<Longrightarrow> P x \<Longrightarrow> run_id x = run_id r"
  shows "filter P xs = [r]"
  using assms
proof (induction xs)
  case (Cons x xs)
  show ?case
  proof (cases "x = r")
    case True
    have "\<not> P y" if "y \<in> set xs" for y
      using Cons.prems(4) [of y] that True Cons.prems(1) by (auto simp: image_iff)
    then have "filter P xs = []" by (simp add: filter_empty_conv)
    then show ?thesis using True Cons.prems(3) by simp
  next
    case False
    then have r: "r \<in> set xs" using Cons.prems(2) by simp
    then have "run_id x \<noteq> run_id r" using Cons.prems(1) by force
    then have "\<not> P x" using Cons.prems(4) [of x] by auto
    moreover have "filter P xs = [r]"
    proof (rule Cons.IH)
      show "distinct (map run_id xs)" using Cons.prems(1) by simp
      show "run_id y = run_id r" if "y \<in> set xs" "P y" for y using Cons.prems(4) [of y] that by simp
    qed (fact r, fact Cons.prems(3))
    ultimately show ?thesis by simp
  qed
qed simp

definition reclaimed :: "int \<Rightarrow> purge_run \<Rightarrow> purge_run" where
  "reclaimed now r =
     (if run_status r = Job_running
      then r\<lparr>run_status := Job_failed, run_finished := Some now, run_error := Some orphan_reclaim_message\<rparr> else r)"

lemma reclaim_runs:
  "reclaim_orphan_job_runs now runs =
     (length (filter (\<lambda>r. run_status r = Job_running) runs),
      filter (\<lambda>r. run_status r = Job_running \<and> run_action r = Cdr_purge_month) runs, map (reclaimed now) runs)"
  by (simp add: reclaim_orphan_job_runs_def reclaimed_def [abs_def])

lemma reclaimed_same [simp]:
  "run_id (reclaimed now r) = run_id r" "run_action (reclaimed now r) = run_action r"
  "pr_meta (reclaimed now r) = pr_meta r" "pr_phones (reclaimed now r) = pr_phones r"
  by (simp_all add: reclaimed_def)

lemma one_continuation:
  assumes lone: "lone_purge (run_id r) runs" and r: "r \<in> set runs" "run_action r = Cdr_purge_month"
    and flag: "continues_delete (pr_meta r)"
  shows "\<exists>j. continuation_jobs (filter (\<lambda>r. run_status r = Job_running \<and> run_action r = Cdr_purge_month) runs)
       (map (reclaimed now) runs) = [j]
     \<and> run_id j = run_id r \<and> pr_meta j = pr_meta r \<and> pr_phones j = pr_phones r"
proof -
  let ?running = "filter (\<lambda>r. run_status r = Job_running \<and> run_action r = Cdr_purge_month) runs"
  have d: "distinct (map run_id runs)" using lone by (simp add: lone_purge_def)
  have "filter (\<lambda>x. run_action x = Cdr_purge_month \<and> continues_delete (pr_meta x)) (map (reclaimed now) runs)
      = map (reclaimed now) (filter (\<lambda>x. run_action x = Cdr_purge_month \<and> continues_delete (pr_meta x)) runs)"
    by (simp add: filter_map comp_def)
  moreover have "filter (\<lambda>x. run_action x = Cdr_purge_month \<and> continues_delete (pr_meta x)) runs = [r]"
    by (rule filter_single [OF d r(1)]) (use r flag lone in \<open>auto simp: lone_purge_def\<close>)
  ultimately have flagged: "flagged_purges (map (reclaimed now) runs) = [reclaimed now r]"
    by (simp add: flagged_purges_def)
  have "?running = [] \<or> ?running = [r]"
  proof (cases "run_status r = Job_running")
    case True
    have "?running = [r]"
      by (rule filter_single [OF d r(1)]) (use r True lone in \<open>auto simp: lone_purge_def\<close>)
    then show ?thesis by simp
  next
    case False
    have "?running = []"
      unfolding filter_empty_conv
    proof
      fix x assume x: "x \<in> set runs"
      show "\<not> (run_status x = Job_running \<and> run_action x = Cdr_purge_month)"
      proof
        assume a: "run_status x = Job_running \<and> run_action x = Cdr_purge_month"
        then have "run_id x = run_id r" using lone x by (auto simp: lone_purge_def)
        then have "x = r" using d x r(1) by (auto simp: distinct_map dest: inj_onD)
        then show False using a False by simp
      qed
    qed
    then show ?thesis by simp
  qed
  then show ?thesis
    by (auto simp: continuation_jobs_def flagged continuation_of_def)
qed

lemma trace_of_job:
  assumes "pr_meta j = pr_meta r" and "pr_phones j = pr_phones r"
  shows "purge_has_resume_trace j = purge_has_resume_trace r" and "month_from_job j = month_from_job r"
  using assms
  by (simp_all add: purge_has_resume_trace_def month_from_job_def deleted_calls_from_purge_job_def
      deleted_smg_from_purge_job_def Let_def)

lemma prepare_selects:
  assumes job: "continuation_jobs running runs = [j]" and flag: "continues_delete (pr_meta j)"
    and month: "month_from_job j = Some key" "key \<noteq> current" and trace: "purge_has_resume_trace j"
    and left: "mr_calls (remainder key) > 0"
  shows "fst (prepare_call_continuation remainder current running runs) = Some key"
proof -
  have seen: "read_remainders remainder current (\<lambda>j. cj_just_reclaimed j \<or> continues_delete (pr_meta j)) [j]
      = [key \<mapsto> remainder key]"
    using flag month trace by (simp add: read_remainders_def)
  have stale: "\<not> stale_flag [key \<mapsto> remainder key] j"
    using month left by (simp add: stale_flag_def)
  have sel: "select_call_continuation current [key \<mapsto> remainder key] [j]
      = Some \<lparr>cc_month = key, cc_job = run_id j, cc_reclaimed = cj_just_reclaimed j\<rparr>"
    using flag month trace left by (simp add: select_call_continuation_def continuation_step_def)
  show ?thesis
    by (simp add: prepare_call_continuation_def Let_def job seen clear_stale_flags_def stale sel)
qed

lemma boot_selects:
  assumes "parse_month_key (Some (cm_key m)) = Some m" and "lone_purge rid (pw_runs w)"
    and "own_row m rid d (pw_runs w)" and "0 < d" and "\<not> no_calls m w"
    and "cm_key (current_utc_month now) \<noteq> cm_key m"
  shows "fst (boot_purge now w) = Some (calls_input (cm_key m))"
proof -
  obtain r where r: "r \<in> set (pw_runs w)" "run_id r = rid" "run_action r = Cdr_purge_month" "marked m r"
    using assms(3,4) by (auto simp: own_row_def)
  let ?running = "filter (\<lambda>r. run_status r = Job_running \<and> run_action r = Cdr_purge_month) (pw_runs w)"
  obtain j where j: "continuation_jobs ?running (map (reclaimed now) (pw_runs w)) = [j]"
      "pr_meta j = pr_meta r" "pr_phones j = pr_phones r"
    using one_continuation [of r "pw_runs w" now] assms(2) r by (auto simp: marked_def)
  have left: "mr_calls (world_remainder w (cm_key m)) > 0"
    using assms(1,5) call_count_zero [of m w] by (simp add: world_remainder_def call_count_def count_rows_def)
  have "fst (prepare_call_continuation (world_remainder w) (cm_key (current_utc_month now)) ?running
      (map (reclaimed now) (pw_runs w))) = Some (cm_key m)"
    by (rule prepare_selects [OF j(1)])
      (use r(4) j(2,3) left assms(6) trace_of_job [of j r] in \<open>auto simp: marked_def\<close>)
  then obtain runs1 where "prepare_call_continuation (world_remainder w) (cm_key (current_utc_month now)) ?running
      (map (reclaimed now) (pw_runs w)) = (Some (cm_key m), runs1)"
    by (metis prod.collapse)
  then show ?thesis by (simp add: boot_purge_def Let_def reclaim_runs)
qed

section \<open>The run and the start together\<close>

definition unbegun :: "purge_world \<Rightarrow> purge_world \<Rightarrow> bool" where
  "unbegun w0 w \<longleftrightarrow> pw_runs w = pw_runs w0 \<and> pw_calls w = pw_calls w0 \<and> pw_smg w = pw_smg w0"

lemma restartable_begun:
  assumes "parse_month_key (ji_month input) = Some m" and "unbegun w0 w" and "ids_ok (pw_smg w0)"
    and "lone_purge rid (pw_runs w0)" and "rid \<notin> run_id ` set (pw_runs w0)"
  shows "restartable m rid input (other_tags m (pw_smg w0)) (call_count m w0) (row_begun rid now input w)"
proof -
  let ?row = "started_row rid now input"
  have row: "run_id ?row = rid" "run_action ?row = Cdr_purge_month" by (simp_all add: started_row_def Let_def)
  have "lone_purge rid (pw_runs w0 @ [?row])"
    using assms(4,5) row by (auto simp: lone_purge_def)
  moreover have "own_row m rid 0 (pw_runs w0 @ [?row])"
    using assms(5) row by (auto simp: own_row_def)
  ultimately show ?thesis
    using assms(2,3) month_key_again [OF assms(1)]
    by (simp add: restartable_def delete_marked_def row_begun_def unbegun_def call_count_def del: filter_empty_conv)
qed

lemma restart_triple:
  assumes "parse_month_key (ji_month input) = Some m" and "ids_ok (pw_smg w0)"
    and "lone_purge rid (pw_runs w0)" and "rid \<notin> run_id ` set (pw_runs w0)"
  shows "triple (unbegun w0) (process_cdr_purge_month rid input)
    (\<lambda>_ w. restartable m rid input (other_tags m (pw_smg w0)) (call_count m w0) w)
    (\<lambda>w. unbegun w0 w \<or> restartable m rid input (other_tags m (pw_smg w0)) (call_count m w0) w)"
proof (rule triple_each [where g = pw_smg])
  fix rows
  have "calm (unbegun w0)" by (simp add: calm_def unbegun_def)
  note t = restart.process_triple [OF assms(1) this restartable_begun [OF assms(1) _ assms(2,3,4)]]
  show "triple (\<lambda>w. unbegun w0 w \<and> pw_smg w = rows) (process_cdr_purge_month rid input)
    (\<lambda>_ w. restartable m rid input (other_tags m (pw_smg w0)) (call_count m w0) w)
    (\<lambda>w. unbegun w0 w \<or> restartable m rid input (other_tags m (pw_smg w0)) (call_count m w0) w)"
    by (rule triple_weaken [OF t]) auto
qed

lemma restartable_selects:
  assumes "restartable m rid input tags n w" and "\<not> ji_history_only input" and "\<not> no_calls m w"
    and "call_count m w \<noteq> n" and "cm_key (current_utc_month now) \<noteq> cm_key m"
  shows "fst (boot_purge now w) = Some (calls_input (cm_key m))"
proof (rule boot_selects)
  show "parse_month_key (Some (cm_key m)) = Some m" using assms(1) by (simp add: restartable_def)
  have d: "delete_marked m rid n w" using assms(1,2,3) by (simp add: restartable_def del: filter_empty_conv)
  then show "lone_purge rid (pw_runs w)" "own_row m rid (pw_deleted w) (pw_runs w)" "0 < pw_deleted w"
    using assms(4) by (auto simp: delete_marked_def)
qed (fact assms)+

end
