(* ===== verification/Purge_Choice.thy ===== *)
theory Purge_Choice
  imports Purge_Restart
begin

text \<open>
  The choice of the month to resume: a loop that keeps the best of the candidates so far, as a
  locale over the order, interpreted for both selections of \<open>purge/resume.ts\<close>; and the journals of
  held files as finite maps, with a locale for what the purge asks of a journal, interpreted for
  the journals of both imports.
\<close>

section \<open>The best candidate\<close>

definition keep_best :: "('c \<Rightarrow> 'c \<Rightarrow> bool) \<Rightarrow> ('a \<Rightarrow> 'c option) \<Rightarrow> 'c option \<Rightarrow> 'a \<Rightarrow> 'c option" where
  "keep_best better cand best x =
     (case cand x of
        None \<Rightarrow> best
      | Some c \<Rightarrow> (case best of None \<Rightarrow> Some c | Some b \<Rightarrow> if better c b then Some c else best))"

locale best_choice =
  fixes better :: "'c \<Rightarrow> 'c \<Rightarrow> bool"
  assumes irrefl: "\<not> better c c"
    and negatively_transitive: "\<not> better a b \<Longrightarrow> \<not> better b c \<Longrightarrow> \<not> better a c"
    and trans: "better a b \<Longrightarrow> better b c \<Longrightarrow> better a c"
begin

lemma better_weak: "better a b \<Longrightarrow> \<not> better c b \<Longrightarrow> \<not> better c a"
  using negatively_transitive trans by blast

lemma choice:
  "case foldl (keep_best better cand) best xs of
     None \<Rightarrow> best = None \<and> (\<forall>x\<in>set xs. cand x = None)
   | Some b \<Rightarrow> (Some b = best \<or> (\<exists>x\<in>set xs. cand x = Some b))
       \<and> (\<forall>c. Some c = best \<or> (\<exists>x\<in>set xs. cand x = Some c) \<longrightarrow> \<not> better c b)"
proof (induction xs arbitrary: best)
  case Nil
  then show ?case by (auto simp: irrefl split: option.split)
next
  case (Cons x xs)
  show ?case
  proof (cases "cand x")
    case None
    then show ?thesis using Cons.IH [of best] by (auto simp: keep_best_def split: option.splits)
  next
    case (Some c)
    show ?thesis
    proof (cases best)
      case None
      then show ?thesis using Cons.IH [of "Some c"] Some by (auto simp: keep_best_def split: option.splits)
    next
      case (Some b)
      define b1 where "b1 = (if better c b then c else b)"
      have step: "keep_best better cand best x = Some b1"
        using \<open>cand x = Some c\<close> Some by (simp add: keep_best_def b1_def)
      obtain r where r: "foldl (keep_best better cand) (Some b1) xs = Some r"
        using Cons.IH [of "Some b1"] by (cases "foldl (keep_best better cand) (Some b1) xs") auto
      note ih = Cons.IH [of "Some b1", unfolded r option.case]
      have "\<not> better b1 r" using ih by blast
      moreover have "\<not> better c b1" "\<not> better b b1"
        using irrefl [of c] irrefl [of b] better_weak [OF _ irrefl, of c b] trans [of b c b] by (simp_all add: b1_def)
      ultimately have beaten: "\<not> better c r" "\<not> better b r" using negatively_transitive by blast+
      have fold: "foldl (keep_best better cand) best (x # xs) = Some r" using step r by simp
      have "r = b \<or> r = c \<or> (\<exists>y\<in>set xs. cand y = Some r)" using ih by (auto simp: b1_def split: if_splits)
      moreover have "\<not> better d r" if "d = b \<or> d = c \<or> (\<exists>y\<in>set xs. cand y = Some d)" for d
        using that beaten ih by blast
      ultimately show ?thesis
        unfolding fold option.case using \<open>best = Some b\<close> \<open>cand x = Some c\<close> by auto
    qed
  qed
qed

end

definition better_resume :: "resume_month \<Rightarrow> resume_month \<Rightarrow> bool" where
  "better_resume c b \<longleftrightarrow>
     rm_month c < rm_month b \<or> (rm_month c = rm_month b \<and> rm_deleted_calls c > rm_deleted_calls b)"

definition resume_candidate ::
  "string \<Rightarrow> (string \<Rightarrow> month_remainder option) \<Rightarrow> 'a purge_run_scheme \<Rightarrow> resume_month option" where
  "resume_candidate current remainders job =
     (case month_from_job job of
        Some month \<Rightarrow>
          (case remainders month of
             Some left \<Rightarrow>
               if run_error job = Some orphan_reclaim_message \<and> month \<noteq> current \<and> purge_has_resume_trace job
                  \<and> mr_calls left = 0 \<and> mr_jobs left + mr_audit left > 0
               then Some \<lparr>rm_month = month, rm_deleted_calls = deleted_calls_from_purge_job job\<rparr> else None
           | None \<Rightarrow> None)
      | None \<Rightarrow> None)"

definition call_candidate ::
  "string \<Rightarrow> (string \<Rightarrow> month_remainder option) \<Rightarrow> continuation_job \<Rightarrow> call_continuation option" where
  "call_candidate current remainders job =
     (case month_from_job job of
        Some month \<Rightarrow>
          (case remainders month of
             Some left \<Rightarrow>
               if (cj_just_reclaimed job \<or> continues_delete (pr_meta job)) \<and> month \<noteq> current
                  \<and> purge_has_resume_trace job \<and> mr_calls left > 0
               then Some \<lparr>cc_month = month, cc_job = run_id job, cc_reclaimed = cj_just_reclaimed job\<rparr> else None
           | None \<Rightarrow> None)
      | None \<Rightarrow> None)"

lemma compare_less: "compare_month_key a b < 0 \<longleftrightarrow> a < b"
  by (simp add: compare_month_key_def)

lemma resume_step_best: "resume_step current remainders = keep_best better_resume (resume_candidate current remainders)"
  by (intro ext)
    (auto simp: resume_step_def keep_best_def resume_candidate_def better_resume_def compare_less Let_def
      split: option.split)

lemma continuation_step_best:
  "continuation_step current remainders = keep_best better_continuation (call_candidate current remainders)"
  by (intro ext)
    (auto simp: continuation_step_def keep_best_def call_candidate_def Let_def split: option.split)

interpretation resume: best_choice better_resume
  by unfold_locales (auto simp: better_resume_def)

interpretation continuation: best_choice better_continuation
  by unfold_locales (auto simp: better_continuation_def compare_less)

lemma resume_choice:
  "case select_resume_month current remainders jobs of
     None \<Rightarrow> \<forall>j\<in>set jobs. resume_candidate current remainders j = None
   | Some b \<Rightarrow> (\<exists>j\<in>set jobs. resume_candidate current remainders j = Some b)
       \<and> (\<forall>j\<in>set jobs. \<forall>c. resume_candidate current remainders j = Some c \<longrightarrow> \<not> better_resume c b)"
  using resume.choice [where cand = "resume_candidate current remainders" and best = None and xs = jobs]
  by (auto simp: select_resume_month_def resume_step_best split: option.splits)

lemma call_choice:
  "case select_call_continuation current remainders jobs of
     None \<Rightarrow> \<forall>j\<in>set jobs. call_candidate current remainders j = None
   | Some b \<Rightarrow> (\<exists>j\<in>set jobs. call_candidate current remainders j = Some b)
       \<and> (\<forall>j\<in>set jobs. \<forall>c. call_candidate current remainders j = Some c \<longrightarrow> \<not> better_continuation c b)"
  using continuation.choice [where cand = "call_candidate current remainders" and best = None and xs = jobs]
  by (auto simp: select_call_continuation_def continuation_step_best split: option.splits)

section \<open>Journals of held files\<close>

text \<open>
  What the purge and the imports ask of a journal: it is a map from file names to the time and
  the error of the file, a hold of a month hides its file exactly while the month is the live
  target, and a release drops exactly the holds of its month.
\<close>

locale hold_journal =
  fixes entries :: "'j \<Rightarrow> string \<Rightarrow> (int \<times> text16) option" and sound :: "'j \<Rightarrow> bool"
    and mark :: "string \<Rightarrow> int \<Rightarrow> text16 \<Rightarrow> 'j \<Rightarrow> 'j" and release :: "string \<Rightarrow> 'j \<Rightarrow> 'j"
    and hidden :: "string option \<Rightarrow> string \<Rightarrow> int \<Rightarrow> 'j \<Rightarrow> bool"
  assumes mark_sound: "sound j \<Longrightarrow> sound (mark f t err j)"
    and release_sound: "sound j \<Longrightarrow> sound (release m j)"
    and mark_entries: "sound j \<Longrightarrow> entries (mark f t err j) = (entries j)(f \<mapsto> (t, err))"
    and release_entries: "sound j \<Longrightarrow> entries (release m j) =
        (\<lambda>f. case entries j f of None \<Rightarrow> None | Some (t, err) \<Rightarrow> if error_holds_month err m then None else Some (t, err))"
    and hidden_entries: "hidden live f t j \<longleftrightarrow>
        (\<exists>err. entries j f = Some (t, err) \<and> \<not> purge_hold_released live err)"
begin

lemma held_file:
  assumes "sound j" and "fits month_pattern m" and "hold_boundary rest"
  shows "hidden live f t (mark f t (purge_hold_message m @ rest) j) \<longleftrightarrow> live = Some m"
    and "\<not> hidden live f t (release m (mark f t (a @ purge_hold_message m @ rest) j))"
    and "g \<noteq> f \<Longrightarrow> entries (release m (mark f t (a @ purge_hold_message m @ rest) j)) g = entries (release m j) g"
proof -
  have "rest = [] \<or> hd rest = 46 \<or> hd rest = 41 \<or> regex_space (hd rest)"
    using assms(3) by (auto simp: hold_boundary_def regex_space_def)
  then show "hidden live f t (mark f t (purge_hold_message m @ rest) j) \<longleftrightarrow> live = Some m"
    using held_month_of_message [OF assms(2), of rest] assms(1)
    by (auto simp: hidden_entries mark_entries purge_hold_released_def)
  show "\<not> hidden live f t (release m (mark f t (a @ purge_hold_message m @ rest) j))"
    using error_holds_embedded [OF assms(2,3), of a] assms(1)
    by (simp add: hidden_entries release_entries mark_sound mark_entries)
  show "g \<noteq> f \<Longrightarrow> entries (release m (mark f t (a @ purge_hold_message m @ rest) j)) g = entries (release m j) g"
    using assms(1) by (simp add: release_entries mark_sound mark_entries)
qed

text \<open>A file whose error does not hold the month stays as it was.\<close>

lemma kept_file:
  assumes "sound j" and "entries j f = Some (t, err)" and "\<not> error_holds_month err m"
  shows "entries (release m j) f = Some (t, err)"
  using assms by (simp add: release_entries)

end

definition journal_entries :: "poison_map \<Rightarrow> string \<Rightarrow> (int \<times> text16) option" where
  "journal_entries jm f = map_option (\<lambda>e. (pe_mtime e, pe_error e)) (map_of jm f)"

definition journal_sound :: "poison_map \<Rightarrow> bool" where
  "journal_sound jm \<longleftrightarrow> distinct (map fst jm)"

lemma journal_mark:
  "journal_entries (mark_poisoned f t err b jm) = (journal_entries jm)(f \<mapsto> (t, err))"
  by (auto simp: journal_entries_def mark_poisoned_def update_conv')

lemma journal_drop:
  "journal_sound jm \<Longrightarrow> journal_entries (snd (drop_entries gone jm)) =
    (\<lambda>f. case journal_entries jm f of None \<Rightarrow> None | Some (t, err) \<Rightarrow> if gone err then None else Some (t, err))"
  by (auto simp: journal_entries_def journal_sound_def drop_entries_lookup split: option.splits)

interpretation cdr_journal: hold_journal journal_entries journal_sound
  "\<lambda>f t err. mark_poisoned f t err None" "\<lambda>m j. snd (clear_purge_holds m j)" "\<lambda>live f t. is_poisoned live f t None"
proof unfold_locales
  fix live f t j
  show "is_poisoned live f t None j \<longleftrightarrow> (\<exists>err. journal_entries j f = Some (t, err) \<and> \<not> purge_hold_released live err)"
    by (auto simp: is_poisoned_def journal_entries_def empty_dump_filled_def split: option.splits)
qed (simp_all add: journal_mark journal_drop clear_purge_holds_def,
    simp_all add: journal_sound_def distinct_mark distinct_drop_entries)

interpretation smg_journal: hold_journal journal_entries journal_sound mark_smg_poisoned
  "\<lambda>m j. snd (clear_smg_purge_holds m j)" "\<lambda>live f t. is_smg_poisoned live f t None"
proof unfold_locales
  fix live f t j
  show "is_smg_poisoned live f t None j \<longleftrightarrow> (\<exists>err. journal_entries j f = Some (t, err) \<and> \<not> purge_hold_released live err)"
    by (auto simp: is_smg_poisoned_def journal_entries_def empty_dump_filled_def split: option.splits)
qed (simp_all add: journal_mark journal_drop clear_smg_purge_holds_def mark_smg_poisoned_def,
    simp_all add: journal_sound_def distinct_mark distinct_drop_entries)

end
