(* ===== verification/Purge_Effects.thy ===== *)
theory Purge_Effects
  imports Purge_Restart
begin

text \<open>
  Effects of single operations of the purge: the batch of calls and its retries, what the end of a
  run does to the hold, what the metadata of a running purge says to the page, and the calls whose
  date text the deleting statement does not see.
\<close>

section \<open>A batch of calls\<close>

lemma db_done: "pw_faults w = [] \<Longrightarrow> db f w = f w"
  by (simp add: db_def)

lemma transaction_thrown:
  "call_transaction rid m d w = (Thrown e, w1) \<Longrightarrow> w1 = w \<and> e = plain_error no_such_run"
  by (auto simp: call_transaction_def transaction_def and_then_def purge_delete_batch_def pass_def
      update_run_def throw_def Let_def split: if_splits prod.splits outcome.splits)

lemma no_such_run_not_lock: "\<not> is_purge_lock_timeout (plain_error no_such_run)"
  by code_simp

lemma retries:
  assumes "is_purge_lock_timeout e" and "0 < attempt"
  shows "attempt + k \<le> call_lock_attempts \<Longrightarrow>
      delete_call_batch attempt rid m d (w\<lparr>pw_faults := replicate k (Faulty e) @ fs\<rparr>)
      = delete_call_batch (attempt + k) rid m d (w\<lparr>pw_faults := fs\<rparr>)"
  using assms
proof (induction k arbitrary: attempt)
  case (Suc k)
  have "delete_call_batch attempt rid m d (w\<lparr>pw_faults := replicate (Suc k) (Faulty e) @ fs\<rparr>)
      = delete_call_batch (Suc attempt) rid m d (w\<lparr>pw_faults := replicate k (Faulty e) @ fs\<rparr>)"
    using Suc.prems by (subst delete_call_batch.simps) (simp add: db_def)
  then show ?case using Suc.IH [of "Suc attempt"] Suc.prems by simp
qed simp

lemma last_try:
  assumes "pw_faults w = []"
  shows "delete_call_batch attempt rid m d w = call_transaction rid m d w"
  using transaction_thrown [of rid m d w] no_such_run_not_lock
  by (subst delete_call_batch.simps) (auto simp: db_done [OF assms] split: prod.split outcome.split)

lemma given_up:
  assumes "is_purge_lock_timeout e"
  shows "delete_call_batch call_lock_attempts rid m d (w\<lparr>pw_faults := Faulty e # fs\<rparr>) = (Thrown e, w\<lparr>pw_faults := fs\<rparr>)"
  using assms by (subst delete_call_batch.simps) (simp add: db_def)

text \<open>The rows and the mark go together or not at all.\<close>

definition batch_together :: "string \<Rightarrow> cdr_month \<Rightarrow> purge_world \<Rightarrow> int outcome \<Rightarrow> purge_world \<Rightarrow> bool" where
  "batch_together rid m w res w1 \<longleftrightarrow>
     (case res of
        Done n \<Rightarrow>
          if n \<le> 0 then no_calls m w \<and> pw_calls w1 = pw_calls w \<and> pw_runs w1 = pw_runs w
          else trimmed (call_in_month m) (pw_calls w1) (pw_calls w)
             \<and> int (length (pw_calls w)) = n + int (length (pw_calls w1))
             \<and> list_all (\<lambda>r. run_id r = rid \<longrightarrow> continues_delete (pr_meta r)) (pw_runs w1)
             \<and> list_ex (\<lambda>r. run_id r = rid) (pw_runs w1)
      | Stuck \<Rightarrow> False
      | _ \<Rightarrow> pw_calls w1 = pw_calls w \<and> pw_runs w1 = pw_runs w)"

lemma continues_batch_meta: "continues_delete (batch_meta key stages)"
  by (simp add: batch_meta_def with_continue_delete_def continues_delete_def meta_field_def object_meta_def)

lemma rid_kept:
  "list_ex (\<lambda>r. run_id r = rid) (map (\<lambda>r. if run_id r = rid then set_progress n meta r else r) rs)
   = list_ex (\<lambda>r. run_id r = rid) rs"
  by (induction rs) (auto simp: set_progress_def)

lemma all_continue:
  "list_all (\<lambda>r. run_id r = rid \<longrightarrow> continues_delete (pr_meta r))
    (map (\<lambda>r. if run_id r = rid then set_progress n (batch_meta key st) r else r) rs)"
  by (induction rs) (auto simp: set_progress_def continues_batch_meta)

lemma transaction_together:
  assumes "call_transaction rid m d w = (res, w1)"
  shows "batch_together rid m w res w1"
proof -
  obtain k rows where s: "delete_some cdr_purge_batch_size (call_in_month m) (pw_calls w) = (k, rows)"
    by (cases "delete_some cdr_purge_batch_size (call_in_month m) (pw_calls w)")
  show ?thesis
  proof (cases "k = 0")
    case True
    then have "rows = pw_calls w" "no_calls m w" using delete_some_none s batch_size_pos by blast+
    then show ?thesis
      using assms s True
      by (auto simp: batch_together_def call_transaction_def transaction_def and_then_def purge_delete_batch_def pass_def)
  next
    case False
    show ?thesis
    proof (cases "list_ex (\<lambda>r. run_id r = rid) (pw_runs w)")
      case True
      then show ?thesis
        using assms s False trimmed_delete [OF s] delete_some_length [OF s]
        by (auto simp: batch_together_def call_transaction_def transaction_def and_then_def purge_delete_batch_def
            pass_def update_run_def Let_def rid_kept all_continue)
    next
      case no: False
      then show ?thesis
        using assms s False
        by (auto simp: batch_together_def call_transaction_def transaction_def and_then_def purge_delete_batch_def
            pass_def update_run_def throw_def Let_def)
    qed
  qed
qed

lemma together_same:
  assumes "pw_calls v = pw_calls w" and "pw_runs v = pw_runs w"
  shows "batch_together rid m v res w1 = batch_together rid m w res w1"
  using assms by (cases res) (simp_all add: batch_together_def del: filter_empty_conv)

lemma db_together:
  assumes "db (call_transaction rid m d) w = (res, w1)"
  shows "batch_together rid m w res w1"
proof (cases "pw_faults w")
  case Nil
  then show ?thesis using assms transaction_together by (simp add: db_def)
next
  case (Cons f fs)
  let ?v = "w\<lparr>pw_faults := fs\<rparr>"
  show ?thesis
  proof (cases f)
    case Fine
    then have "call_transaction rid m d ?v = (res, w1)" using assms Cons by (simp add: db_def)
    then show ?thesis using transaction_together [of rid m d ?v] together_same [of ?v w] by simp
  qed (use assms Cons in \<open>auto simp: db_def batch_together_def\<close>)
qed

lemma batch_all_or_nothing:
  "delete_call_batch attempt rid m d w = (res, w1) \<Longrightarrow> batch_together rid m w res w1"
proof (induction attempt rid m d w rule: delete_call_batch.induct)
  case (1 attempt rid m d w)
  obtain r v where d: "db (call_transaction rid m d) w = (r, v)" by (cases "db (call_transaction rid m d) w")
  note now = db_together [OF d]
  show ?case
  proof (cases r)
    case (Thrown e)
    show ?thesis
    proof (cases "attempt \<ge> call_lock_attempts \<or> \<not> is_purge_lock_timeout e")
      case True
      then show ?thesis using "1.prems" now d Thrown by (subst (asm) delete_call_batch.simps) auto
    next
      case False
      have "delete_call_batch (Suc attempt) rid m d v = (res, w1)"
        using "1.prems" d Thrown False by (subst (asm) delete_call_batch.simps) auto
      from "1.IH" [OF d [symmetric] _ False this] have "batch_together rid m v res w1" using Thrown by simp
      moreover have "pw_calls v = pw_calls w" "pw_runs v = pw_runs w"
        using now Thrown by (simp_all add: batch_together_def)
      ultimately show ?thesis using together_same by blast
    qed
  next
    case (Done x)
    then show ?thesis using "1.prems" now d delete_call_batch.simps [of attempt rid m d w] by simp
  next
    case Killed
    then show ?thesis using "1.prems" now d delete_call_batch.simps [of attempt rid m d w] by simp
  next
    case Stuck
    then show ?thesis using "1.prems" now d delete_call_batch.simps [of attempt rid m d w] by simp
  qed
qed

section \<open>The end of a run\<close>

text \<open>Whether the hold goes: after a success whose flags could be cleared, or when nothing was deleted.\<close>

definition hold_ends :: "bool \<Rightarrow> bool \<Rightarrow> purge_world \<Rightarrow> bool" where
  "hold_ends resume succeeded w \<longleftrightarrow>
     (if succeeded then \<not> (\<exists>e fs. pw_faults w = Faulty e # fs)
      else \<not> resume \<and> \<not> slot_committed (pw_slot w))"

definition same_holds :: "purge_world \<Rightarrow> purge_world \<Rightarrow> bool" where
  "same_holds w1 w \<longleftrightarrow>
     pw_slot w1 = pw_slot w \<and> pw_poison w1 = pw_poison w \<and> pw_smg_poison w1 = pw_smg_poison w
     \<and> pw_drains w1 = pw_drains w"

definition holds_gone :: "string \<Rightarrow> purge_world \<Rightarrow> purge_world \<Rightarrow> bool" where
  "holds_gone key w1 w \<longleftrightarrow>
     slot_month (pw_slot w1) = None
     \<and> pw_poison w1 = snd (clear_purge_holds key (pw_poison w))
     \<and> pw_smg_poison w1 = snd (clear_smg_purge_holds key (pw_smg_poison w))
     \<and> pw_drains w1 = pw_drains w @ [Cdr_import, Smg_import]"

lemma clear_flags_same: "clear_flags key w = (res, w1) \<Longrightarrow> same_holds w1 w"
  by (auto simp: clear_flags_def db_def change_def same_holds_def split: list.splits fault.splits)

lemma end_row_same: "end_row rid w = (res, w1) \<Longrightarrow> same_holds w1 w"
  by (auto simp: end_row_def and_then_def read_clock_def db_def change_def same_holds_def
      split: list.splits fault.splits prod.splits outcome.splits)

lemma hold_goes_success:
  "hold_goes resume True (Some key) w =
     (case clear_flags key w of
        (Done _, w1) \<Rightarrow> (Done True, w1)
      | (Thrown e, w1) \<Rightarrow> (Done False, w1)
      | (Killed, w1) \<Rightarrow> (Killed, w1)
      | (Stuck, w1) \<Rightarrow> (Stuck, w1))"
  by (cases resume) (simp_all add: hold_goes_def)

lemma clear_flags_outcome:
  "clear_flags key w = (res, w1) \<Longrightarrow>
    (case res of Done _ \<Rightarrow> \<not> (\<exists>e fs. pw_faults w = Faulty e # fs)
       | Thrown e \<Rightarrow> (\<exists>e fs. pw_faults w = Faulty e # fs) | Killed \<Rightarrow> True | Stuck \<Rightarrow> False)"
  by (auto simp: clear_flags_def db_def change_def split: list.splits fault.splits)

lemma hold_goes_result:
  assumes "hold_goes resume succeeded (Some key) w = (Done goes, w1)"
  shows "goes = hold_ends resume succeeded w" and "same_holds w1 w"
proof -
  have "goes = hold_ends resume succeeded w \<and> same_holds w1 w"
  proof (cases succeeded)
    case True
    obtain r v where c: "clear_flags key w = (r, v)" by (cases "clear_flags key w")
    show ?thesis
      using assms True c clear_flags_outcome [OF c] clear_flags_same [OF c]
      by (cases r) (simp_all add: hold_goes_success hold_ends_def)
  next
    case False
    then show ?thesis using assms by (cases resume) (auto simp: hold_goes_def hold_ends_def same_holds_def)
  qed
  then show "goes = hold_ends resume succeeded w" "same_holds w1 w" by simp_all
qed

lemma release_effect: "release_hold (Some key) w = (Done (), w1) \<Longrightarrow> holds_gone key w1 w"
  by (auto simp: release_hold_def change_def holds_gone_def Let_def)

lemma finally_effect:
  assumes "purge_finally rid input succeeded (Some key) w = (Done (), w3)"
  shows "if hold_ends (ji_resume_calls input) succeeded w then holds_gone key w3 w else same_holds w3 w"
proof -
  obtain goes w1 where g: "hold_goes (ji_resume_calls input) succeeded (Some key) w = (Done goes, w1)"
    using assms by (auto simp: purge_finally_def and_then_def split: prod.splits outcome.splits)
  note h = hold_goes_result [OF g]
  show ?thesis
  proof (cases goes)
    case True
    obtain w2 where r: "release_hold (Some key) w1 = (Done (), w2)" by (simp add: release_hold_def change_def)
    have "end_row rid w2 = (Done (), w3)" using assms g True r by (simp add: purge_finally_def and_then_def)
    then show ?thesis
      using end_row_same release_effect [OF r] h True by (auto simp: holds_gone_def same_holds_def)
  next
    case False
    have "end_row rid w1 = (Done (), w3)" using assms g False by (simp add: purge_finally_def and_then_def pass_def)
    then show ?thesis
      using end_row_same h False by (auto simp: same_holds_def)
  qed
qed

section \<open>What the page reads of a running purge\<close>

lemma stage_all: "s \<in> set purge_stage_order"
  by (cases s) (simp_all add: purge_stage_order_def)

lemma map_of_stages: "map_of (map (\<lambda>s. (stage_id s, f s)) purge_stage_order) (stage_id s) = Some (f s)"
  by (cases s) (simp_all add: purge_stage_order_def)

lemma read_phase_id: "read_phase (Some (JStr (stage_id s))) = Some s"
  by (cases s) (simp_all add: read_phase_def purge_stage_order_def)

lemma read_counts_json:
  assumes "0 \<le> sc_done (stages s)" and "0 \<le> sc_total (stages s)"
  shows "read_counts (map (\<lambda>s. (stage_id s, counts_json (stages s))) purge_stage_order) s = Some (stages s)"
  using assms
  by (simp add: read_counts_def map_of_stages counts_json_def meta_field_def object_meta_def)

lemma read_stages_json:
  assumes "\<And>s. 0 \<le> sc_done (stages s)" and "\<And>s. 0 \<le> sc_total (stages s)"
  shows "read_stages (Some (stages_json stages)) = Some stages"
proof -
  note r = read_counts_json [OF assms]
  have "\<not> list_ex (\<lambda>s. read_counts (map (\<lambda>s. (stage_id s, counts_json (stages s))) purge_stage_order) s = None)
      purge_stage_order"
    by (simp add: list_ex_iff r)
  then show ?thesis by (simp add: read_stages_def stages_json_def object_meta_def r)
qed

section \<open>Dates the deleting statement does not see\<close>

lemma padded_date_unseen:
  assumes "parse_month_key raw = Some m" and "cl_date c = CHR '' '' # d"
  shows "\<not> call_in_month m c"
proof -
  have "0 \<le> cm_year m" using parse_month_keyD [OF assms(1)] by simp
  then obtain x xs where "int_str (cm_year m) = x # xs" "is_digit x"
    using int_str_digits [of "cm_year m"] by (cases "int_str (cm_year m)") auto
  then show ?thesis using assms(2) by (auto simp: call_in_month_def is_digit_def)
qed

lemma group_counts_mem: "x \<in> set rows \<Longrightarrow> \<exists>n>0. (key x, n) \<in> set (group_counts key rows)"
proof -
  assume x: "x \<in> set rows"
  have "filter (\<lambda>r. key r = key x) rows \<noteq> []" using x by (auto simp: filter_empty_conv)
  then have "0 < count_rows (\<lambda>r. key r = key x) rows" by (simp add: count_rows_def)
  moreover have "key x \<in> set (uniq (map key rows))" using x by simp
  ultimately show ?thesis by (auto simp: group_counts_def)
qed

lemma month_listed:
  assumes "c \<in> set calls" and "known_day (cl_day c)" and "parse_month_key (Some (take 7 (cl_day c))) = Some m"
  shows "\<exists>n>0. m\<lparr>cm_count := Some n\<rparr> \<in> set (query_month_call_counts False calls)"
proof -
  obtain n where "0 < n" and n: "(take 7 (cl_day c), n) \<in> set (group_counts (\<lambda>r. take 7 (cl_day r))
      (filter (\<lambda>r. known_day (cl_day r)) calls))"
    using group_counts_mem [of c "filter (\<lambda>r. known_day (cl_day r)) calls" "\<lambda>r. take 7 (cl_day r)"] assms(1,2) by auto
  then have "m\<lparr>cm_count := Some n\<rparr> \<in> set (query_month_call_counts False calls)"
    using assms(3) by (force simp: query_month_call_counts_def rows_to_months_def by_month_desc_def)
  then show ?thesis using \<open>0 < n\<close> by blast
qed

end
