(* ===== verification/Cdr_Lines.thy ===== *)
theory Cdr_Lines
  imports Purge_Holds
begin

text \<open>
  The lines of a dump of the softswitch: the columns (\<open>traffic/columns.ts\<close>), the split of a quoted
  line (\<open>enrich/parse-csv.ts\<close>), the header and the rows (\<open>traffic/parse-cdr.ts\<close>), and the counts of
  rejected lines (\<open>traffic/parse-reject.ts\<close>).

  A line is a list of UTF-16 code units; a record of fields is an association list from the names of
  the columns, in their order.
\<close>

section \<open>columns.ts\<close>

definition cdr_columns :: "string list" where
  "cdr_columns =
     [''cdr_id'', ''cdr_date'', ''in_ani'', ''in_dnis'', ''out_ani'', ''out_dnis'', ''bill_ani'',
      ''bill_dnis'', ''sig_node_name'', ''src_gatekeeper_address'', ''remote_src_sig_address'',
      ''remote_dst_sig_address'', ''remote_src_media_address'', ''remote_dst_media_address'',
      ''local_src_sig_address'', ''local_dst_sig_address'', ''local_src_media_address'',
      ''local_dst_media_address'', ''in_leg_proto'', ''out_leg_proto'', ''conf_id'',
      ''in_leg_call_id'', ''out_leg_call_id'', ''src_user'', ''dst_user'', ''radius_user'',
      ''src_name'', ''dst_name'', ''dp_name'', ''elapsed_time'', ''setup_time'', ''connect_time'',
      ''disconnect_time'', ''in_leg_codecs'', ''out_leg_codecs'', ''src_faststart_present'',
      ''dst_faststart_present'', ''src_tunneling_present'', ''dst_tunneling_present'', ''proxy_mode'',
      ''lar_fault_reason'', ''route_retries'', ''scd'', ''pdd'', ''media_group'',
      ''src_media_bytes_in'', ''src_media_bytes_out'', ''dst_media_bytes_in'',
      ''dst_media_bytes_out'', ''src_media_packets'', ''dst_media_packets'',
      ''src_media_packets_late'', ''dst_media_packets_late'', ''src_media_packets_lost'',
      ''dst_media_packets_lost'', ''src_min_jitter_size'', ''src_max_jitter_size'',
      ''dst_min_jitter_size'', ''dst_max_jitter_size'', ''last_cdr'', ''in_cpc'', ''out_cpc'',
      ''in_zone'', ''out_zone'', ''disconnect_initiator'', ''in_ani_type_of_number'',
      ''in_dnis_type_of_number'', ''out_ani_type_of_number'', ''out_dnis_type_of_number'',
      ''src_in_leg_conf_id'', ''src_in_leg_call_id'', ''src_out_leg_call_id'', ''in_orig_dnis'',
      ''out_orig_dnis'', ''record_type'', ''extradata'', ''term_elapsed_time'', ''term_setup_time'',
      ''term_connect_time'', ''term_disconnect_time'', ''term_scd'', ''term_pdd'',
      ''external_router'', ''radius_group'', ''in_ani_screening'', ''in_ani_presentation'',
      ''out_ani_screening'', ''out_ani_presentation'', ''outgoing_pulses'', ''incoming_pulses'',
      ''in_lrn'', ''retrieved_lrn'', ''lrn'', ''ext_lrn'', ''out_lrn'', ''lnp_server'',
      ''in_leg_transport_proto'', ''out_leg_transport_proto'', ''sip_routing_group'',
      ''looping_cycles'', ''auth_dnis'', ''ext_ani'', ''ext_dnis'', ''ext_sig_address'',
      ''in_partner_id'', ''out_partner_id'', ''disconnect_code_string'', ''disconnect_code_success'',
      ''src_disconnect_codes_string'', ''dst_disconnect_codes_string'',
      ''in_orig_dnis_type_of_number'', ''out_orig_dnis_type_of_number'', ''in_encryption'',
      ''out_encryption'', ''ext_ani_type_of_number'', ''ext_dnis_type_of_number'',
      ''ext_orig_dnis_type_of_number'', ''src_disconnect_codes'', ''dst_disconnect_codes'',
      ''disconnect_code'']"

definition cdr_column_count :: nat where
  "cdr_column_count = length cdr_columns"

definition cdr_insert_batch_size :: nat where
  "cdr_insert_batch_size = 400"

definition cdr_enrich_backfill_max_rows :: nat where
  "cdr_enrich_backfill_max_rows = 2000"

definition cdr_enrich_backfill_page_size :: nat where
  "cdr_enrich_backfill_page_size = 400"

definition cdr_max_file_bytes :: int where
  "cdr_max_file_bytes = 1000000000"

definition camel_char :: "char \<Rightarrow> bool" where
  "camel_char c = ((CHR ''a'' \<le> c \<and> c \<le> CHR ''z'') \<or> is_digit c)"

text \<open>\<open>toUpperCase\<close> on the characters the pattern takes.\<close>

definition upper_ascii :: "char \<Rightarrow> char" where
  "upper_ascii c = (if CHR ''a'' \<le> c \<and> c \<le> CHR ''z'' then char_of (of_char c - 32 :: nat) else c)"

fun csv_header_to_camel :: "string \<Rightarrow> string" where
  "csv_header_to_camel [] = []"
| "csv_header_to_camel [c] = [c]"
| "csv_header_to_camel (c # d # cs) =
     (if c = CHR ''_'' \<and> camel_char d then upper_ascii d # csv_header_to_camel cs
      else c # csv_header_to_camel (d # cs))"

definition headers_match_canonical :: "text16 list \<Rightarrow> bool" where
  "headers_match_canonical headers =
     (if length headers \<noteq> length cdr_columns then False
      else list_all (\<lambda>(col, h). h = units col) (zip cdr_columns headers))"

section \<open>enrich/parse-csv.ts\<close>

abbreviation quote :: nat where "quote \<equiv> 34"
abbreviation semicolon :: nat where "semicolon \<equiv> 59"

text \<open>The loop over the line, with \<open>inQuotes\<close> and \<open>current\<close>.\<close>

fun split_quoted :: "bool \<Rightarrow> text16 \<Rightarrow> text16 \<Rightarrow> text16 list" where
  "split_quoted in_quotes current [] = [current]"
| "split_quoted in_quotes current [ch] =
     (if ch = quote then [current]
      else if ch = semicolon \<and> \<not> in_quotes then [current, []]
      else [current @ [ch]])"
| "split_quoted in_quotes current (ch # next # line) =
     (if ch = quote
      then (if in_quotes \<and> next = quote then split_quoted in_quotes (current @ [quote]) line
            else split_quoted (\<not> in_quotes) current (next # line))
      else if ch = semicolon \<and> \<not> in_quotes then current # split_quoted in_quotes [] (next # line)
      else split_quoted in_quotes (current @ [ch]) (next # line))"

definition split_quoted_semicolon :: "text16 \<Rightarrow> text16 list" where
  "split_quoted_semicolon line = split_quoted False [] line"

section \<open>parse-cdr.ts\<close>

definition strip_bom :: "text16 \<Rightarrow> text16" where
  "strip_bom line = (if line \<noteq> [] \<and> hd line = 65279 then tl line else line)"

definition parse_cdr_header_line :: "text16 \<Rightarrow> text16 list" where
  "parse_cdr_header_line line = map trim16 (split_quoted_semicolon (trim16 (strip_bom line)))"

text \<open>
  The text of the error says what was expected, how many fields came, and the first of them; the
  two Russian pieces around the numbers are arguments of the sentence.
\<close>

definition header_expected :: text16 where
  "header_expected =
     [1053, 1077, 1074, 1077, 1088, 1085, 1099, 1081, 32, 1079, 1072, 1075, 1086, 1083, 1086, 1074,
      1086, 1082, 32, 67, 68, 82, 58, 32, 1086, 1078, 1080, 1076, 1072, 1083, 1086, 1089, 1100, 32]"

definition header_got :: text16 where
  "header_got =
     [32, 1087, 1086, 1083, 1077, 1081, 32, 1082, 1072, 1085, 1086, 1085, 1080, 1095, 1077, 1089,
      1082, 1086, 1075, 1086, 32, 1076, 1072, 1084, 1087, 1072, 44, 32, 1087, 1086, 1083, 1091,
      1095, 1077, 1085, 1086, 32]"

fun join_with :: "text16 \<Rightarrow> text16 list \<Rightarrow> text16" where
  "join_with sep [] = []"
| "join_with sep [f] = f"
| "join_with sep (f # g # fs) = f @ sep @ join_with sep (g # fs)"

definition header_error :: "text16 list \<Rightarrow> text16" where
  "header_error headers =
     header_expected @ units (int_str (int cdr_column_count)) @ header_got
       @ units (int_str (int (length headers))) @ units ''. '' @ take 240 (join_with [semicolon] headers)"

definition assert_canonical_cdr_header :: "text16 list \<Rightarrow> text16 option" where
  "assert_canonical_cdr_header headers =
     (if \<not> headers_match_canonical headers then Some (header_error headers) else None)"

definition parse_cdr_date :: "(string \<Rightarrow> int option) \<Rightarrow> string \<Rightarrow> int option" where
  "parse_cdr_date date_parse raw =
     (if \<not> is_acceptable_civil_clock raw then None
      else case parse_naive_date_time date_parse raw of
          None \<Rightarrow> None
        | Some t \<Rightarrow>
            let s = trim raw; c = clock_of_ms t
            in if k_year c \<noteq> num_at 0 4 s \<or> k_month c \<noteq> num_at 5 7 s \<or> k_day c \<noteq> num_at 8 10 s
                  \<or> k_hour c \<noteq> num_at 11 13 s \<or> k_minute c \<noteq> num_at 14 16 s
                  \<or> k_second c \<noteq> num_at 17 19 s
               then None else Some t)"


datatype cdr_parse_reject = Reject_width | Reject_cdr_id | Reject_date

record parsed_cdr_row =
  pc_fields :: "(string \<times> text16) list"
  pc_prisma :: "(string \<times> text16) list"
  pc_cdr_id :: text16
  pc_cdr_at :: "int option"

datatype classified_cdr_line = Line_ok parsed_cdr_row | Line_bad cdr_parse_reject

text \<open>\<open>split\<close> at a separator that is not empty.\<close>

function (sequential) split_on :: "text16 \<Rightarrow> text16 \<Rightarrow> text16 \<Rightarrow> text16 list" where
  "split_on sep current [] = [current]"
| "split_on sep current (ch # line) =
     (if prefix sep (ch # line) then current # split_on sep [] (drop (max 1 (length sep)) (ch # line))
      else split_on sep (current @ [ch]) line)"
  by pat_completeness auto
termination by (relation "measure (\<lambda>(_, _, line). length line)") auto

text \<open>\<open>replaceAll\<close> of a doubled quote by one.\<close>

fun undouble :: "text16 \<Rightarrow> text16" where
  "undouble [] = []"
| "undouble [c] = [c]"
| "undouble (c # d # cs) =
     (if c = quote \<and> d = quote then quote # undouble cs else c # undouble (d # cs))"

definition split_dump_quoted_semicolon :: "text16 \<Rightarrow> text16 list option" where
  "split_dump_quoted_semicolon line =
     (let trimmed = trim16 (strip_bom line)
      in if length trimmed < 2 \<or> hd trimmed \<noteq> quote \<or> last trimmed \<noteq> quote then None
         else Some (map undouble (split_on [quote, semicolon, quote] [] (butlast (tl trimmed)))))"

definition dump_field_values :: "text16 \<Rightarrow> text16 list option" where
  "dump_field_values line =
     (let primary = split_quoted_semicolon (trim16 (strip_bom line))
      in if length primary = cdr_column_count then Some primary
         else case split_dump_quoted_semicolon line of
             Some recovered \<Rightarrow> if length recovered = cdr_column_count then Some recovered else None
           | None \<Rightarrow> None)"

definition field :: "string \<Rightarrow> (string \<times> text16) list \<Rightarrow> text16" where
  "field name fs = (case map_of fs name of Some v \<Rightarrow> v | None \<Rightarrow> [])"

text \<open>The date functions trim first, so the trimmed text may be handed to them.\<close>

definition clock_part :: "text16 \<Rightarrow> string" where
  "clock_part raw = latin (trim16 raw)"

definition classify_cdr_data_line :: "(string \<Rightarrow> int option) \<Rightarrow> text16 \<Rightarrow> classified_cdr_line" where
  "classify_cdr_data_line date_parse line =
     (case dump_field_values line of
        None \<Rightarrow> Line_bad Reject_width
      | Some values \<Rightarrow>
          let fields = zip cdr_columns values;
              prisma = zip (map csv_header_to_camel cdr_columns) values;
              cdr_id = trim16 (field ''cdr_id'' fields);
              parts = split_cdr_date_parts (clock_part (field ''cdr_date'' fields))
          in if cdr_id = [] then Line_bad Reject_cdr_id
             else if fst parts = [] \<or> snd parts = [] then Line_bad Reject_date
             else Line_ok \<lparr>pc_fields = fields,
                     pc_prisma = prisma @ [(''cdrDay'', units (fst parts)), (''cdrTime'', units (snd parts))],
                     pc_cdr_id = cdr_id,
                     pc_cdr_at = parse_cdr_date date_parse (clock_part (field ''cdr_date'' fields))\<rparr>)"

definition parse_cdr_data_line :: "(string \<Rightarrow> int option) \<Rightarrow> text16 \<Rightarrow> parsed_cdr_row option" where
  "parse_cdr_data_line date_parse line =
     (case classify_cdr_data_line date_parse line of Line_ok row \<Rightarrow> Some row | Line_bad _ \<Rightarrow> None)"

section \<open>parse-reject.ts\<close>

record parse_reject_counts =
  rj_width :: int
  rj_cdr_id :: int
  rj_date :: int

definition empty_parse_reject_counts :: parse_reject_counts where
  "empty_parse_reject_counts = \<lparr>rj_width = 0, rj_cdr_id = 0, rj_date = 0\<rparr>"

definition count_reject :: "cdr_parse_reject \<Rightarrow> parse_reject_counts \<Rightarrow> parse_reject_counts" where
  "count_reject reason c =
     (case reason of
        Reject_width \<Rightarrow> c\<lparr>rj_width := rj_width c + 1\<rparr>
      | Reject_cdr_id \<Rightarrow> c\<lparr>rj_cdr_id := rj_cdr_id c + 1\<rparr>
      | Reject_date \<Rightarrow> c\<lparr>rj_date := rj_date c + 1\<rparr>)"

definition format_parse_reject_counts :: "parse_reject_counts \<Rightarrow> text16" where
  "format_parse_reject_counts c =
     join_with (units '', '')
       ((if rj_date c > 0 then [format_count (rj_date c) @ [32, 1073, 1077, 1079, 32, 1076, 1072,
                                                            1090, 1099]] else [])
        @ (if rj_cdr_id c > 0 then [format_count (rj_cdr_id c) @ [32, 1073, 1077, 1079, 32, 99, 100,
                                                                  114, 95, 105, 100]] else [])
        @ (if rj_width c > 0 then [format_count (rj_width c)
              @ [32, 1089, 32, 1085, 1077, 1074, 1077, 1088, 1085, 1099, 1084, 32, 1095, 1080, 1089,
                 1083, 1086, 1084, 32, 1087, 1086, 1083, 1077, 1081]] else []))"

section \<open>Framing\<close>

text \<open>How a line is written: every field in quotes, with the quotes inside doubled or left as they are.\<close>

fun double_quotes :: "text16 \<Rightarrow> text16" where
  "double_quotes [] = []"
| "double_quotes (c # cs) = (if c = quote then quote # quote # double_quotes cs else c # double_quotes cs)"

abbreviation in_quotes :: "text16 \<Rightarrow> text16" where
  "in_quotes f \<equiv> quote # f @ [quote]"

definition csv_line :: "text16 list \<Rightarrow> text16" where
  "csv_line fs = join_with [semicolon] (map (\<lambda>f. in_quotes (double_quotes f)) fs)"

definition dump_line :: "text16 list \<Rightarrow> text16" where
  "dump_line fs = join_with [semicolon] (map in_quotes fs)"

lemma join_with_Cons: "fs \<noteq> [] \<Longrightarrow> join_with sep (f # fs) = f @ sep @ join_with sep fs"
  by (cases fs) auto

lemma split_step:
  "c \<noteq> quote \<Longrightarrow> c \<noteq> semicolon \<or> q \<Longrightarrow> l \<noteq> [] \<Longrightarrow> split_quoted q cur (c # l) = split_quoted q (cur @ [c]) l"
  by (cases l) auto

lemma split_inside:
  "split_quoted True cur (double_quotes f @ [quote]) = [cur @ f]"
  "c \<noteq> quote \<Longrightarrow> split_quoted True cur (double_quotes f @ quote # c # l) = split_quoted False (cur @ f) (c # l)"
proof (induction f arbitrary: cur)
  case (Cons x f)
  { case 1 show ?case by (cases "x = quote") (simp_all add: split_step Cons.IH(1)) }
  { case 2 then show ?case by (cases "x = quote") (simp_all add: split_step Cons.IH(2)) }
qed simp_all

lemma split_field:
  "split_quoted False [] (in_quotes (double_quotes f)) = [f]"
  "split_quoted False [] (in_quotes (double_quotes f) @ semicolon # c # rest)
     = f # split_quoted False [] (c # rest)"
proof -
  have open_quote: "split_quoted False [] (quote # (double_quotes f @ quote # rest))
      = split_quoted True [] (double_quotes f @ quote # rest)" for rest
    by (cases "double_quotes f @ quote # rest") simp_all
  show "split_quoted False [] (in_quotes (double_quotes f)) = [f]"
    using open_quote [of "[]"] by (simp add: split_inside)
  show "split_quoted False [] (in_quotes (double_quotes f) @ semicolon # c # rest)
     = f # split_quoted False [] (c # rest)"
    using open_quote [of "semicolon # c # rest"] by (simp add: split_inside)
qed

lemma csv_line_head: "fs \<noteq> [] \<Longrightarrow> \<exists>u. csv_line fs = quote # u"
  by (cases fs; cases "tl fs") (auto simp: csv_line_def)

lemma split_csv_line: "fs \<noteq> [] \<Longrightarrow> split_quoted_semicolon (csv_line fs) = fs"
proof (induction fs)
  case (Cons f fs)
  show ?case
  proof (cases "fs = []")
    case True
    then show ?thesis by (simp add: split_quoted_semicolon_def csv_line_def split_field)
  next
    case False
    obtain u where u: "csv_line fs = quote # u" using csv_line_head [OF False] by blast
    have "csv_line (f # fs) = in_quotes (double_quotes f) @ semicolon # quote # u"
      using False u by (simp add: csv_line_def join_with_Cons)
    then show ?thesis using Cons.IH [OF False] u
      by (simp only: split_quoted_semicolon_def split_field)
  qed
qed simp

text \<open>
  A raw quote may hide a semicolon from the split, but cannot make one where none is: when the
  number of pieces is right, every piece is its field but for quotes.
\<close>

definition no_quotes :: "text16 \<Rightarrow> text16" where
  "no_quotes u = filter (\<lambda>c. c \<noteq> quote) u"

lemma no_quotes_simps [simp]:
  "no_quotes [] = []" "no_quotes (c # u) = (if c = quote then no_quotes u else c # no_quotes u)"
  "no_quotes (u @ v) = no_quotes u @ no_quotes v"
  by (simp_all add: no_quotes_def)

lemma split_on_semicolon:
  "split_on [semicolon] cur (c # s) =
     (if c = semicolon then cur # split_on [semicolon] [] s else split_on [semicolon] (cur @ [c]) s)"
  by simp

lemma split_on_quotes:
  "no_quotes a = no_quotes b \<Longrightarrow>
     map no_quotes (split_on [semicolon] a s) = map no_quotes (split_on [semicolon] b s)"
proof (induction s arbitrary: a b)
  case (Cons c s)
  show ?case
  proof (cases "c = semicolon")
    case True
    then show ?thesis by (simp add: Cons.prems)
  next
    case False
    have "no_quotes (a @ [c]) = no_quotes (b @ [c])" using Cons.prems by simp
    from Cons.IH [OF this] False show ?thesis by (simp only: split_on_semicolon if_False)
  qed
qed simp

lemma split_pieces:
  "length (split_quoted q cur s) \<le> Suc (count_list s semicolon)
   \<and> (length (split_quoted q cur s) = Suc (count_list s semicolon) \<longrightarrow>
      map no_quotes (split_quoted q cur s) = map no_quotes (split_on [semicolon] cur s))"
proof (induction q cur s rule: split_quoted.induct)
  case (3 q cur ch nx line)
  consider "ch = quote" "q \<and> nx = quote" | "ch = quote" "\<not> (q \<and> nx = quote)"
    | "ch = semicolon" "\<not> q" | "ch = semicolon" "q" | "ch \<noteq> quote" "ch \<noteq> semicolon" by blast
  then show ?case
  proof cases
    case 1
    have "map no_quotes (split_on [semicolon] (cur @ [quote, quote]) line)
        = map no_quotes (split_on [semicolon] (cur @ [quote]) line)"
      by (rule split_on_quotes) simp
    then show ?thesis using 1 "3.IH"(1) [OF 1] by simp
  next
    case 2
    have "map no_quotes (split_on [semicolon] (cur @ [quote]) (nx # line)) = map no_quotes (split_on [semicolon] cur (nx # line))"
      by (rule split_on_quotes) simp
    moreover have "split_quoted q cur (ch # nx # line) = split_quoted (\<not> q) cur (nx # line)"
      using 2 by auto
    moreover have "count_list (ch # nx # line) semicolon = count_list (nx # line) semicolon"
      "split_on [semicolon] cur (ch # nx # line) = split_on [semicolon] (cur @ [quote]) (nx # line)"
      using 2(1) by simp_all
    ultimately show ?thesis using "3.IH"(2) [OF 2] by metis
  next
    case 3
    then show ?thesis using "3.IH"(3) by auto
  next
    case 4
    then show ?thesis using "3.IH"(4) by auto
  next
    case 5
    then show ?thesis using "3.IH"(4) by auto
  qed
next
  case (2 q cur ch)
  have "no_quotes [] = []" by simp
  then show ?case by auto
qed auto

lemma split_on_join:
  assumes "\<forall>f\<in>set fs. semicolon \<notin> set f" and "fs \<noteq> []"
  shows "split_on [semicolon] [] (join_with [semicolon] fs) = fs"
proof -
  have piece: "semicolon \<notin> set f \<Longrightarrow> split_on [semicolon] cur (f @ rest) = split_on [semicolon] (cur @ f) rest" for cur f rest
    by (induction f arbitrary: cur) auto
  show ?thesis using assms
  proof (induction fs)
    case (Cons f fs)
    then show ?case using piece [of f "[]"] piece [of f "[]" "[]"] by (cases "fs = []") (auto simp: join_with_Cons)
  qed simp
qed

lemma count_join:
  "\<forall>f\<in>set fs. semicolon \<notin> set f \<Longrightarrow> fs \<noteq> [] \<Longrightarrow> Suc (count_list (join_with [semicolon] fs) semicolon) = length fs"
proof (induction fs)
  case (Cons f fs)
  then show ?case by (cases "fs = []") (simp_all add: join_with_Cons)
qed simp

text \<open>The other framing: \<open>";"\<close> is never found before the end of a field.\<close>

definition no_pair :: "text16 \<Rightarrow> bool" where
  "no_pair f = (\<not> sublist [quote, semicolon] f)"

lemma no_pair_Cons: "no_pair (c # f) \<longleftrightarrow> \<not> prefix [quote, semicolon] (c # f) \<and> no_pair f"
  by (auto simp: no_pair_def sublist_Cons_right)

lemma split_dump_piece:
  "no_pair f \<Longrightarrow> split_on [quote, semicolon, quote] cur (f @ quote # semicolon # quote # rest)
     = (cur @ f) # split_on [quote, semicolon, quote] [] rest"
proof (induction f arbitrary: cur)
  case (Cons c f)
  have "\<not> prefix [quote, semicolon, quote] (c # f @ quote # semicolon # quote # rest)"
    using Cons.prems by (cases f) (auto simp: no_pair_Cons)
  then show ?case using Cons by (simp add: no_pair_Cons)
qed simp

lemma split_dump_last:
  "no_pair f \<Longrightarrow> split_on [quote, semicolon, quote] cur f = [cur @ f]"
proof (induction f arbitrary: cur)
  case (Cons c f)
  have "\<not> prefix [quote, semicolon, quote] (c # f)"
    using Cons.prems by (cases f) (auto simp: no_pair_Cons)
  then show ?case using Cons by (simp add: no_pair_Cons)
qed simp

lemma split_dump_join:
  "\<forall>f\<in>set fs. no_pair f \<Longrightarrow> fs \<noteq> [] \<Longrightarrow>
     split_on [quote, semicolon, quote] [] (join_with [quote, semicolon, quote] fs) = fs"
proof (induction fs)
  case (Cons f fs)
  then show ?case by (cases "fs = []") (simp_all add: join_with_Cons split_dump_piece split_dump_last)
qed simp

lemma dump_line_join:
  "fs \<noteq> [] \<Longrightarrow> dump_line fs = quote # join_with [quote, semicolon, quote] fs @ [quote]"
proof (induction fs)
  case (Cons f fs)
  then show ?case by (cases "fs = []") (simp_all add: dump_line_def join_with_Cons)
qed simp

lemma trim_quoted [simp]: "trim16 (strip_bom (quote # u @ [quote])) = quote # u @ [quote]"
  by (simp add: trim16_def strip_bom_def regex_space_def)

lemma no_quotes_undouble [simp]: "no_quotes (undouble u) = no_quotes u"
  by (induction u rule: undouble.induct) auto

lemma no_quotes_line:
  assumes "fs \<noteq> []" and "\<forall>f\<in>set fs. semicolon \<notin> set f" and "length (split_quoted_semicolon (dump_line fs)) = length fs"
  shows "map no_quotes (split_quoted_semicolon (dump_line fs)) = map no_quotes fs"
proof -
  have clean: "\<forall>f\<in>set (map in_quotes fs). semicolon \<notin> set f" using assms(2) by auto
  have "length (split_quoted_semicolon (dump_line fs)) = Suc (count_list (dump_line fs) semicolon)"
    using count_join [OF clean] assms(1,3) by (simp add: dump_line_def)
  then have "map no_quotes (split_quoted_semicolon (dump_line fs)) = map no_quotes (split_on [semicolon] [] (dump_line fs))"
    using split_pieces unfolding split_quoted_semicolon_def by blast
  also have "\<dots> = map no_quotes (map in_quotes fs)"
    using split_on_join [OF clean] assms(1) by (simp add: dump_line_def)
  finally show ?thesis by (simp add: comp_def)
qed

lemma dump_values:
  assumes "length fs = cdr_column_count" and "\<forall>f\<in>set fs. semicolon \<notin> set f"
  shows "\<exists>vs. dump_field_values (dump_line fs) = Some vs \<and> map no_quotes vs = map no_quotes fs"
proof -
  have ne: "fs \<noteq> []" using assms(1) by (auto simp: cdr_column_count_def cdr_columns_def)
  let ?line = "dump_line fs"
  have trimmed: "trim16 (strip_bom ?line) = ?line" using dump_line_join [OF ne] by simp
  show ?thesis
  proof (cases "length (split_quoted_semicolon ?line) = cdr_column_count")
    case True
    then show ?thesis using no_quotes_line [OF ne assms(2)] assms(1) trimmed by (simp add: dump_field_values_def)
  next
    case False
    have "\<forall>f\<in>set fs. no_pair f"
      using assms(2) by (auto simp: no_pair_def dest: set_mono_sublist)
    then have "split_dump_quoted_semicolon ?line = Some (map undouble fs)"
      using trimmed dump_line_join [OF ne] split_dump_join [OF _ ne]
      by (simp add: split_dump_quoted_semicolon_def Let_def)
    then show ?thesis using False trimmed assms(1) by (simp add: dump_field_values_def comp_def)
  qed
qed

lemma csv_line_values:
  assumes "length fs = cdr_column_count"
  shows "dump_field_values (csv_line fs) = Some fs"
proof -
  have ne: "fs \<noteq> []" using assms by (auto simp: cdr_column_count_def cdr_columns_def)
  have dump: "csv_line fs = dump_line (map double_quotes fs)"
    by (simp add: csv_line_def dump_line_def comp_def)
  then have "trim16 (strip_bom (csv_line fs)) = csv_line fs"
    using dump_line_join [of "map double_quotes fs"] ne by simp
  then show ?thesis using split_csv_line [OF ne] assms by (simp add: dump_field_values_def)
qed

section \<open>The clock of an accepted row\<close>

lemma digits_val_less: "list_all is_digit ds \<Longrightarrow> digits_val ds < 10 ^ length ds"
proof (induction ds rule: rev_induct)
  case (snoc d ds)
  then have "digits_val ds < 10 ^ length ds" "digit_val d < 10" by simp_all
  then show ?case by simp
qed simp

lemma pad_digits:
  assumes "list_all is_digit ds" and "length ds = n" and "0 < n"
  shows "pad_start n (int_str (int (digits_val ds))) = ds"
proof -
  let ?p = "pad_start n (int_str (int (digits_val ds)))"
  have "length (nat_digits (digits_val ds)) \<le> n"
    using digits_val_less [OF assms(1)] assms(2,3) by (simp add: length_nat_digits)
  then have len: "length ?p = length ds" using assms(2) by (simp add: int_str_nat)
  have zero: "is_digit CHR ''0''" by (simp add: is_digit_def)
  have dig: "list_all is_digit ?p"
    using zero by (auto simp: pad_start_def int_str_nat list_all_iff nat_digits_digits)
  have "digits_val ?p = digits_val ds" by (simp add: int_str_nat)
  then have "\<not> ?p < ds" "\<not> ds < ?p"
    using digits_less [OF len dig assms(1)] digits_less [OF len [symmetric] assms(1) dig] by simp_all
  then show ?thesis by simp
qed

lemma civil_prefix_chars:
  assumes "civil_prefix s"
  obtains a b c d e f g h i j k l m n q where
    "take 19 s = [a, b, c, d, CHR ''-'', e, f, CHR ''-'', g, h, q, i, j, CHR '':'', k, l, CHR '':'', m, n]"
    and "list_all is_digit [a, b, c, d]" "list_all is_digit [e, f]" "list_all is_digit [g, h]"
      "list_all is_digit [i, j]" "list_all is_digit [k, l]" "list_all is_digit [m, n]"
proof -
  have "list_all2 (\<lambda>p c. p c) civil_pattern (take 19 s)" using assms by (simp add: civil_prefix_def fits_def)
  then show thesis
    by (auto simp: civil_pattern_def numeral_eq_Suc list_all2_Cons1 intro: that)
qed

lemma slice_take: "j \<le> k \<Longrightarrow> slice i j (take k s) = slice i j s"
  by (simp add: slice_def drop_take min_def)

lemma num_at_take: "j \<le> k \<Longrightarrow> num_at i j (take k s) = num_at i j s"
  by (simp add: num_at_def slice_take)

text \<open>The stored day and time are the printed instant, whatever form the date had.\<close>

lemma accepted_clock_text:
  assumes "parse_cdr_date dp raw = Some t"
  shows "split_cdr_date_parts raw = (take 10 (iso_string t), slice 11 19 (iso_string t))"
proof -
  let ?s = "trim raw" and ?c = "clock_of_ms t"
  have ok: "civil_prefix ?s"
    using assms by (auto simp: parse_cdr_date_def is_acceptable_civil_clock_def Let_def split: if_splits)
  have eqs: "k_year ?c = num_at 0 4 ?s" "k_month ?c = num_at 5 7 ?s" "k_day ?c = num_at 8 10 ?s"
    "k_hour ?c = num_at 11 13 ?s" "k_minute ?c = num_at 14 16 ?s" "k_second ?c = num_at 17 19 ?s"
    using assms by (auto simp: parse_cdr_date_def Let_def split: if_splits option.splits)
  obtain a b c d e f g h i j k l m n q where t19:
    "take 19 ?s = [a, b, c, d, CHR ''-'', e, f, CHR ''-'', g, h, q, i, j, CHR '':'', k, l, CHR '':'', m, n]"
    and dig: "list_all is_digit [a, b, c, d]" "list_all is_digit [e, f]" "list_all is_digit [g, h]"
      "list_all is_digit [i, j]" "list_all is_digit [k, l]" "list_all is_digit [m, n]"
    by (rule civil_prefix_chars [OF ok])
  have at: "num_at x y ?s = int (digits_val (slice x y (take 19 ?s)))" if "y \<le> 19" for x y
    using num_at_take [OF that, of x ?s] by (simp add: num_at_def)
  have nums: "num_at 0 4 ?s = int (digits_val [a, b, c, d])" "num_at 5 7 ?s = int (digits_val [e, f])"
    "num_at 8 10 ?s = int (digits_val [g, h])" "num_at 11 13 ?s = int (digits_val [i, j])"
    "num_at 14 16 ?s = int (digits_val [k, l])" "num_at 17 19 ?s = int (digits_val [m, n])"
    by (simp_all only: at order_refl numeral_le_iff semiring_norm t19) (simp_all add: slice_def)
  have two: "pad2 (int (digits_val [u, v])) = [u, v]" if "list_all is_digit [u, v]" for u v
    unfolding pad2_def by (rule pad_digits) (use that in simp_all)
  have four: "pad_start 4 (int_str (int (digits_val [a, b, c, d]))) = [a, b, c, d]"
    by (rule pad_digits) (use dig(1) in simp_all)
  have year: "iso_year (int (digits_val [a, b, c, d])) = [a, b, c, d]"
    using digits_val_less [OF dig(1)] four by (simp add: iso_year_def)
  have "iso_string t = [a, b, c, d, CHR ''-'', e, f, CHR ''-'', g, h, CHR ''T'', i, j, CHR '':'', k, l, CHR '':'', m, n]
      @ ''.'' @ pad_start 3 (int_str (c_milli (civil_of_ms t))) @ ''Z''"
    using eqs [unfolded nums] two [OF dig(2)] two [OF dig(3)] two [OF dig(4)] two [OF dig(5)] two [OF dig(6)] year
    by (simp add: iso_string_def Let_def hms_str_def clock_of_ms_def)
  then have "take 10 (iso_string t) = [a, b, c, d, CHR ''-'', e, f, CHR ''-'', g, h]"
    "slice 11 19 (iso_string t) = [i, j, CHR '':'', k, l, CHR '':'', m, n]"
    by (simp_all add: slice_def)
  moreover have "slice 0 10 ?s = [a, b, c, d, CHR ''-'', e, f, CHR ''-'', g, h]"
    "slice 11 19 ?s = [i, j, CHR '':'', k, l, CHR '':'', m, n]"
    using slice_take [of 10 19 0 ?s] slice_take [of 19 19 11 ?s] by (simp_all add: t19) (simp_all add: slice_def)
  ultimately show ?thesis using ok by (simp add: split_cdr_date_parts_def Let_def)
qed

end
