(* ===== verification/Import_World.thy ===== *)
theory Import_World
  imports Cdr_Lines Actions Purge_Holds Job_Scheduler
begin

text \<open>
  The world of the two imports: the inbox directories and the uploads into them, the gate that
  tracks an upload (\<open>traffic/stor-gate.ts\<close>), the live target of a purge, the stored calls, the
  journals of held files, and the caches of the lookups.

  Every \<open>await\<close> lets other code of the process run: it takes the next list of interferences. An
  upload stamps its file with a time later than everything before. A statement of the
  database, the opening of a file and its removal take the next of the listed faults, as in the purge.
\<close>

section \<open>stor-gate.ts\<close>

record stor_slot =
  ss_generation :: int
  ss_completed :: "int option"
  ss_failed_at :: "int option"

type_synonym 'p stor_slots = "'p \<rightharpoonup> stor_slot"

definition cdr_stor_settle_ms :: int where
  "cdr_stor_settle_ms = 2000"

definition begin_stor :: "'p \<Rightarrow> 'p stor_slots \<Rightarrow> int \<times> 'p stor_slots" where
  "begin_stor path slots =
     (let generation = (case slots path of Some s \<Rightarrow> ss_generation s | None \<Rightarrow> 0) + 1
      in (generation,
          slots(path \<mapsto> \<lparr>ss_generation = generation, ss_completed = None, ss_failed_at = None\<rparr>)))"

definition complete_stor :: "'p \<Rightarrow> int \<Rightarrow> int \<Rightarrow> 'p stor_slots \<Rightarrow> 'p stor_slots" where
  "complete_stor path generation bytes slots =
     (case slots path of
        None \<Rightarrow> slots
      | Some s \<Rightarrow>
          if ss_generation s \<noteq> generation then slots
          else slots(path \<mapsto> \<lparr>ss_generation = generation, ss_completed = Some bytes, ss_failed_at = None\<rparr>))"

definition fail_stor :: "'p \<Rightarrow> int \<Rightarrow> int \<Rightarrow> 'p stor_slots \<Rightarrow> 'p stor_slots" where
  "fail_stor path generation now slots =
     (case slots path of
        None \<Rightarrow> slots
      | Some s \<Rightarrow>
          if ss_generation s \<noteq> generation \<or> ss_completed s \<noteq> None then slots
          else slots(path \<mapsto> \<lparr>ss_generation = generation, ss_completed = None, ss_failed_at = Some now\<rparr>))"

definition is_stor_busy :: "'p \<Rightarrow> int \<Rightarrow> 'p stor_slots \<Rightarrow> bool" where
  "is_stor_busy path now slots =
     (case slots path of
        None \<Rightarrow> False
      | Some s \<Rightarrow>
          if ss_completed s \<noteq> None then False
          else (case ss_failed_at s of Some t \<Rightarrow> \<not> now - t \<ge> cdr_stor_settle_ms | None \<Rightarrow> True))"

definition stor_completed_size :: "'p \<Rightarrow> 'p stor_slots \<Rightarrow> int option" where
  "stor_completed_size path slots = (case slots path of None \<Rightarrow> None | Some s \<Rightarrow> ss_completed s)"

section \<open>Files\<close>

datatype inbox = Cdr_inbox | Smg_inbox

text \<open>The text is what the decoder makes of the bytes.\<close>

record disk_file =
  df_regular :: bool
  df_size :: int
  df_mtime :: int
  df_text :: text16

type_synonym path = "inbox \<times> string"

record inbox_file =
  if_name :: string
  if_size :: int
  if_mtime :: int

section \<open>Rows\<close>

record pstn_fields =
  pf_found :: bool
  pf_operator :: "text16 option"
  pf_gar_territory :: "text16 option"

record geo_fields =
  gf_country :: "text16 option"
  gf_country_iso :: "text16 option"
  gf_city :: "text16 option"
  gf_isp :: "text16 option"
  gf_dataset_date :: "text16 option"

text \<open>An answer of a lookup service: fields, or the error the client throws.\<close>

datatype 'a answer = Answer 'a | Rate_limited | Failed

record cdr_enrich_fields =
  ef_side_a :: text16
  ef_operator_a :: text16
  ef_geography_a :: text16
  ef_side_b :: text16
  ef_operator_b :: text16
  ef_geography_b :: text16
  ef_country_a :: text16
  ef_city_a :: text16
  ef_provider_a :: text16
  ef_country_b :: text16
  ef_city_b :: text16
  ef_provider_b :: text16

record stored_call =
  st_fields :: "(string \<times> text16) list"
  st_enrich :: cdr_enrich_fields
  st_at :: "int option"
  st_source :: string
  st_job :: string
  st_enriched_at :: "int option"

definition call_id :: "stored_call \<Rightarrow> text16" where
  "call_id c = field ''cdrId'' (st_fields c)"

record stored_smg_call =
  sg_key :: text16
  sg_day :: string
  sg_fields :: "(string \<times> text16) list"
  sg_source :: string
  sg_job :: string

record phone_endpoint =
  ep_number :: "text16 option"
  ep_name :: text16
  ep_description :: "text16 option"

record import_run = job_run +
  ir_phones :: int
  ir_bad :: int
  ir_changes :: int

text \<open>What other code does during an \<open>await\<close>.\<close>

datatype interference =
    Time_passes nat
  | Purge_aims "string option"
  | Upload_opens path
  | Upload_writes path nat text16
  | Upload_closes path
  | Upload_breaks path
  | Inbox_noted inbox

record import_world =
  iw_now :: int
  iw_faults :: "fault list"
  iw_events :: "interference list list"
  iw_disk :: "(path \<times> disk_file) list"
  iw_slots :: "path stor_slots"
  iw_removed :: "(path \<times> int \<times> disk_file) list"
  iw_target :: "string option"
  iw_dirty :: "inbox \<Rightarrow> bool"
  iw_calls :: "stored_call list"
  iw_smg_calls :: "stored_smg_call list"
  iw_poison :: poison_map
  iw_smg_poison :: poison_map
  iw_runs :: "import_run list"
  iw_drains :: "action list"
  iw_passes :: "(load_side \<times> load_pass) list"
  iw_endpoints :: "phone_endpoint list"
  iw_pstn_ready :: bool
  iw_pstn_cache :: "text16 \<rightharpoonup> pstn_fields \<times> int"
  iw_pstn_answers :: "pstn_fields answer list"
  iw_geo_ready :: bool
  iw_geo_cache :: "text16 \<rightharpoonup> geo_fields \<times> int"
  iw_geo_answers :: "geo_fields answer list"

type_synonym 'a step = "(import_world, 'a) effect"

text \<open>
  An upload opens its file with \<open>w+\<close>, which empties it, and writes while its slot is open. Each
  write stamps the file with a new time.
\<close>

definition put_file :: "path \<Rightarrow> nat \<Rightarrow> text16 \<Rightarrow> import_world \<Rightarrow> import_world" where
  "put_file p bytes t w =
     (let now = iw_now w + 1
      in w\<lparr>iw_now := now,
           iw_disk := AList.update p \<lparr>df_regular = True, df_size = int bytes, df_mtime = now, df_text = t\<rparr>
                        (iw_disk w)\<rparr>)"

fun interfere :: "interference \<Rightarrow> import_world \<Rightarrow> import_world" where
  "interfere (Time_passes n) w = w\<lparr>iw_now := iw_now w + int n\<rparr>"
| "interfere (Purge_aims m) w = w\<lparr>iw_target := m\<rparr>"
| "interfere (Upload_opens p) w = put_file p 0 [] (w\<lparr>iw_slots := snd (begin_stor p (iw_slots w))\<rparr>)"
| "interfere (Upload_writes p n t) w =
     (if is_stor_busy p (iw_now w) (iw_slots w) then put_file p n t w else w)"
| "interfere (Upload_closes p) w =
     (case (iw_slots w p, map_of (iw_disk w) p) of
        (Some s, Some f) \<Rightarrow> w\<lparr>iw_slots := complete_stor p (ss_generation s) (df_size f) (iw_slots w)\<rparr>
      | _ \<Rightarrow> w)"
| "interfere (Upload_breaks p) w =
     (case iw_slots w p of
        Some s \<Rightarrow> w\<lparr>iw_slots := fail_stor p (ss_generation s) (iw_now w) (iw_slots w)\<rparr>
      | None \<Rightarrow> w)"
| "interfere (Inbox_noted i) w = w\<lparr>iw_dirty := (iw_dirty w)(i := True)\<rparr>"

definition await :: "unit step" where
  "await w =
     (case iw_events w of
        [] \<Rightarrow> (Done (), w)
      | es # rest \<Rightarrow> (Done (), fold interfere es (w\<lparr>iw_events := rest\<rparr>)))"

text \<open>An operation on the disk or the database: other code runs, then it is done, or fails.\<close>

definition io :: "'a step \<Rightarrow> 'a step" where
  "io f = and_then await (\<lambda>_ w.
     case iw_faults w of
        [] \<Rightarrow> f w
      | Fine # fs \<Rightarrow> f (w\<lparr>iw_faults := fs\<rparr>)
      | Faulty e # fs \<Rightarrow> (Thrown e, w\<lparr>iw_faults := fs\<rparr>)
      | Dies # fs \<Rightarrow> (Killed, w\<lparr>iw_faults := fs\<rparr>))"

section \<open>drain-flag.ts, enqueue.ts\<close>

definition consume_inbox_dirty :: "inbox \<Rightarrow> bool step" where
  "consume_inbox_dirty i w = (Done (iw_dirty w i), w\<lparr>iw_dirty := (iw_dirty w)(i := False)\<rparr>)"

definition request_cdr_import_drain :: "unit step" where
  "request_cdr_import_drain =
     change (\<lambda>w. w\<lparr>iw_dirty := (iw_dirty w)(Cdr_inbox := True), iw_drains := iw_drains w @ [Cdr_import]\<rparr>)"

section \<open>inbox.ts\<close>

definition poison_filename :: string where
  "poison_filename = ''.poison.json''"

definition dump_name_pattern :: "(char \<Rightarrow> bool) list" where
  "dump_name_pattern = replicate 8 is_digit @ [lit CHR ''_''] @ replicate 6 is_digit"

definition is_inbox_data_file :: "string \<Rightarrow> bool" where
  "is_inbox_data_file name =
     (if name = [] \<or> hd name = CHR ''.'' then False
      else if name = poison_filename then False
      else fits dump_name_pattern name)"

definition is_young_dump :: "path \<Rightarrow> int \<Rightarrow> int \<Rightarrow> int \<Rightarrow> path stor_slots \<Rightarrow> bool" where
  "is_young_dump path bytes mtime now slots =
     (if is_stor_busy path now slots then True
      else if stor_completed_size path slots = Some bytes then False
      else now - mtime < cdr_stor_settle_ms)"

definition stat_file :: "path \<Rightarrow> disk_file option step" where
  "stat_file p = and_then (try_catch (io (look (\<lambda>w. map_of (iw_disk w) p)))) (\<lambda>r.
     pass (case r of Some (Some f) \<Rightarrow> Some f | _ \<Rightarrow> None))"

definition read_names :: "inbox \<Rightarrow> string list option step" where
  "read_names i = try_catch (io (look (\<lambda>w. sort (map snd (filter (\<lambda>p. fst p = i) (map fst (iw_disk w)))))))"

fun sort_files ::
  "bool \<Rightarrow> int \<Rightarrow> string list \<Rightarrow> inbox_file list \<times> inbox_file list \<Rightarrow>
     (inbox_file list \<times> inbox_file list) step" where
  "sort_files include_poisoned now [] (ready, young) = pass (ready, young)"
| "sort_files include_poisoned now (name # names) (ready, young) =
     (if \<not> is_inbox_data_file name then sort_files include_poisoned now names (ready, young)
      else and_then (stat_file (Cdr_inbox, name)) (\<lambda>st w.
        case st of
          None \<Rightarrow> sort_files include_poisoned now names (ready, young) w
        | Some f \<Rightarrow>
            if \<not> df_regular f then sort_files include_poisoned now names (ready, young) w
            else if \<not> include_poisoned
                    \<and> is_poisoned (iw_target w) name (df_mtime f) (Some (df_size f)) (iw_poison w)
            then sort_files include_poisoned now names (ready, young) w
            else
              let file = \<lparr>if_name = name, if_size = df_size f, if_mtime = df_mtime f\<rparr>
              in if is_young_dump (Cdr_inbox, name) (df_size f) (df_mtime f) now (iw_slots w)
                 then sort_files include_poisoned now names (ready, young @ [file]) w
                 else sort_files include_poisoned now names (ready @ [file], young) w))"

definition partition_inbox_files :: "bool \<Rightarrow> (inbox_file list \<times> inbox_file list) step" where
  "partition_inbox_files include_poisoned =
     and_then (look iw_now) (\<lambda>now.
     and_then (read_names Cdr_inbox) (\<lambda>names.
       case names of
         None \<Rightarrow> pass ([], [])
       | Some ns \<Rightarrow> sort_files include_poisoned now ns ([], [])))"

definition list_inbox_files :: "bool \<Rightarrow> inbox_file list step" where
  "list_inbox_files include_poisoned =
     and_then (partition_inbox_files include_poisoned) (\<lambda>(ready, young). pass ready)"

definition count_inbox_files :: "(nat \<times> nat) step" where
  "count_inbox_files =
     and_then (partition_inbox_files True) (\<lambda>(ready, young) w.
       let held = (\<lambda>f. is_poisoned (iw_target w) (if_name f) (if_mtime f) (Some (if_size f)) (iw_poison w))
       in (Done (length (filter (\<lambda>f. \<not> held f) ready), length (filter held (ready @ young))), w))"

definition empty_file_text :: text16 where
  "empty_file_text = [1060, 1072, 1081, 1083, 32, 1087, 1091, 1089, 1090, 1086, 1081, 58, 32]"

definition inbox_file_error :: "inbox_file \<Rightarrow> text16 option" where
  "inbox_file_error file =
     (if if_size file \<le> 0 then Some (empty_file_text @ units (if_name file))
      else if if_size file > cdr_max_file_bytes
      then Some ([1060, 1072, 1081, 1083, 32, 1089, 1083, 1080, 1096, 1082, 1086, 1084, 32, 1073,
                  1086, 1083, 1100, 1096, 1086, 1081, 32, 40] @ units (int_str (if_size file))
                 @ [32, 1073, 1072, 1081, 1090, 44, 32, 1083, 1080, 1084, 1080, 1090, 32]
                 @ units (int_str cdr_max_file_bytes) @ units ''): '' @ units (if_name file))
      else None)"

section \<open>Lines\<close>

text \<open>
  \<open>readline\<close> ends a line at a line feed with or without a carriage return before it, at a lone
  carriage return and at the two Unicode separators, and gives no empty line at the end.
\<close>

fun read_lines_from :: "text16 \<Rightarrow> text16 \<Rightarrow> text16 list" where
  "read_lines_from current [] = (if current = [] then [] else [current])"
| "read_lines_from current (c # cs) =
     (if c = 13 \<and> cs \<noteq> [] \<and> hd cs = 10 then read_lines_from current cs
      else if c \<in> {10, 13, 8232, 8233} then current # read_lines_from [] cs
      else read_lines_from (current @ [c]) cs)"

definition read_lines :: "text16 \<Rightarrow> text16 list" where
  "read_lines t = read_lines_from [] t"

definition no_such_file :: text16 where
  "no_such_file = units ''ENOENT: no such file or directory, open''"

definition open_lines :: "path \<Rightarrow> text16 list step" where
  "open_lines p = io (\<lambda>w.
     case map_of (iw_disk w) p of
       Some f \<Rightarrow> (Done (read_lines (df_text f)), w)
     | None \<Rightarrow> throw no_such_file w)"

text \<open>\<open>unlink\<close>; \<open>iw_removed\<close> keeps what was taken away, with the time the file was listed with.\<close>

definition remove_file :: "path \<Rightarrow> int \<Rightarrow> unit step" where
  "remove_file p listed = io (\<lambda>w.
     case map_of (iw_disk w) p of
       Some f \<Rightarrow> (Done (), w\<lparr>iw_disk := AList.delete p (iw_disk w),
                           iw_removed := iw_removed w @ [(p, listed, f)]\<rparr>)
     | None \<Rightarrow> throw no_such_file w)"

text \<open>Whether the file changed, vanished or is being written again since it was listed.\<close>

definition file_moved :: "inbox \<Rightarrow> inbox_file \<Rightarrow> bool step" where
  "file_moved i file w =
     (if is_stor_busy (i, if_name file) (iw_now w) (iw_slots w) then (Done True, w)
      else and_then (stat_file (i, if_name file)) (\<lambda>st.
        pass (case st of
                None \<Rightarrow> True
              | Some f \<Rightarrow> \<not> df_regular f \<or> df_size f \<noteq> if_size file \<or> df_mtime f \<noteq> if_mtime file)) w)"

end
