(* ===== verification/Import_Enrich.thy ===== *)
theory Import_Enrich
  imports Import_World
begin

text \<open>
  What an imported row gets beside its columns: the description of its numbers, their operator and
  region, the place of its addresses. The texts (\<open>enrich/types.ts\<close>), the numbers and caches of the
  lookups (\<open>pstn/types.ts\<close>, \<open>pstn/cache.ts\<close>, \<open>geoip/types.ts\<close>, \<open>geoip/cache.ts\<close>), the lookups
  (\<open>enrich/lookups.ts\<close>, \<open>registrations/phone-description.ts\<close>) and the rows
  (\<open>traffic/enrich-import.ts\<close>).

  The answers of the two services are lists, taken in order; an empty list fails. The code keeps up to
  eight lookups under way at a time, here they are done one by one.
\<close>

section \<open>enrich/types.ts\<close>

definition missing_billing_label :: text16 where
  "missing_billing_label = units ''-''"

definition missing_pstn_label :: text16 where
  "missing_pstn_label = [1053, 1077, 1090, 32, 1074, 32, 1088, 1077, 1077, 1089, 1090, 1088, 1077,
                         32, 1052, 1080, 1085, 1062, 1080, 1092, 1088, 1099]"

fun before_last :: "nat \<Rightarrow> text16 \<Rightarrow> text16" where
  "before_last c [] = []"
| "before_last c (x # xs) = (if c \<in> set xs then x # before_last c xs else [])"

definition strip_ip_port :: "text16 \<Rightarrow> text16 option" where
  "strip_ip_port raw =
     (let trimmed = trim16 raw
      in if trimmed = [] then None
         else let host = (if 58 \<in> set trimmed then before_last 58 trimmed else trimmed)
              in if host = [] then None else Some host)"

definition description_or_missing :: "text16 option \<Rightarrow> text16" where
  "description_or_missing value =
     (let trimmed = (case value of Some v \<Rightarrow> trim16 v | None \<Rightarrow> [])
      in if trimmed \<noteq> [] then trimmed else missing_billing_label)"

definition present :: "text16 option \<Rightarrow> text16" where
  "present v = (case v of Some t \<Rightarrow> t | None \<Rightarrow> [])"

definition pstn_or_missing :: "pstn_fields option \<Rightarrow> text16 \<times> text16 \<times> bool" where
  "pstn_or_missing flds =
     (case flds of
        None \<Rightarrow> (missing_pstn_label, missing_pstn_label, True)
      | Some f \<Rightarrow>
          if \<not> pf_found f \<or> present (pf_operator f) = []
          then (missing_pstn_label, missing_pstn_label, True)
          else (present (pf_operator f),
                let g = trim16 (present (pf_gar_territory f)) in if g = [] then missing_pstn_label else g,
                False))"

section \<open>pstn/types.ts, pstn/cache.ts\<close>

definition cache_ttl_ms :: int where
  "cache_ttl_ms = 24 * 60 * 60 * 1000"

definition cache_prune_after_ms :: int where
  "cache_prune_after_ms = 30 * 24 * 60 * 60 * 1000"

definition is_pstn_cache_fresh :: "int \<Rightarrow> int \<Rightarrow> bool" where
  "is_pstn_cache_fresh looked_up_at now = (now - looked_up_at < cache_ttl_ms)"

definition normalize_pstn_phone :: "text16 \<Rightarrow> text16 option" where
  "normalize_pstn_phone raw =
     (let digits = filter unit_digit raw
      in if length digits = 11 \<and> (hd digits = 55 \<or> hd digits = 56) then Some (tl digits)
         else if length digits = 10 then Some digits
         else None)"

function chunk_array :: "'a list \<Rightarrow> nat \<Rightarrow> 'a list list" where
  "chunk_array items n = (if items = [] \<or> n = 0 then [] else take n items # chunk_array (drop n items) n)"
  by pat_completeness auto
termination by (relation "measure (\<lambda>(items, n). length items)") auto

declare chunk_array.simps [simp del]

definition db_in_chunk :: nat where
  "db_in_chunk = 500"

fun load_batches ::
  "(import_world \<Rightarrow> 'k \<rightharpoonup> 'v) \<Rightarrow> ('k \<rightharpoonup> 'v) \<Rightarrow> 'k list list \<Rightarrow> ('k \<rightharpoonup> 'v) step" where
  "load_batches table out [] = pass out"
| "load_batches table out (batch # batches) =
     and_then (io (look (\<lambda>w. out ++ (table w |` set batch)))) (\<lambda>out1. load_batches table out1 batches)"

definition load_pstn_cache_by_phones :: "text16 list \<Rightarrow> (text16 \<rightharpoonup> pstn_fields \<times> int) step" where
  "load_pstn_cache_by_phones phones = load_batches iw_pstn_cache Map.empty (chunk_array phones db_in_chunk)"

definition stale_or_missing_pstn_phones ::
  "text16 list \<Rightarrow> (text16 \<rightharpoonup> pstn_fields \<times> int) \<Rightarrow> int \<Rightarrow> text16 list" where
  "stale_or_missing_pstn_phones phones cache now =
     filter (\<lambda>p. case cache p of None \<Rightarrow> True | Some (f, t) \<Rightarrow> \<not> is_pstn_cache_fresh t now) phones"

definition upsert_pstn_cache :: "text16 \<Rightarrow> pstn_fields \<Rightarrow> unit step" where
  "upsert_pstn_cache phone flds =
     io (change (\<lambda>w. w\<lparr>iw_pstn_cache := (iw_pstn_cache w)(phone \<mapsto> (flds, iw_now w))\<rparr>))"

definition keep_recent :: "int \<Rightarrow> ('k \<rightharpoonup> 'v \<times> int) \<Rightarrow> 'k \<rightharpoonup> 'v \<times> int" where
  "keep_recent now m =
     (\<lambda>k. case m k of Some (v, t) \<Rightarrow> if t < now - cache_prune_after_ms then None else Some (v, t)
                    | None \<Rightarrow> None)"

definition prune_stale_pstn_cache :: "unit step" where
  "prune_stale_pstn_cache =
     io (change (\<lambda>w. w\<lparr>iw_pstn_cache := keep_recent (iw_now w) (iw_pstn_cache w)\<rparr>))"

section \<open>geoip/types.ts, geoip/cache.ts\<close>

text \<open>One octet: 0 to 255 without a leading zero.\<close>

definition octet :: "text16 \<Rightarrow> bool" where
  "octet o1 =
     (list_all unit_digit o1 \<and> o1 \<noteq> [] \<and> length o1 \<le> 3 \<and> (length o1 > 1 \<longrightarrow> hd o1 \<noteq> 48)
      \<and> digits_val (latin o1) \<le> 255)"

definition is_lookup_ipv4 :: "text16 \<Rightarrow> bool" where
  "is_lookup_ipv4 value = (let os = split_on [46] [] value in length os = 4 \<and> list_all octet os)"

definition is_geo_cache_fresh :: "int \<Rightarrow> int \<Rightarrow> bool" where
  "is_geo_cache_fresh looked_up_at now = (now - looked_up_at < cache_ttl_ms)"

definition load_geo_cache_by_ips :: "text16 list \<Rightarrow> (text16 \<rightharpoonup> geo_fields \<times> int) step" where
  "load_geo_cache_by_ips ips = load_batches iw_geo_cache Map.empty (chunk_array ips db_in_chunk)"

definition stale_or_missing_ips_for_enrich ::
  "text16 list \<Rightarrow> (text16 \<rightharpoonup> geo_fields \<times> int) \<Rightarrow> int \<Rightarrow> text16 list" where
  "stale_or_missing_ips_for_enrich ips cache now =
     filter (\<lambda>ip. case cache ip of
                   None \<Rightarrow> True
                 | Some (g, t) \<Rightarrow> \<not> is_geo_cache_fresh t now \<or> present (gf_country_iso g) = []) ips"

definition upsert_geo_cache :: "text16 \<Rightarrow> geo_fields \<Rightarrow> unit step" where
  "upsert_geo_cache ip flds =
     io (change (\<lambda>w. w\<lparr>iw_geo_cache := (iw_geo_cache w)(ip \<mapsto> (flds, iw_now w))\<rparr>))"

definition prune_stale_geo_cache :: "unit step" where
  "prune_stale_geo_cache =
     io (change (\<lambda>w. w\<lparr>iw_geo_cache := keep_recent (iw_now w) (iw_geo_cache w)\<rparr>))"

section \<open>phone-description.ts, lookups.ts\<close>

definition read_description :: "phone_endpoint \<Rightarrow> text16 option" where
  "read_description row =
     (let trimmed = trim16 (present (ep_description row)) in if trimmed = [] then None else Some trimmed)"

definition note_description :: "(text16 \<rightharpoonup> text16) \<Rightarrow> phone_endpoint \<Rightarrow> (text16 \<rightharpoonup> text16)" where
  "note_description m row =
     (let number = trim16 (present (ep_number row))
      in if number = [] \<or> m number \<noteq> None then m
         else case read_description row of Some d \<Rightarrow> m(number \<mapsto> d) | None \<Rightarrow> m)"

definition build_phone_description_map :: "phone_endpoint list \<Rightarrow> (text16 \<rightharpoonup> text16)" where
  "build_phone_description_map rows = foldl note_description Map.empty rows"

fun load_descriptions :: "(text16 \<rightharpoonup> text16) \<Rightarrow> text16 list list \<Rightarrow> (text16 \<rightharpoonup> text16) step" where
  "load_descriptions m [] = pass m"
| "load_descriptions m (batch # batches) =
     and_then (io (look (\<lambda>w. sort_key ep_name
                 (filter (\<lambda>e. case ep_number e of Some n \<Rightarrow> n \<in> set batch | None \<Rightarrow> False) (iw_endpoints w)))))
       (\<lambda>rows. load_descriptions (build_phone_description_map rows ++ m) batches)"

definition load_descriptions_for_phones :: "text16 list \<Rightarrow> (text16 \<rightharpoonup> text16) step" where
  "load_descriptions_for_phones phones = load_descriptions Map.empty (chunk_array phones db_in_chunk)"

definition next_pstn_answer :: "pstn_fields answer step" where
  "next_pstn_answer w =
     (case iw_pstn_answers w of [] \<Rightarrow> (Done Failed, w) | a # as \<Rightarrow> (Done a, w\<lparr>iw_pstn_answers := as\<rparr>))"

definition next_geo_answer :: "geo_fields answer step" where
  "next_geo_answer w =
     (case iw_geo_answers w of [] \<Rightarrow> (Done Failed, w) | a # as \<Rightarrow> (Done a, w\<lparr>iw_geo_answers := as\<rparr>))"

text \<open>
  One lookup with its cache row; a rate limit waits and tries once more. \<open>None\<close> is a failure that
  was logged: the client, or the statement of the cache.
\<close>

definition looked_up :: "'a answer step \<Rightarrow> ('a \<Rightarrow> unit step) \<Rightarrow> 'a option step" where
  "looked_up ask store =
     (let settle = (\<lambda>a. case a of
                Answer f \<Rightarrow> and_then (try_catch (store f)) (\<lambda>r. pass (if r = None then None else Some f))
              | _ \<Rightarrow> pass None)
      in and_then await (\<lambda>_. and_then ask (\<lambda>a.
         if a = Rate_limited then and_then await (\<lambda>_. and_then ask settle) else settle a)))"

record 'f lookup_result =
  lk_fields :: "text16 \<rightharpoonup> 'f"
  lk_hits :: int
  lk_live :: int

fun live_lookups ::
  "(text16 \<Rightarrow> 'f option step) \<Rightarrow> (text16 \<Rightarrow> text16 list) \<Rightarrow> text16 list \<Rightarrow> 'f lookup_result \<Rightarrow>
     'f lookup_result step" where
  "live_lookups one keys [] r = pass r"
| "live_lookups one keys (k # ks) r =
     and_then (one k) (\<lambda>found.
       live_lookups one keys ks
         (case found of
            None \<Rightarrow> r
          | Some f \<Rightarrow> r\<lparr>lk_fields := foldl (\<lambda>m x. m(x \<mapsto> f)) (lk_fields r) (keys k),
                        lk_live := lk_live r + 1\<rparr>))"

definition no_pstn :: pstn_fields where
  "no_pstn = \<lparr>pf_found = False, pf_operator = None, pf_gar_territory = None\<rparr>"

definition enrich_pstn_phones :: "text16 list \<Rightarrow> pstn_fields lookup_result step" where
  "enrich_pstn_phones phones =
     and_then prune_stale_pstn_cache (\<lambda>_.
     and_then (io (look iw_pstn_ready)) (\<lambda>creds.
       let unique = uniq (List.map_filter normalize_pstn_phone phones);
           originals = (\<lambda>n. filter (\<lambda>p. normalize_pstn_phone p = Some n) phones);
           invalid = (\<lambda>p. if p \<in> set phones \<and> normalize_pstn_phone p = None then Some no_pstn else None)
       in and_then (load_pstn_cache_by_phones unique) (\<lambda>cache.
          and_then (look iw_now) (\<lambda>now.
            let needed = stale_or_missing_pstn_phones unique cache now;
                cached = (\<lambda>p. case normalize_pstn_phone p of
                                 Some n \<Rightarrow> if p \<in> set phones \<and> n \<notin> set needed
                                           then map_option fst (cache n) else None
                               | None \<Rightarrow> None);
                r = \<lparr>lk_fields = invalid ++ cached,
                     lk_hits = int (length unique) - int (length needed), lk_live = 0\<rparr>
            in if needed \<noteq> [] \<and> creds
               then live_lookups (\<lambda>n. looked_up next_pstn_answer (upsert_pstn_cache n)) originals needed r
               else pass (r\<lparr>lk_fields :=
                       foldl (\<lambda>m p. m(p \<mapsto> no_pstn)) (lk_fields r) (concat (map originals needed))\<rparr>)))))"

definition enrich_geo_ips :: "text16 list \<Rightarrow> geo_fields lookup_result step" where
  "enrich_geo_ips ips =
     and_then prune_stale_geo_cache (\<lambda>_.
       let unique = filter is_lookup_ipv4 ips
       in if unique = [] then pass \<lparr>lk_fields = Map.empty, lk_hits = 0, lk_live = 0\<rparr>
          else
            and_then (io (look iw_geo_ready)) (\<lambda>creds.
            and_then (load_geo_cache_by_ips unique) (\<lambda>cache.
            and_then (look iw_now) (\<lambda>now.
              let needed = stale_or_missing_ips_for_enrich unique cache now;
                  r = \<lparr>lk_fields = (\<lambda>ip. if ip \<in> set unique \<and> ip \<notin> set needed
                                          then map_option fst (cache ip) else None),
                       lk_hits = int (length unique) - int (length needed), lk_live = 0\<rparr>
              in if needed \<noteq> [] \<and> creds
                 then live_lookups (\<lambda>ip. looked_up next_geo_answer (upsert_geo_cache ip)) (\<lambda>ip. [ip]) needed r
                 else pass r))))"

section \<open>enrich-import.ts\<close>

text \<open>The key sets keep their order of insertion.\<close>

record cdr_enrich_keys =
  ek_phones :: "text16 list"
  ek_ips :: "text16 list"

definition create_cdr_enrich_key_sets :: cdr_enrich_keys where
  "create_cdr_enrich_key_sets = \<lparr>ek_phones = [], ek_ips = []\<rparr>"

definition add_key :: "text16 \<Rightarrow> text16 list \<Rightarrow> text16 list" where
  "add_key k ks = (if k \<in> set ks then ks else ks @ [k])"

definition add_phone_enrich_key :: "text16 \<Rightarrow> text16 list \<Rightarrow> text16 list" where
  "add_phone_enrich_key raw ks = (let trimmed = trim16 raw in if trimmed = [] then ks else add_key trimmed ks)"

definition add_ip_enrich_key :: "text16 \<Rightarrow> text16 list \<Rightarrow> text16 list" where
  "add_ip_enrich_key raw ks = (case strip_ip_port raw of Some ip \<Rightarrow> add_key ip ks | None \<Rightarrow> ks)"

text \<open>The four columns a row is looked up by.\<close>

record enrich_source =
  es_ani :: text16
  es_dnis :: text16
  es_src :: text16
  es_dst :: text16

definition source_of :: "(string \<times> text16) list \<Rightarrow> enrich_source" where
  "source_of flds =
     \<lparr>es_ani = field ''bill_ani'' flds, es_dnis = field ''bill_dnis'' flds,
      es_src = field ''remote_src_sig_address'' flds, es_dst = field ''remote_dst_sig_address'' flds\<rparr>"

definition add_cdr_enrich_keys :: "enrich_source \<Rightarrow> cdr_enrich_keys \<Rightarrow> cdr_enrich_keys" where
  "add_cdr_enrich_keys s keys =
     \<lparr>ek_phones = add_phone_enrich_key (es_dnis s) (add_phone_enrich_key (es_ani s) (ek_phones keys)),
      ek_ips = add_ip_enrich_key (es_dst s) (add_ip_enrich_key (es_src s) (ek_ips keys))\<rparr>"

record cdr_enrich_stats =
  sx_pstn_hits :: int
  sx_pstn_live :: int
  sx_geo_hits :: int
  sx_geo_live :: int

record cdr_enrich_maps =
  em_descriptions :: "text16 \<rightharpoonup> text16"
  em_pstn :: "text16 \<rightharpoonup> pstn_fields"
  em_geo :: "text16 \<rightharpoonup> geo_fields"
  em_stats :: cdr_enrich_stats

definition geo_bits :: "geo_fields option \<Rightarrow> text16 \<times> text16 \<times> text16" where
  "geo_bits geo =
     (case geo of
        Some g \<Rightarrow> (present (gf_country_iso g), present (gf_city g), present (gf_isp g))
      | None \<Rightarrow> ([], [], []))"

definition row_enrichment_complete :: "enrich_source \<Rightarrow> cdr_enrich_maps \<Rightarrow> bool" where
  "row_enrichment_complete s maps =
     (let ani = trim16 (es_ani s); dnis = trim16 (es_dnis s)
      in if ani \<noteq> [] \<and> em_pstn maps ani = None then False
         else if dnis \<noteq> [] \<and> em_pstn maps dnis = None then False
         else (case strip_ip_port (es_src s) of Some ip \<Rightarrow> em_geo maps ip \<noteq> None | None \<Rightarrow> True)
              \<and> (case strip_ip_port (es_dst s) of Some ip \<Rightarrow> em_geo maps ip \<noteq> None | None \<Rightarrow> True))"

definition when_set :: "(text16 \<rightharpoonup> 'v) \<Rightarrow> text16 \<Rightarrow> 'v option" where
  "when_set m k = (if k = [] then None else m k)"

definition enrich_fields_for_row :: "enrich_source \<Rightarrow> cdr_enrich_maps \<Rightarrow> cdr_enrich_fields" where
  "enrich_fields_for_row s maps =
     (let ani = trim16 (es_ani s); dnis = trim16 (es_dnis s);
          geo = (\<lambda>raw. geo_bits (case strip_ip_port raw of Some ip \<Rightarrow> em_geo maps ip | None \<Rightarrow> None))
      in case (pstn_or_missing (when_set (em_pstn maps) ani), pstn_or_missing (when_set (em_pstn maps) dnis),
               geo (es_src s), geo (es_dst s)) of
           ((operator_a, geography_a, _), (operator_b, geography_b, _), (country_a, city_a, provider_a),
            (country_b, city_b, provider_b)) \<Rightarrow>
             \<lparr>ef_side_a = description_or_missing (when_set (em_descriptions maps) ani),
              ef_operator_a = operator_a, ef_geography_a = geography_a,
              ef_side_b = description_or_missing (when_set (em_descriptions maps) dnis),
              ef_operator_b = operator_b, ef_geography_b = geography_b,
              ef_country_a = country_a, ef_city_a = city_a, ef_provider_a = provider_a,
              ef_country_b = country_b, ef_city_b = city_b, ef_provider_b = provider_b\<rparr>)"

definition load_cdr_import_enrichment :: "cdr_enrich_keys \<Rightarrow> cdr_enrich_maps step" where
  "load_cdr_import_enrichment keys =
     and_then (load_descriptions_for_phones (ek_phones keys)) (\<lambda>descriptions.
     and_then (enrich_pstn_phones (ek_phones keys)) (\<lambda>pstn.
     and_then (enrich_geo_ips (ek_ips keys)) (\<lambda>geo.
     pass \<lparr>em_descriptions = descriptions, em_pstn = lk_fields pstn, em_geo = lk_fields geo,
           em_stats = \<lparr>sx_pstn_hits = lk_hits pstn, sx_pstn_live = lk_live pstn,
                       sx_geo_hits = lk_hits geo, sx_geo_live = lk_live geo\<rparr>\<rparr>)))"

definition no_stats :: cdr_enrich_stats where
  "no_stats = \<lparr>sx_pstn_hits = 0, sx_pstn_live = 0, sx_geo_hits = 0, sx_geo_live = 0\<rparr>"

definition add_stats :: "cdr_enrich_stats \<Rightarrow> cdr_enrich_stats \<Rightarrow> cdr_enrich_stats" where
  "add_stats a b =
     \<lparr>sx_pstn_hits = sx_pstn_hits a + sx_pstn_hits b, sx_pstn_live = sx_pstn_live a + sx_pstn_live b,
      sx_geo_hits = sx_geo_hits a + sx_geo_hits b, sx_geo_live = sx_geo_live a + sx_geo_live b\<rparr>"

definition stored_source :: "stored_call \<Rightarrow> enrich_source" where
  "stored_source c =
     \<lparr>es_ani = field ''billAni'' (st_fields c), es_dnis = field ''billDnis'' (st_fields c),
      es_src = field ''remoteSrcSigAddress'' (st_fields c), es_dst = field ''remoteDstSigAddress'' (st_fields c)\<rparr>"

text \<open>\<open>ORDER BY "cdrAt" DESC, "cdrId" DESC\<close>; rows without a time come first.\<close>

definition newer_call :: "stored_call \<Rightarrow> stored_call \<Rightarrow> bool" where
  "newer_call a b =
     (case (st_at a, st_at b) of
        (None, Some _) \<Rightarrow> True
      | (Some _, None) \<Rightarrow> False
      | (Some s, Some t) \<Rightarrow> s > t \<or> (s = t \<and> call_id a > call_id b)
      | (None, None) \<Rightarrow> call_id a > call_id b)"

definition unenriched_page :: "nat \<Rightarrow> stored_call list \<Rightarrow> stored_call list" where
  "unenriched_page n calls =
     take n (js_sort (\<lambda>a b. if newer_call a b then -1 else if newer_call b a then 1 else 0)
               (filter (\<lambda>c. st_enriched_at c = None) calls))"

definition update_call :: "text16 \<Rightarrow> cdr_enrich_fields \<Rightarrow> int option \<Rightarrow> unit step" where
  "update_call k flds enriched =
     io (change (\<lambda>w. w\<lparr>iw_calls := map (\<lambda>c. if call_id c = k
            then c\<lparr>st_enrich := flds, st_enriched_at := enriched\<rparr> else c) (iw_calls w)\<rparr>))"

definition abort_backfill :: "bool step" where
  "abort_backfill = consume_inbox_dirty Cdr_inbox"

fun backfill_rows :: "cdr_enrich_maps \<Rightarrow> int \<Rightarrow> stored_call list \<Rightarrow> nat \<Rightarrow> (nat \<times> bool) step" where
  "backfill_rows maps now [] done = pass (done, False)"
| "backfill_rows maps now (row # rows) done =
     and_then abort_backfill (\<lambda>abort.
       if abort then pass (done, True)
       else
         and_then (update_call (call_id row) (enrich_fields_for_row (stored_source row) maps)
                     (if row_enrichment_complete (stored_source row) maps then Some now else None)) (\<lambda>_.
         backfill_rows maps now rows (Suc done)))"

record backfill_result =
  bf_done :: nat
  bf_remaining :: nat
  bf_aborted :: bool
  bf_stats :: cdr_enrich_stats

text \<open>The turns are bounded by the rows still allowed: each turn but the last takes one.\<close>

fun backfill_turns :: "nat \<Rightarrow> nat \<Rightarrow> nat \<Rightarrow> nat \<Rightarrow> cdr_enrich_stats \<Rightarrow> (nat \<times> bool \<times> cdr_enrich_stats) step" where
  "backfill_turns 0 max_rows page done stats = (\<lambda>w. (Stuck, w))"
| "backfill_turns (Suc n) max_rows page done stats =
     (if done < max_rows
      then and_then abort_backfill (\<lambda>abort.
        if abort then pass (done, True, stats)
        else
          let wanted = min page (max_rows - done)
          in and_then (io (look (\<lambda>w. unenriched_page wanted (iw_calls w)))) (\<lambda>rows.
             if rows = [] then pass (done, False, stats)
             else
               and_then (load_cdr_import_enrichment
                   (foldl (\<lambda>ks r. add_cdr_enrich_keys (stored_source r) ks) create_cdr_enrich_key_sets rows)) (\<lambda>maps.
               and_then (look iw_now) (\<lambda>now.
               and_then (backfill_rows maps now rows done) (\<lambda>(done1, aborted).
                 if aborted \<or> length rows < wanted then pass (done1, aborted, add_stats stats (em_stats maps))
                 else backfill_turns n max_rows page done1 (add_stats stats (em_stats maps)))))))
      else pass (done, False, stats))"

definition backfill_unenriched_cdr_records :: "nat \<Rightarrow> nat \<Rightarrow> backfill_result step" where
  "backfill_unenriched_cdr_records max_rows page =
     and_then (backfill_turns (Suc max_rows) max_rows page 0 no_stats) (\<lambda>(done, aborted, stats).
     and_then (io (look (\<lambda>w. length (filter (\<lambda>c. st_enriched_at c = None) (iw_calls w))))) (\<lambda>remaining.
     pass \<lparr>bf_done = done, bf_remaining = remaining, bf_aborted = aborted, bf_stats = stats\<rparr>))"

end
