(* ===== verification/Cdr_Import.thy ===== *)
theory Cdr_Import
  imports Import_Enrich
begin

text \<open>
  The import of the dumps (\<open>traffic/cdr-import-processor.ts\<close>): one file, the passes over the inbox,
  and the end of the job. The log and the artifact of the job are left out; an entry of the
  audit log is a statement without content.
\<close>

section \<open>One file\<close>

record file_result =
  fr_name :: string
  fr_inserted :: int
  fr_skipped :: int
  fr_bad :: int
  fr_first_bad :: "int option"
  fr_error :: "text16 option"
  fr_leave :: bool
  fr_stats :: "cdr_enrich_stats option"

definition empty_result :: "inbox_file \<Rightarrow> file_result" where
  "empty_result file =
     \<lparr>fr_name = if_name file, fr_inserted = 0, fr_skipped = 0, fr_bad = 0, fr_first_bad = None,
      fr_error = None, fr_leave = False, fr_stats = None\<rparr>"

definition deferred_file :: "inbox_file \<Rightarrow> file_result" where
  "deferred_file file = (empty_result file)\<lparr>fr_leave := True\<rparr>"

text \<open>\<open>monthKeyFromCdrDay(...)?.key\<close>.\<close>

definition row_month :: "parsed_cdr_row \<Rightarrow> string option" where
  "row_month row = map_option cm_key (month_key_from_cdr_day (Some (chars (field ''cdrDay'' (pc_prisma row)))))"

text \<open>What the first reading of the file counts.\<close>

record scan =
  sn_line :: int
  sn_bad :: int
  sn_held :: int
  sn_first_bad :: "int option"
  sn_valid :: int
  sn_rejects :: parse_reject_counts
  sn_months :: "string set"
  sn_keys :: cdr_enrich_keys

definition scan_start :: scan where
  "scan_start = \<lparr>sn_line = 1, sn_bad = 0, sn_held = 0, sn_first_bad = None, sn_valid = 0,
     sn_rejects = empty_parse_reject_counts, sn_months = {}, sn_keys = create_cdr_enrich_key_sets\<rparr>"

definition scan_line :: "(string \<Rightarrow> int option) \<Rightarrow> string option \<Rightarrow> text16 \<Rightarrow> scan \<Rightarrow> scan" where
  "scan_line dp live raw sn =
     (let sn0 = sn\<lparr>sn_line := sn_line sn + 1\<rparr>
      in if trim16 raw = [] then sn0
         else case classify_cdr_data_line dp raw of
           Line_bad reason \<Rightarrow>
             sn0\<lparr>sn_bad := sn_bad sn + 1, sn_rejects := count_reject reason (sn_rejects sn),
                 sn_first_bad := (if sn_first_bad sn = None then Some (sn_line sn0) else sn_first_bad sn)\<rparr>
         | Line_ok row \<Rightarrow>
             (let months = remember_purge_target (sn_months sn) live
              in if month_is_held months (row_month row)
                 then sn0\<lparr>sn_months := months, sn_held := sn_held sn + 1\<rparr>
                 else sn0\<lparr>sn_months := months, sn_valid := sn_valid sn + 1,
                         sn_keys := add_cdr_enrich_keys (source_of (pc_fields row)) (sn_keys sn)\<rparr>))"

text \<open>Each line is awaited, and the target is read for it.\<close>

fun scan_lines :: "(string \<Rightarrow> int option) \<Rightarrow> text16 list \<Rightarrow> scan \<Rightarrow> scan step" where
  "scan_lines dp [] sn = pass sn"
| "scan_lines dp (raw # rest) sn =
     and_then await (\<lambda>_. and_then (look iw_target) (\<lambda>live.
       scan_lines dp rest (scan_line dp live raw sn)))"

text \<open>The second reading fills batches of rows and inserts them.\<close>

record filling =
  fl_batch :: "stored_call list"
  fl_inserted :: int
  fl_months :: "string set"
  fl_held :: bool

text \<open>\<open>createMany\<close> with \<open>skipDuplicates\<close>: a row whose \<open>cdr_id\<close> is taken is left out.\<close>

fun insert_calls :: "stored_call list \<Rightarrow> stored_call list \<Rightarrow> stored_call list \<times> int" where
  "insert_calls table [] = (table, 0)"
| "insert_calls table (c # cs) =
     (if list_ex (\<lambda>d. call_id d = call_id c) table then insert_calls table cs
      else case insert_calls (table @ [c]) cs of (table1, n) \<Rightarrow> (table1, n + 1))"

definition create_many :: "stored_call list \<Rightarrow> int step" where
  "create_many rows = io (\<lambda>w.
     case insert_calls (iw_calls w) rows of (table, n) \<Rightarrow> (Done n, w\<lparr>iw_calls := table\<rparr>))"

definition flush_batch :: "filling \<Rightarrow> filling step" where
  "flush_batch fl =
     (if fl_batch fl = [] then pass fl
      else and_then (create_many (fl_batch fl)) (\<lambda>n.
        pass (fl\<lparr>fl_batch := [], fl_inserted := fl_inserted fl + n\<rparr>)))"

definition row_to_store :: "inbox_file \<Rightarrow> string \<Rightarrow> int \<Rightarrow> cdr_enrich_maps \<Rightarrow> parsed_cdr_row \<Rightarrow> stored_call" where
  "row_to_store file job enriched_at maps row =
     (let source = source_of (pc_fields row)
      in \<lparr>st_fields = pc_prisma row, st_enrich = enrich_fields_for_row source maps, st_at = pc_cdr_at row,
          st_source = if_name file, st_job = job,
          st_enriched_at = (if row_enrichment_complete source maps then Some enriched_at else None)\<rparr>)"

definition fill_line ::
  "(string \<Rightarrow> int option) \<Rightarrow> (parsed_cdr_row \<Rightarrow> stored_call) \<Rightarrow> string option \<Rightarrow> text16 \<Rightarrow> filling \<Rightarrow> filling" where
  "fill_line dp mk live raw fl =
     (if trim16 raw = [] then fl
      else case classify_cdr_data_line dp raw of
        Line_bad _ \<Rightarrow> fl
      | Line_ok row \<Rightarrow>
          (let months = remember_purge_target (fl_months fl) live
           in if month_is_held months (row_month row) then fl\<lparr>fl_months := months, fl_held := True\<rparr>
              else fl\<lparr>fl_months := months, fl_batch := fl_batch fl @ [mk row]\<rparr>))"

fun fill_lines ::
  "(string \<Rightarrow> int option) \<Rightarrow> (parsed_cdr_row \<Rightarrow> stored_call) \<Rightarrow> text16 list \<Rightarrow> filling \<Rightarrow> filling step" where
  "fill_lines dp mk [] fl = flush_batch fl"
| "fill_lines dp mk (raw # rest) fl =
     and_then await (\<lambda>_. and_then (look iw_target) (\<lambda>live.
       let fl1 = fill_line dp mk live raw fl
       in and_then (if length (fl_batch fl1) \<ge> cdr_insert_batch_size then flush_batch fl1 else pass fl1)
            (\<lambda>fl2. fill_lines dp mk rest fl2)))"

text \<open>The sentences of a result.\<close>

definition held_rows_text :: "int \<Rightarrow> string \<Rightarrow> text16" where
  "held_rows_text n live =
     format_count n @ [32, 1086, 1090, 1083, 1086, 1078, 1077, 1085, 1086, 32, 40] @ purge_hold_message live @ units '')''"

definition no_valid_text :: "inbox_file \<Rightarrow> scan \<Rightarrow> string option \<Rightarrow> text16" where
  "no_valid_text file sn live =
     (let reasons = format_parse_reject_counts (sn_rejects sn)
      in [1053, 1077, 1090, 32, 1074, 1072, 1083, 1080, 1076, 1085, 1099, 1093, 32, 1089, 1090,
          1088, 1086, 1082, 32, 1074, 32]
         @ units (if_name file)
         @ (if reasons \<noteq> [] then units '' ('' @ reasons @ units '')'' else [])
         @ (case sn_first_bad sn of
              Some n \<Rightarrow> [44, 32, 1087, 1077, 1088, 1074, 1072, 1103, 32, 1087, 1083,
                                    1086, 1093, 1072, 1103, 58, 32]
                        @ units (int_str n)
            | None \<Rightarrow> [])
         @ (case live of
              Some m \<Rightarrow> if sn_held sn > 0 then units ''; '' @ held_rows_text (sn_held sn) m else []
            | None \<Rightarrow> []))"

definition partial_text :: "inbox_file \<Rightarrow> scan \<Rightarrow> int \<Rightarrow> bool \<Rightarrow> string option \<Rightarrow> text16" where
  "partial_text file sn inserted held_any live =
     (let reasons = format_parse_reject_counts (sn_rejects sn)
      in [1063, 1072, 1089, 1090, 1080, 1095, 1085, 1072, 1103, 32, 1079, 1072, 1075, 1088, 1091,
          1079, 1082, 1072, 58, 32, 1074, 1089, 1090, 1072, 1074, 1083, 1077, 1085, 1086, 32]
         @ format_count inserted @ [32, 1079, 1072, 1087, 1080, 1089, 1077, 1081, 44, 32] @ format_count (sn_bad sn)
         @ [32, 1073, 1080, 1090, 1099, 1093, 32, 1089, 1090, 1088, 1086, 1082]
         @ (if reasons \<noteq> [] then units '' ('' @ reasons @ units '')'' else [])
         @ (case sn_first_bad sn of
              Some n \<Rightarrow> [32, 40, 1087, 1077, 1088, 1074, 1072, 1103, 58, 32] @ units (int_str n) @ units '')''
            | None \<Rightarrow> [])
         @ [32, 1074, 32] @ units (if_name file) @ units ''.''
         @ (case live of
              Some m \<Rightarrow>
                if held_any
                then units '' '' @ format_count (sn_held sn)
                     @ [32, 1089, 1090, 1088, 1086, 1082, 32, 1086, 1090, 1083, 1086, 1078, 1077,
                        1085, 1086, 32, 40]
                     @ purge_hold_message m @ units '').'' else []
            | None \<Rightarrow> [])
         @ [32, 1060, 1072, 1081, 1083, 32, 1086, 1089, 1090, 1072, 1074, 1083, 1077, 1085, 32,
            1074, 32, 70, 84, 80, 45, 1087, 1072, 1087, 1082, 1077, 32, 8212, 32]
         @ [171] @ [1055, 1086, 1074, 1090, 1086, 1088, 1080, 1090, 1100, 32, 1080, 1084, 1087,
                    1086, 1088, 1090] @ [187]
         @ [32, 1085, 1072, 32, 1057, 1099, 1088, 1099, 1093, 32, 1076, 1072, 1085, 1085, 1099,
            1093, 46])"

definition other_months_text :: "inbox_file \<Rightarrow> int \<Rightarrow> string \<Rightarrow> text16" where
  "other_months_text file inserted live =
     purge_hold_message live @ [46, 32, 1042, 1089, 1090, 1072, 1074, 1083, 1077, 1085, 1086, 32] @ format_count inserted
     @ [32, 1079, 1072, 1087, 1080, 1089, 1077, 1081, 32, 1076, 1088, 1091, 1075, 1080, 1093, 32,
        1084, 1077, 1089, 1103, 1094, 1077, 1074, 32, 1074, 32]
     @ units (if_name file) @ units ''.''"

definition no_header_text :: "inbox_file \<Rightarrow> text16" where
  "no_header_text file =
     [1055, 1091, 1089, 1090, 1086, 1081, 32, 1092, 1072, 1081, 1083, 32, 1080, 1083, 1080, 32,
      1085, 1077, 1090, 32, 1079, 1072, 1075, 1086, 1083, 1086, 1074, 1082, 1072, 58, 32]
     @ units (if_name file)"

definition with_header :: "inbox_file \<Rightarrow> text16 \<Rightarrow> text16" where
  "with_header file err = units (if_name file) @ units '': '' @ err"

text \<open>What is said after the second reading.\<close>

definition filled_result ::
  "inbox_file \<Rightarrow> scan \<Rightarrow> filling \<Rightarrow> string option \<Rightarrow> cdr_enrich_stats \<Rightarrow> file_result" where
  "filled_result file sn fl live stats =
     (let r = (empty_result file)\<lparr>fr_inserted := fl_inserted fl,
                fr_skipped := max 0 (sn_valid sn - fl_inserted fl), fr_stats := Some stats\<rparr>;
          held_any = (sn_held sn > 0 \<or> fl_held fl)
      in if sn_bad sn > 0
         then r\<lparr>fr_bad := sn_bad sn, fr_first_bad := sn_first_bad sn,
                fr_error := Some (partial_text file sn (fl_inserted fl) held_any live)\<rparr>
         else if held_any
         then (case live of
                 Some m \<Rightarrow> r\<lparr>fr_error := Some (other_months_text file (fl_inserted fl) m)\<rparr>
               | None \<Rightarrow> r\<lparr>fr_leave := True\<rparr>)
         else r)"

definition header_problem :: "text16 list \<Rightarrow> text16 option" where
  "header_problem lines =
     (case lines of h # _ \<Rightarrow> assert_canonical_cdr_header (parse_cdr_header_line h) | [] \<Rightarrow> None)"

definition bad_header :: "inbox_file \<Rightarrow> text16 \<Rightarrow> file_result" where
  "bad_header file err = (empty_result file)\<lparr>fr_first_bad := Some 1, fr_error := Some err\<rparr>"

definition fill_file ::
  "(string \<Rightarrow> int option) \<Rightarrow> inbox_file \<Rightarrow> string \<Rightarrow> scan \<Rightarrow> cdr_enrich_maps \<Rightarrow> int \<Rightarrow> text16 list \<Rightarrow> file_result step" where
  "fill_file dp file job sn maps enriched_at lines =
     (case header_problem lines of
        Some err \<Rightarrow> pass ((bad_header file (with_header file err))\<lparr>fr_stats := Some (em_stats maps)\<rparr>)
      | None \<Rightarrow>
          and_then (fill_lines dp (row_to_store file job enriched_at maps) (tl lines)
              \<lparr>fl_batch = [], fl_inserted = 0, fl_months = sn_months sn, fl_held = False\<rparr>) (\<lambda>fl.
          and_then (look iw_target) (\<lambda>target.
            pass (filled_result file sn fl (active_purge_hold (fl_months fl) target) (em_stats maps)))))"

definition store_file ::
  "(string \<Rightarrow> int option) \<Rightarrow> inbox_file \<Rightarrow> string \<Rightarrow> scan \<Rightarrow> cdr_enrich_maps \<Rightarrow> file_result step" where
  "store_file dp file job sn maps =
     and_then (look iw_now) (\<lambda>enriched_at.
     and_then (open_lines (Cdr_inbox, if_name file)) (\<lambda>lines.
     and_then await (\<lambda>_.
     fill_file dp file job sn maps enriched_at lines)))"

text \<open>What the first reading leads to.\<close>

definition after_scan :: "(string \<Rightarrow> int option) \<Rightarrow> inbox_file \<Rightarrow> string \<Rightarrow> scan \<Rightarrow> file_result step" where
  "after_scan dp file job sn =
     and_then (look iw_target) (\<lambda>target.
       let live = active_purge_hold (sn_months sn) target
       in if sn_valid sn = 0 \<and> sn_bad sn = 0 \<and> sn_held sn = 0 then pass (empty_result file)
          else if sn_valid sn = 0 \<and> sn_held sn > 0 \<and> sn_bad sn = 0
          then pass (case live of
                       Some m \<Rightarrow> (empty_result file)\<lparr>fr_error := Some (purge_hold_message m)\<rparr>
                     | None \<Rightarrow> deferred_file file)
          else if sn_valid sn = 0
          then pass ((empty_result file)\<lparr>fr_bad := sn_bad sn, fr_first_bad := sn_first_bad sn,
                       fr_error := Some (no_valid_text file sn live)\<rparr>)
          else and_then (load_cdr_import_enrichment (sn_keys sn)) (\<lambda>maps.
                 store_file dp file job sn maps))"

definition scan_file :: "(string \<Rightarrow> int option) \<Rightarrow> inbox_file \<Rightarrow> string \<Rightarrow> text16 list \<Rightarrow> file_result step" where
  "scan_file dp file job lines =
     (case header_problem lines of
        Some err \<Rightarrow> pass (bad_header file (with_header file err))
      | None \<Rightarrow>
          if lines = [] then pass (bad_header file (no_header_text file))
          else and_then (scan_lines dp (tl lines) scan_start) (\<lambda>sn. after_scan dp file job sn))"

definition import_stable_file :: "(string \<Rightarrow> int option) \<Rightarrow> inbox_file \<Rightarrow> string \<Rightarrow> file_result step" where
  "import_stable_file dp file job =
     (case inbox_file_error file of
        Some err \<Rightarrow> pass ((empty_result file)\<lparr>fr_error := Some err\<rparr>)
      | None \<Rightarrow>
          and_then (open_lines (Cdr_inbox, if_name file)) (\<lambda>lines.
          and_then await (\<lambda>_.
          scan_file dp file job lines)))"

definition import_one_file :: "(string \<Rightarrow> int option) \<Rightarrow> inbox_file \<Rightarrow> string \<Rightarrow> file_result step" where
  "import_one_file dp file job =
     and_then (file_moved Cdr_inbox file) (\<lambda>moved.
       if moved then pass (deferred_file file)
       else and_then (import_stable_file dp file job) (\<lambda>result.
            and_then (file_moved Cdr_inbox file) (\<lambda>moved_since.
              pass (if moved_since then result\<lparr>fr_error := None, fr_leave := True\<rparr> else result))))"

section \<open>The job\<close>

record import_totals =
  it_results :: "file_result list"
  it_inserted :: int
  it_bad :: int
  it_skipped :: int
  it_seen :: "(string \<times> int \<times> int) list"
  it_stats :: cdr_enrich_stats
  it_backfilled :: nat
  it_remaining :: nat
  it_young :: bool

definition no_totals :: import_totals where
  "no_totals = \<lparr>it_results = [], it_inserted = 0, it_bad = 0, it_skipped = 0, it_seen = [],
     it_stats = no_stats, it_backfilled = 0, it_remaining = 0, it_young = False\<rparr>"

text \<open>
  The totals are variables of the running function: they survive a thrown error. So an action over
  them carries them beside the world.
\<close>

type_synonym 'a running = "(import_totals \<times> import_world, 'a) effect"

definition outside :: "'a step \<Rightarrow> 'a running" where
  "outside f s = (case f (snd s) of (r, w) \<Rightarrow> (r, (fst s, w)))"

definition tally :: "(import_totals \<Rightarrow> import_totals) \<Rightarrow> unit running" where
  "tally f s = (Done (), (f (fst s), snd s))"

definition seen_key :: "inbox_file \<Rightarrow> string \<times> int \<times> int" where
  "seen_key f = (if_name f, if_mtime f, if_size f)"

definition note_result :: "file_result \<Rightarrow> import_totals \<Rightarrow> import_totals" where
  "note_result r t =
     t\<lparr>it_results := it_results t @ [r], it_inserted := it_inserted t + fr_inserted r,
       it_bad := it_bad t + fr_bad r, it_skipped := it_skipped t + fr_skipped r,
       it_stats := (case fr_stats r of Some st \<Rightarrow> add_stats (it_stats t) st | None \<Rightarrow> it_stats t)\<rparr>"

text \<open>What happens to the file after its result.\<close>

definition settle_file :: "inbox_file \<Rightarrow> file_result \<Rightarrow> unit step" where
  "settle_file file r =
     (case fr_error r of
        Some err \<Rightarrow> change (\<lambda>w. w\<lparr>iw_poison :=
            mark_poisoned (if_name file) (if_mtime file) err (Some (if_size file)) (iw_poison w)\<rparr>)
      | None \<Rightarrow>
          if fr_leave r then pass ()
          else and_then (change (\<lambda>w. w\<lparr>iw_poison := clear_poison (Some (if_name file)) (iw_poison w)\<rparr>)) (\<lambda>_.
               remove_file (Cdr_inbox, if_name file) (if_mtime file)))"

fun import_files :: "(string \<Rightarrow> int option) \<Rightarrow> string \<Rightarrow> inbox_file list \<Rightarrow> unit running" where
  "import_files dp job [] = pass ()"
| "import_files dp job (file # rest) =
     and_then (tally (\<lambda>t. t\<lparr>it_seen := seen_key file # it_seen t\<rparr>)) (\<lambda>_.
     and_then (outside (import_one_file dp file job)) (\<lambda>r.
     and_then (tally (note_result r)) (\<lambda>_.
     and_then (outside (settle_file file r)) (\<lambda>_.
     import_files dp job rest))))"

text \<open>One pass over the inbox; it tells whether the loop goes on.\<close>

definition import_pass :: "(string \<Rightarrow> int option) \<Rightarrow> string \<Rightarrow> bool running" where
  "import_pass dp job =
     and_then (outside (consume_inbox_dirty Cdr_inbox)) (\<lambda>_.
     and_then (outside (partition_inbox_files False)) (\<lambda>(ready, young).
     and_then (tally (\<lambda>t. t\<lparr>it_young := (young \<noteq> [])\<rparr>)) (\<lambda>_.
     and_then (look (\<lambda>s. filter (\<lambda>f. seen_key f \<notin> set (it_seen (fst s))) ready)) (\<lambda>fresh.
       if fresh \<noteq> [] then and_then (import_files dp job fresh) (\<lambda>_. pass True)
       else and_then (outside (consume_inbox_dirty Cdr_inbox)) (\<lambda>dirty.
         if dirty then pass True
         else and_then (outside (backfill_unenriched_cdr_records cdr_enrich_backfill_max_rows
                                   cdr_enrich_backfill_page_size)) (\<lambda>b.
              and_then (tally (\<lambda>t. t\<lparr>it_backfilled := it_backfilled t + bf_done b, it_remaining := bf_remaining b,
                                   it_stats := add_stats (it_stats t) (bf_stats b)\<rparr>)) (\<lambda>_.
              if bf_aborted b then pass True
              else outside (consume_inbox_dirty Cdr_inbox))))))))"

fun import_passes :: "nat \<Rightarrow> (string \<Rightarrow> int option) \<Rightarrow> string \<Rightarrow> unit running" where
  "import_passes 0 dp job = pass ()"
| "import_passes (Suc n) dp job =
     and_then (import_pass dp job) (\<lambda>again. if again then import_passes n dp job else pass ())"

definition max_passes :: nat where
  "max_passes = 16"

text \<open>\<open>sync-cdr-at.ts\<close>: rows with the shape of a clock whose stored time differs.\<close>

definition civil_timestamp :: "string \<Rightarrow> int option" where
  "civil_timestamp source =
     (let year = num_at 0 4 source; month = num_at 5 7 source; day = num_at 8 10 source;
          hour = num_at 11 13 source; minute = num_at 14 16 source; second = num_at 17 19 source
      in if 1 \<le> year \<and> year \<le> 9999 \<and> 1 \<le> month \<and> month \<le> 12 \<and> hour \<le> 23 \<and> minute \<le> 59 \<and> second \<le> 59
            \<and> 1 \<le> day \<and> day \<le> month_days year month
         then Some (days_of_civil year month day * 86400000 + hour * 3600000 + minute * 60000 + second * 1000)
         else None)"

definition sync_row :: "stored_call \<Rightarrow> stored_call" where
  "sync_row c =
     (let source = latin (field ''cdrDate'' (st_fields c))
      in if \<not> civil_prefix source then c
         else case civil_timestamp source of
             Some t \<Rightarrow> if st_at c \<noteq> Some t then c\<lparr>st_at := Some t\<rparr> else c
           | None \<Rightarrow> c)"

definition sync_cdr_at_from_cdr_date :: "unit step" where
  "sync_cdr_at_from_cdr_date = io (change (\<lambda>w. w\<lparr>iw_calls := map sync_row (iw_calls w)\<rparr>))"

definition drain_inbox :: "(string \<Rightarrow> int option) \<Rightarrow> string \<Rightarrow> unit running" where
  "drain_inbox dp job =
     and_then (outside sync_cdr_at_from_cdr_date) (\<lambda>_.
     and_then (import_passes max_passes dp job) (\<lambda>_.
     and_then (outside (list_inbox_files False)) (\<lambda>leftover.
       if leftover \<noteq> [] then outside request_cdr_import_drain else pass ())))"

definition remember_pass :: "load_side \<Rightarrow> int \<Rightarrow> int \<Rightarrow> int \<Rightarrow> int \<Rightarrow> unit step" where
  "remember_pass side at files phones changes =
     (let counts = \<lparr>file_count = Some files, phones_parsed = Some phones, changes_count = Some changes\<rparr>
      in if \<not> is_file_pass_job counts then pass ()
         else change (\<lambda>w. w\<lparr>iw_passes := iw_passes w
                @ [(side, \<lparr>lp_at = at, lp_had_calls = file_pass_had_calls counts\<rparr>)]\<rparr>))"

text \<open>\<open>prisma.jobRun.update\<close> of a row that is there.\<close>

definition end_run :: "string \<Rightarrow> bool \<Rightarrow> int \<Rightarrow> text16 option \<Rightarrow> int \<Rightarrow> int \<Rightarrow> int \<Rightarrow> unit step" where
  "end_run job failed at err phones bad changes =
     io (change (\<lambda>w. w\<lparr>iw_runs := map (\<lambda>r. if run_id r = job
        then r\<lparr>run_status := (if failed then Job_failed else Job_success), run_finished := Some at,
               run_error := err, ir_phones := phones, ir_bad := bad, ir_changes := changes\<rparr> else r) (iw_runs w)\<rparr>))"

definition audit_entry :: "unit step" where
  "audit_entry = io (pass ())"

record import_job_result =
  ij_failed :: bool
  ij_inserted :: int
  ij_bad :: int
  ij_skipped :: int
  ij_error :: "text16 option"
  ij_requeue :: "int option"

definition error_separator :: text16 where
  "error_separator = [32, 183, 32]"

definition requeue_after :: "import_totals \<Rightarrow> int option" where
  "requeue_after t = (if it_young t then Some cdr_stor_settle_ms else None)"

definition failed_job :: "string \<Rightarrow> db_error \<Rightarrow> import_totals \<Rightarrow> import_job_result step" where
  "failed_job job e t =
     and_then (look iw_now) (\<lambda>finished.
     and_then (end_run job True finished (Some (de_message e)) (it_inserted t) (it_bad t) (it_skipped t)) (\<lambda>_.
     and_then (remember_pass Side_rtu finished (int (length (it_results t))) (it_inserted t) (it_skipped t)) (\<lambda>_.
     pass \<lparr>ij_failed = True, ij_inserted = it_inserted t, ij_bad = it_bad t, ij_skipped = it_skipped t,
           ij_error = Some (de_message e), ij_requeue = requeue_after t\<rparr>)))"

definition finished_job :: "string \<Rightarrow> import_totals \<Rightarrow> import_job_result step" where
  "finished_job job t =
     (let errors = List.map_filter fr_error (it_results t); failed = (errors \<noteq> []);
          message = (if failed then Some (join_with error_separator errors) else None)
      in and_then (look iw_now) (\<lambda>finished.
         and_then audit_entry (\<lambda>_.
         and_then (end_run job failed finished message (it_inserted t) (it_bad t) (it_skipped t)) (\<lambda>_.
         and_then audit_entry (\<lambda>_.
         and_then (remember_pass Side_rtu finished (int (length (it_results t))) (it_inserted t) (it_skipped t)) (\<lambda>_.
         and_then (if \<not> failed \<and> it_inserted t > 0
                   then change (\<lambda>w. w\<lparr>iw_drains := iw_drains w @ [Voipmonitor_match]\<rparr>) else pass ()) (\<lambda>_.
         pass \<lparr>ij_failed = failed, ij_inserted = it_inserted t, ij_bad = it_bad t, ij_skipped = it_skipped t,
               ij_error = message, ij_requeue = requeue_after t\<rparr>)))))))"

text \<open>The inner \<open>try\<close>: an error of the passes ends the job as failed, with what was counted so far.\<close>

definition run_passes :: "(string \<Rightarrow> int option) \<Rightarrow> string \<Rightarrow> import_job_result step" where
  "run_passes dp job w =
     (case drain_inbox dp job (no_totals, w) of
        (Done _, (t, w1)) \<Rightarrow> finished_job job t w1
      | (Thrown e, (t, w1)) \<Rightarrow> failed_job job e t w1
      | (Killed, (t, w1)) \<Rightarrow> (Killed, w1)
      | (Stuck, (t, w1)) \<Rightarrow> (Stuck, w1))"

definition no_terminal_status :: text16 where
  "no_terminal_status = units ''Job ended without a terminal status''"

text \<open>\<open>failJobRunIfStillRunning\<close> swallows its own errors.\<close>

definition end_if_running :: "string \<Rightarrow> unit option step" where
  "end_if_running job =
     try_catch (io (change (\<lambda>w. w\<lparr>iw_runs :=
        fail_job_run_if_still_running (iw_now w) job no_terminal_status (iw_runs w)\<rparr>)))"

definition process_cdr_import :: "(string \<Rightarrow> int option) \<Rightarrow> string \<Rightarrow> import_job_result step" where
  "process_cdr_import dp job =
     and_then (look iw_now) (\<lambda>started.
     and_then (io (change (\<lambda>w. w\<lparr>iw_runs := iw_runs w @
        [\<lparr>run_id = job, run_action = Cdr_import, run_status = Job_running, run_started = started,
          run_finished = None, run_error = None, ir_phones = 0, ir_bad = 0, ir_changes = 0\<rparr>]\<rparr>))) (\<lambda>_.
     and_finally (and_then audit_entry (\<lambda>_. run_passes dp job)) (end_if_running job)))"

end
