(* ===== verification/Import_Invariant.thy ===== *)
theory Import_Invariant
  imports Cdr_Import
begin

text \<open>
  What an import keeps, whatever other code does at its awaits. \<open>await_invariant\<close> lists how lookups
  touch the world: caches, flags and answers; \<open>import_invariant\<close> adds the handling of a file: fields of
  stored calls that are not columns, and new calls whose month is not held; \<open>run_invariant\<close> and
  \<open>job_invariant\<close> add the run around it. An invariant with these laws is kept by every action of the
  import, proved once here.
\<close>

lemma keeps_throw [keeps_intros]: "keeps I (throw e)"
  by (simp add: keeps_def throw_def)

lemma keeps_change: "(\<And>s. I s \<Longrightarrow> I (f s)) \<Longrightarrow> keeps I (change f)"
  by (simp add: keeps_def change_def)

lemma keeps_if_state: "keeps I f \<Longrightarrow> keeps I g \<Longrightarrow> keeps I (\<lambda>s. if c s then f s else g s)"
  by (simp add: keeps_def)

lemma keeps_state: "(\<And>s. I s \<Longrightarrow> keeps I (f s)) \<Longrightarrow> keeps I (\<lambda>s. f s s)"
  by (simp add: keeps_def)

text \<open>The month of a stored call, as the hold reads it from its columns.\<close>

definition call_month :: "stored_call \<Rightarrow> string option" where
  "call_month c = map_option cm_key (month_key_from_cdr_day (Some (chars (field ''cdrDay'' (st_fields c)))))"

lemma call_month_row: "st_fields c = pc_prisma row \<Longrightarrow> call_month c = row_month row"
  by (simp add: call_month_def row_month_def)

lemma fields_row [simp]: "st_fields (row_to_store file job t maps row) = pc_prisma row"
  by (simp add: row_to_store_def Let_def)

text \<open>The shape of a stored call: all columns in order, the day and the time, and an id that is not blank.\<close>

definition typed_call :: "stored_call \<Rightarrow> bool" where
  "typed_call c \<longleftrightarrow>
     map fst (st_fields c) = map csv_header_to_camel cdr_columns @ [''cdrDay'', ''cdrTime'']
     \<and> trim16 (call_id c) \<noteq> [] \<and> field ''cdrDay'' (st_fields c) \<noteq> [] \<and> field ''cdrTime'' (st_fields c) \<noteq> []"

definition plain_start :: "string \<Rightarrow> bool" where
  "plain_start s = (case s of c # d # _ \<Rightarrow> c \<noteq> CHR ''_'' \<and> d \<noteq> CHR ''_'' | _ \<Rightarrow> False)"

lemma camel_start: "plain_start s \<Longrightarrow> take 2 (csv_header_to_camel s) = take 2 s"
proof -
  assume "plain_start s"
  then obtain c d cs where "s = c # d # cs" "c \<noteq> CHR ''_''" "d \<noteq> CHR ''_''"
    by (auto simp: plain_start_def split: list.splits)
  then show ?thesis by (cases cs) (simp_all add: numeral_2_eq_2)
qed

lemma columns_start:
  "list_all plain_start cdr_columns" "filter (\<lambda>s. take 2 s = ''cd'') cdr_columns = [''cdr_id'', ''cdr_date'']"
  "cdr_columns = ''cdr_id'' # tl cdr_columns"
proof -
  show "list_all plain_start cdr_columns" by code_simp
  show "filter (\<lambda>s. take 2 s = ''cd'') cdr_columns = [''cdr_id'', ''cdr_date'']" by code_simp
  show "cdr_columns = ''cdr_id'' # tl cdr_columns" unfolding cdr_columns_def list.sel(3) by (rule refl)
qed

lemma camel_columns:
  "map csv_header_to_camel cdr_columns = ''cdrId'' # map csv_header_to_camel (tl cdr_columns)"
  "''cdrDay'' \<notin> set (map csv_header_to_camel cdr_columns)"
  "''cdrTime'' \<notin> set (map csv_header_to_camel cdr_columns)"
proof -
  have camel: "csv_header_to_camel ''cdr_id'' = ''cdrId''" "csv_header_to_camel ''cdr_date'' = ''cdrDate''" by code_simp+
  then show "map csv_header_to_camel cdr_columns = ''cdrId'' # map csv_header_to_camel (tl cdr_columns)"
    by (subst columns_start(3)) (simp only: list.map)
  have none: "x \<notin> set (map csv_header_to_camel cdr_columns)" if x: "take 2 x = ''cd''" "x \<noteq> ''cdrId''" "x \<noteq> ''cdrDate''" for x
  proof
    assume "x \<in> set (map csv_header_to_camel cdr_columns)"
    then obtain s where s: "s \<in> set cdr_columns" "x = csv_header_to_camel s" by auto
    then have "take 2 s = ''cd''" using columns_start(1) camel_start x(1) by (auto simp: list_all_iff)
    then have "s \<in> set (filter (\<lambda>s. take 2 s = ''cd'') cdr_columns)" using s(1) by simp
    then show False using s(2) x camel unfolding columns_start(2) by auto
  qed
  show "''cdrDay'' \<notin> set (map csv_header_to_camel cdr_columns)" "''cdrTime'' \<notin> set (map csv_header_to_camel cdr_columns)"
    by (rule none; simp)+
qed

lemma dump_values_length: "dump_field_values line = Some vs \<Longrightarrow> length vs = cdr_column_count"
  by (auto simp: dump_field_values_def Let_def split: if_splits option.splits)

lemma field_append: "k \<notin> fst ` set xs \<Longrightarrow> field k (xs @ ys) = field k ys"
proof -
  assume "k \<notin> fst ` set xs"
  then have "map_of xs k = None" by (simp add: map_of_eq_None_iff)
  then show ?thesis by (simp add: field_def map_add_def split: option.split)
qed

lemma classified_typed:
  assumes "classify_cdr_data_line dp line = Line_ok row" and "st_fields c = pc_prisma row"
  shows "typed_call c"
proof -
  obtain vs where vs: "dump_field_values line = Some vs"
    using assms(1) by (auto simp: classify_cdr_data_line_def split: option.splits)
  let ?fields = "zip cdr_columns vs" and ?prisma = "zip (map csv_header_to_camel cdr_columns) vs"
  let ?parts = "split_cdr_date_parts (clock_part (field ''cdr_date'' ?fields))"
  have ok: "trim16 (field ''cdr_id'' ?fields) \<noteq> []" "fst ?parts \<noteq> []" "snd ?parts \<noteq> []"
    "st_fields c = ?prisma @ [(''cdrDay'', units (fst ?parts)), (''cdrTime'', units (snd ?parts))]"
    using assms vs by (auto simp: classify_cdr_data_line_def Let_def split: if_splits)
  have len: "length vs = length cdr_columns" using dump_values_length [OF vs] by (simp add: cdr_column_count_def)
  then obtain v rest where v: "vs = v # rest" using columns_start(3) by (cases vs) (metis length_0_conv neq_Nil_conv, blast)
  have "field ''cdr_id'' ?fields = v" unfolding v by (subst columns_start(3)) (simp add: field_def)
  moreover have "field ''cdrId'' (st_fields c) = v"
    unfolding ok(4) v by (subst camel_columns(1)) (simp add: field_def)
  moreover have keys: "map fst ?prisma = map csv_header_to_camel cdr_columns" using len by simp
  moreover have "field ''cdrDay'' (st_fields c) = units (fst ?parts)" "field ''cdrTime'' (st_fields c) = units (snd ?parts)"
  proof -
    have none: "''cdrDay'' \<notin> fst ` set ?prisma" "''cdrTime'' \<notin> fst ` set ?prisma"
      using camel_columns(2,3) keys by (metis list.set_map)+
    show "field ''cdrDay'' (st_fields c) = units (fst ?parts)" "field ''cdrTime'' (st_fields c) = units (snd ?parts)"
      unfolding ok(4) field_append [OF none(1)] field_append [OF none(2)] by (simp_all add: field_def)
  qed
  ultimately show ?thesis using ok by (simp add: typed_call_def call_id_def units_def)
qed

text \<open>Lookups and flags, and what other code does.\<close>

locale await_invariant =
  fixes I :: "import_world \<Rightarrow> bool"
  assumes others: "keeps I await"
    and faults: "I w \<Longrightarrow> I (w\<lparr>iw_faults := fs\<rparr>)"
    and dirty: "I w \<Longrightarrow> I (w\<lparr>iw_dirty := d\<rparr>)"
    and pstn_cache: "I w \<Longrightarrow> I (w\<lparr>iw_pstn_cache := pc\<rparr>)"
    and geo_cache: "I w \<Longrightarrow> I (w\<lparr>iw_geo_cache := gc\<rparr>)"
    and pstn_answers: "I w \<Longrightarrow> I (w\<lparr>iw_pstn_answers := pa\<rparr>)"
    and geo_answers: "I w \<Longrightarrow> I (w\<lparr>iw_geo_answers := ga\<rparr>)"
begin

lemma keeps_io [keeps_intros]: "keeps I f \<Longrightarrow> keeps I (io f)"
  unfolding io_def
  by (intro keeps_and_then [OF others]) (auto simp: keeps_def faults split: list.split fault.split)

lemmas keeps_await [keeps_intros] = others

lemma keeps_stat [keeps_intros]: "keeps I (stat_file p)"
  unfolding stat_file_def by (intro keeps_intros)

lemma keeps_file_moved [keeps_intros]: "keeps I (file_moved i file)"
  unfolding file_moved_def
proof (rule keeps_if_state)
  show "keeps I (\<lambda>w. (Done True, w))" by (simp add: keeps_def)
qed (intro keeps_intros)

lemma keeps_open [keeps_intros]: "keeps I (open_lines p)"
  unfolding open_lines_def by (intro keeps_intros) (simp add: keeps_def throw_def split: option.split)

lemma keeps_scan [keeps_intros]: "keeps I (scan_lines dp ls sn)"
  by (induction ls arbitrary: sn) (simp_all add: keeps_intros)

lemma keeps_load [keeps_intros]: "keeps I (load_batches table out bs)" "keeps I (load_descriptions m bs)"
proof -
  show "keeps I (load_batches table out bs)" by (induction bs arbitrary: out) (simp_all add: keeps_intros)
  show "keeps I (load_descriptions m bs)" by (induction bs arbitrary: m) (simp_all add: keeps_intros)
qed

lemma keeps_caches [keeps_intros]:
  "keeps I prune_stale_pstn_cache" "keeps I prune_stale_geo_cache" "keeps I (upsert_pstn_cache k f)"
  "keeps I (upsert_geo_cache k g)" "keeps I next_pstn_answer" "keeps I next_geo_answer"
  unfolding prune_stale_pstn_cache_def prune_stale_geo_cache_def upsert_pstn_cache_def upsert_geo_cache_def
  by (intro keeps_io keeps_change pstn_cache geo_cache; assumption)+
    (simp_all add: keeps_def next_pstn_answer_def next_geo_answer_def pstn_answers geo_answers split: list.split)

lemma keeps_looked_up [keeps_intros]:
  assumes "keeps I ask" and "\<And>f. keeps I (store f)"
  shows "keeps I (looked_up ask store)"
proof -
  have settle: "keeps I (case a of Answer f \<Rightarrow> and_then (try_catch (store f)) (\<lambda>r. pass (if r = None then None else Some f))
      | _ \<Rightarrow> pass None)" for a
    using assms by (cases a) (auto intro!: keeps_intros)
  show ?thesis
    unfolding looked_up_def Let_def by (intro keeps_intros assms(1) settle)
qed

lemma keeps_live [keeps_intros]: "(\<And>k. keeps I (one k)) \<Longrightarrow> keeps I (live_lookups one keys ks r)"
  by (induction ks arbitrary: r) (simp_all add: keeps_intros)

lemma keeps_enrichment [keeps_intros]: "keeps I (load_cdr_import_enrichment keys)"
  unfolding load_cdr_import_enrichment_def load_descriptions_for_phones_def enrich_pstn_phones_def
    enrich_geo_ips_def load_pstn_cache_by_phones_def load_geo_cache_by_ips_def Let_def
  by (intro keeps_intros)

lemma keeps_flags [keeps_intros]: "keeps I (consume_inbox_dirty i)" "keeps I abort_backfill"
  by (simp_all add: abort_backfill_def consume_inbox_dirty_def keeps_def dirty)

lemma keeps_names [keeps_intros]: "keeps I (read_names i)"
  unfolding read_names_def by (intro keeps_intros)

lemma keeps_sort_files [keeps_intros]: "keeps I (sort_files inc now names parts)"
proof (induction names arbitrary: parts)
  case Nil
  then show ?case by (cases parts) (simp add: keeps_intros)
next
  case (Cons name names)
  obtain ready young where parts: "parts = (ready, young)" by (cases parts)
  have "keeps I (\<lambda>w. case st of
        None \<Rightarrow> sort_files inc now names (ready, young) w
      | Some f \<Rightarrow>
          if \<not> df_regular f then sort_files inc now names (ready, young) w
          else if \<not> inc \<and> is_poisoned (iw_target w) name (df_mtime f) (Some (df_size f)) (iw_poison w)
          then sort_files inc now names (ready, young) w
          else let file = \<lparr>if_name = name, if_size = df_size f, if_mtime = df_mtime f\<rparr>
               in if is_young_dump (Cdr_inbox, name) (df_size f) (df_mtime f) now (iw_slots w)
                  then sort_files inc now names (ready, young @ [file]) w
                  else sort_files inc now names (ready @ [file], young) w)" for st
    using Cons.IH by (auto simp: keeps_def Let_def split: option.split)
  then show ?case using Cons.IH unfolding parts sort_files.simps by (intro keeps_intros) simp_all
qed

lemma keeps_partition [keeps_intros]: "keeps I (partition_inbox_files inc)" "keeps I (list_inbox_files inc)"
  unfolding partition_inbox_files_def list_inbox_files_def by (intro keeps_intros)+

lemma keeps_audit [keeps_intros]: "keeps I audit_entry"
  unfolding audit_entry_def by (intro keeps_intros)

end

text \<open>The rows of the calls: fields beside the columns, and new rows of months that are not held.\<close>

locale import_invariant = await_invariant +
  fixes fit :: "stored_call \<Rightarrow> bool"
  assumes calls: "I w \<Longrightarrow> (\<And>c. st_fields (g c) = st_fields c) \<Longrightarrow> I (w\<lparr>iw_calls := map g (iw_calls w)\<rparr>)"
    and new_calls: "I w \<Longrightarrow> list_all fit rows \<Longrightarrow> insert_calls (iw_calls w) rows = (table, n) \<Longrightarrow>
      I (w\<lparr>iw_calls := table\<rparr>)"
    and not_held: "I w \<Longrightarrow> typed_call c \<Longrightarrow> \<not> month_is_held (remember_purge_target months (iw_target w)) (call_month c) \<Longrightarrow> fit c"
begin

lemma keeps_create_many: "list_all fit rows \<Longrightarrow> keeps I (create_many rows)"
  unfolding create_many_def by (intro keeps_io) (auto simp: keeps_def new_calls split: prod.split)

lemma keeps_flush: "list_all fit (fl_batch fl) \<Longrightarrow> keeps I (flush_batch fl)"
  unfolding flush_batch_def by (intro keeps_intros keeps_create_many)

lemma flush_fit: "flush_batch fl s = (Done fl1, s1) \<Longrightarrow> list_all fit (fl_batch fl1)"
  by (auto simp: flush_batch_def pass_def split: if_splits elim!: and_then_Done)

text \<open>A row goes into the batch only when its month is not held at that moment.\<close>

lemma fill_line_fit:
  assumes "I s" and "list_all fit (fl_batch fl)" and "\<And>row. st_fields (mk row) = pc_prisma row"
  shows "list_all fit (fl_batch (fill_line dp mk (iw_target s) raw fl))"
proof -
  have "fit (mk row)" if "classify_cdr_data_line dp raw = Line_ok row"
    "\<not> month_is_held (remember_purge_target (fl_months fl) (iw_target s)) (row_month row)" for row
    using not_held [OF assms(1) classified_typed [OF that(1) assms(3)]] that(2) call_month_row [OF assms(3)] by simp
  then show ?thesis using assms(2) by (auto simp: fill_line_def Let_def split: classified_cdr_line.split)
qed

lemma keeps_fill:
  assumes "\<And>row. st_fields (mk row) = pc_prisma row"
  shows "list_all fit (fl_batch fl) \<Longrightarrow> keeps I (fill_lines dp mk ls fl)"
proof (induction ls arbitrary: fl)
  case Nil
  then show ?case by (simp add: keeps_flush)
next
  case (Cons raw ls)
  have rest: "keeps I (and_then (if length (fl_batch fl1) \<ge> cdr_insert_batch_size then flush_batch fl1 else pass fl1)
      (\<lambda>fl2. fill_lines dp mk ls fl2))" if fl1: "list_all fit (fl_batch fl1)" for fl1
  proof (rule keeps_and_then_val)
    show "keeps I (if length (fl_batch fl1) \<ge> cdr_insert_batch_size then flush_batch fl1 else pass fl1)"
      by (intro keeps_intros keeps_flush fl1)
    show "keeps I (fill_lines dp mk ls fl2)"
      if "(if length (fl_batch fl1) \<ge> cdr_insert_batch_size then flush_batch fl1 else pass fl1) s = (Done fl2, s1)" for s fl2 s1
      using that fl1 flush_fit by (intro Cons.IH) (auto simp: pass_def split: if_splits)
  qed
  show ?case unfolding fill_lines.simps Let_def
  proof (rule keeps_and_then [OF others], rule keeps_and_then_val [OF keeps_look])
    show "keeps I (and_then (if length (fl_batch (fill_line dp mk live raw fl)) \<ge> cdr_insert_batch_size
        then flush_batch (fill_line dp mk live raw fl) else pass (fill_line dp mk live raw fl)) (\<lambda>fl2. fill_lines dp mk ls fl2))"
      if "I s" "look iw_target s = (Done live, s1)" for s live s1
    proof (rule rest)
      have "live = iw_target s" using that(2) by (auto simp: look_def)
      then show "list_all fit (fl_batch (fill_line dp mk live raw fl))"
        using fill_line_fit [OF that(1) Cons.prems assms] by simp
    qed
  qed
qed

lemma keeps_fill_file [keeps_intros]: "keeps I (fill_file dp file job sn maps t lines)"
  unfolding fill_file_def by (intro keeps_intros keeps_fill) simp_all

lemma keeps_store_file [keeps_intros]: "keeps I (store_file dp file job sn maps)"
  unfolding store_file_def by (intro keeps_intros)

lemma keeps_after_scan [keeps_intros]: "keeps I (after_scan dp file job sn)"
  unfolding after_scan_def Let_def by (intro keeps_intros)

lemma keeps_scan_file [keeps_intros]: "keeps I (scan_file dp file job lines)"
  unfolding scan_file_def by (intro keeps_intros)

lemma keeps_one_file [keeps_intros]: "keeps I (import_one_file dp file job)"
  unfolding import_one_file_def import_stable_file_def by (intro keeps_intros)

lemma keeps_update_call [keeps_intros]: "keeps I (update_call k f e)"
  unfolding update_call_def by (intro keeps_io keeps_change calls) simp_all

lemma keeps_backfill_rows [keeps_intros]: "keeps I (backfill_rows maps now rows n)"
  by (induction rows arbitrary: n) (simp_all add: keeps_intros)

lemma keeps_backfill_turns [keeps_intros]: "keeps I (backfill_turns n m page k st)"
proof (induction n arbitrary: k st)
  case (Suc n)
  show ?case unfolding backfill_turns.simps Let_def by (intro keeps_intros Suc.IH)
qed (simp add: keeps_def)

lemma keeps_backfill [keeps_intros]: "keeps I (backfill_unenriched_cdr_records m page)"
  unfolding backfill_unenriched_cdr_records_def by (intro keeps_intros)

lemma keeps_sync [keeps_intros]: "keeps I sync_cdr_at_from_cdr_date"
proof -
  have "st_fields (sync_row c) = st_fields c" for c
    by (simp add: sync_row_def Let_def split: option.split)
  then show ?thesis unfolding sync_cdr_at_from_cdr_date_def by (intro keeps_io keeps_change calls)
qed

text \<open>What is done with a file afterwards, for an invariant that leaves the journal and the disk alone.\<close>

lemma keeps_settle:
  assumes "\<And>w jm. I w \<Longrightarrow> I (w\<lparr>iw_poison := jm\<rparr>)"
    and "\<And>w files gone. I w \<Longrightarrow> I (w\<lparr>iw_disk := files, iw_removed := gone\<rparr>)"
  shows "keeps I (settle_file file r)"
proof -
  have "keeps I (remove_file p t)" for p t
    unfolding remove_file_def by (intro keeps_io) (auto simp: keeps_def assms(2) throw_def split: option.split)
  then show ?thesis unfolding settle_file_def by (intro keeps_intros keeps_change assms(1))
qed

end

section \<open>The run\<close>

text \<open>
  The totals of the run are beside the world; the invariant speaks of the world. The law of a run is
  about a file together with what is done with it.
\<close>

lemma keeps_outside [keeps_intros]: "keeps I f \<Longrightarrow> keeps (\<lambda>s. I (snd s)) (outside f)"
  by (auto simp: keeps_def outside_def split: prod.split)

lemma keeps_tally [keeps_intros]: "keeps (\<lambda>s. I (snd s)) (tally f)"
  by (simp add: keeps_def tally_def)

lemma outside_eq: "f w = (r, w1) \<Longrightarrow> outside f (t, w) = (r, (t, w1))"
  by (simp add: outside_def)

locale run_invariant = import_invariant +
  fixes dp :: "string \<Rightarrow> int option"
  assumes one_file: "keeps I (and_then (import_one_file dp file job) (settle_file file))"
    and drains: "I w \<Longrightarrow> I (w\<lparr>iw_drains := as\<rparr>)"
begin

lemma keeps_request [keeps_intros]: "keeps I request_cdr_import_drain"
proof -
  have "I (w\<lparr>iw_dirty := d, iw_drains := as\<rparr>)" if "I w" for w d as
    using drains [OF dirty [OF that]] by simp
  then show ?thesis unfolding request_cdr_import_drain_def by (intro keeps_change)
qed

lemma keeps_import_file:
  assumes "keeps (\<lambda>s. I (snd s)) k"
  shows "keeps (\<lambda>s. I (snd s)) (and_then (outside (import_one_file dp file job)) (\<lambda>r.
     and_then (tally (note_result r)) (\<lambda>_. and_then (outside (settle_file file r)) (\<lambda>_. k))))"
  unfolding keeps_def
proof (intro allI impI)
  fix s :: "import_totals \<times> import_world"
  assume s: "I (snd s)"
  obtain t w where tw: "s = (t, w)" by (cases s)
  obtain res w1 where f: "import_one_file dp file job w = (res, w1)" by (cases "import_one_file dp file job w")
  have all: "I (snd (and_then (import_one_file dp file job) (settle_file file) w))"
    using one_file s tw unfolding keeps_def by (metis snd_conv)
  show "I (snd (snd (and_then (outside (import_one_file dp file job)) (\<lambda>r.
     and_then (tally (note_result r)) (\<lambda>_. and_then (outside (settle_file file r)) (\<lambda>_. k))) s)))"
  proof (cases res)
    case (Done r)
    obtain q w2 where g: "settle_file file r w1 = (q, w2)" by (cases "settle_file file r w1")
    have "I w2" using all f g Done by (simp add: and_then_def)
    then have "I (snd (snd (and_then (\<lambda>_. (q, (note_result r t, w2))) (\<lambda>_. k) s)))"
      using assms by (cases q) (simp_all add: and_then_def keeps_def)
    then show ?thesis
      using tw Done outside_eq [where f = "import_one_file dp file job", OF f, of t]
        outside_eq [where f = "settle_file file r", OF g, of "note_result r t"]
      by (simp add: and_then_def [of "outside _"] and_then_def [of "tally _"] and_then_def [of "\<lambda>_. _"] tally_def)
  qed (use all f tw in \<open>simp_all add: and_then_def outside_def\<close>)
qed

lemma keeps_import_files [keeps_intros]: "keeps (\<lambda>s. I (snd s)) (import_files dp job files)"
proof (induction files)
  case (Cons f files)
  show ?case unfolding import_files.simps
    by (intro keeps_and_then [OF keeps_tally] keeps_import_file Cons.IH)
qed (simp add: keeps_intros)

lemma keeps_import_pass [keeps_intros]: "keeps (\<lambda>s. I (snd s)) (import_pass dp job)"
  unfolding import_pass_def by (intro keeps_intros)

lemma keeps_import_passes [keeps_intros]: "keeps (\<lambda>s. I (snd s)) (import_passes n dp job)"
proof (induction n)
  case (Suc n)
  show ?case unfolding import_passes.simps by (intro keeps_intros Suc.IH)
qed (simp add: keeps_intros)

lemma keeps_drain [keeps_intros]: "keeps (\<lambda>s. I (snd s)) (drain_inbox dp job)"
  unfolding drain_inbox_def by (intro keeps_intros)

lemma drain_Done: "drain_inbox dp job (t, w) = (r, (t1, w1)) \<Longrightarrow> I w \<Longrightarrow> I w1"
  using keepsD [OF keeps_drain, of "(t, w)" job r "(t1, w1)"] by simp

end

text \<open>The whole job writes its row and the load counter as well.\<close>

locale job_invariant = run_invariant +
  assumes runs: "I w \<Longrightarrow> I (w\<lparr>iw_runs := rs\<rparr>)"
    and passes: "I w \<Longrightarrow> I (w\<lparr>iw_passes := ps\<rparr>)"
begin

lemma keeps_run_row [keeps_intros]:
  "keeps I (end_run job failed at err a b c)" "keeps I (end_if_running job)"
  "keeps I (remember_pass side at a b c)"
  unfolding end_run_def end_if_running_def remember_pass_def Let_def
  by (intro keeps_intros keeps_change runs passes; assumption)+

lemma keeps_job_end [keeps_intros]: "keeps I (failed_job job e t)" "keeps I (finished_job job t)"
  unfolding failed_job_def finished_job_def Let_def
  by (intro keeps_intros keeps_change drains; assumption)+

lemma keeps_run_passes [keeps_intros]: "keeps I (run_passes dp job)"
  unfolding keeps_def
proof (intro allI impI)
  fix w
  assume w: "I w"
  obtain res t w1 where f: "drain_inbox dp job (no_totals, w) = (res, (t, w1))"
    by (cases "drain_inbox dp job (no_totals, w)") auto
  have "I w1" by (rule drain_Done [OF f w])
  then show "I (snd (run_passes dp job w))"
    using f keeps_job_end by (cases res) (simp_all add: run_passes_def keeps_def)
qed

lemma keeps_process: "keeps I (process_cdr_import dp job)"
  unfolding process_cdr_import_def by (intro keeps_intros keeps_change runs; assumption)

end

end
