(* ===== verification/Import_Logic.thy ===== *)
theory Import_Logic
  imports Import_Invariant
begin

text \<open>
  What holds of every step of an import, whatever other code does between: time goes on, no stored
  call is lost, nothing is taken from the inbox, and a file is as it was or carries a later time
  than the step began with. \<open>evolves\<close> is this relation of two worlds, \<open>evolving\<close> an action that keeps to it.
  So a file found twice with the same time was the same all along.
\<close>

section \<open>Steps that take nothing away\<close>

definition on_disk :: "import_world \<Rightarrow> path \<Rightarrow> disk_file option" where
  "on_disk w p = map_of (iw_disk w) p"

definition stored_ids :: "import_world \<Rightarrow> text16 set" where
  "stored_ids w = call_id ` set (iw_calls w)"

definition not_future :: "import_world \<Rightarrow> bool" where
  "not_future w \<longleftrightarrow> (\<forall>p f. on_disk w p = Some f \<longrightarrow> df_mtime f \<le> iw_now w)"

definition evolves :: "import_world \<Rightarrow> import_world \<Rightarrow> bool" where
  "evolves w w1 \<longleftrightarrow>
     iw_now w \<le> iw_now w1 \<and> iw_removed w1 = iw_removed w \<and> stored_ids w \<subseteq> stored_ids w1
     \<and> (\<forall>p. on_disk w1 p = on_disk w p \<or> (\<exists>f. on_disk w1 p = Some f \<and> iw_now w < df_mtime f))
     \<and> (not_future w \<longrightarrow> not_future w1)"

lemma evolves_refl [simp]: "evolves w w"
  by (simp add: evolves_def)

lemma evolves_trans: "evolves a b \<Longrightarrow> evolves b c \<Longrightarrow> evolves a c"
  unfolding evolves_def by (metis order.trans order_le_less_trans)

lemma evolves_same:
  "iw_now w1 = iw_now w \<Longrightarrow> iw_removed w1 = iw_removed w \<Longrightarrow> stored_ids w \<subseteq> stored_ids w1 \<Longrightarrow>
     iw_disk w1 = iw_disk w \<Longrightarrow> evolves w w1"
  by (simp add: evolves_def on_disk_def not_future_def)

lemma evolves_disk: "evolves w w1 \<Longrightarrow> on_disk w1 p = on_disk w p \<or> (\<exists>f. on_disk w1 p = Some f \<and> iw_now w < df_mtime f)"
  unfolding evolves_def by blast

lemma unchanged_between:
  assumes "evolves a b" and "evolves b c" and "not_future a"
    and "on_disk a p = Some f" and "on_disk c p = Some g" and "df_mtime g \<le> df_mtime f"
  shows "on_disk b p = Some f \<and> g = f"
proof -
  have f: "df_mtime f \<le> iw_now a" using assms(3,4) unfolding not_future_def by blast
  have ab: "iw_now a \<le> iw_now b" using assms(1) by (simp add: evolves_def)
  have "\<not> iw_now b < df_mtime g" using assms(6) f ab by linarith
  then have cb: "on_disk c p = on_disk b p" using evolves_disk [OF assms(2)] assms(5) by (metis option.inject)
  moreover have "\<not> iw_now a < df_mtime g" using assms(6) f by linarith
  ultimately have "on_disk b p = on_disk a p" using evolves_disk [OF assms(1)] assms(5) by (metis option.inject)
  then show ?thesis using cb assms(4,5) by simp
qed

definition evolving :: "'a step \<Rightarrow> bool" where
  "evolving f \<longleftrightarrow> (\<forall>w. evolves w (snd (f w)))"

lemma evolvingD: "evolving f \<Longrightarrow> f w = (r, w1) \<Longrightarrow> evolves w w1"
  unfolding evolving_def by (metis snd_conv)

lemma evolves_put:
  "evolves w (put_file p n t w)"
proof -
  have "on_disk (put_file p n t w) q = (if q = p then Some \<lparr>df_regular = True, df_size = int n,
      df_mtime = iw_now w + 1, df_text = t\<rparr> else on_disk w q)" for q
    by (simp add: on_disk_def put_file_def Let_def update_conv')
  moreover have "iw_now (put_file p n t w) = iw_now w + 1" "iw_removed (put_file p n t w) = iw_removed w"
    "stored_ids (put_file p n t w) = stored_ids w"
    by (simp_all add: put_file_def Let_def stored_ids_def)
  ultimately show ?thesis by (fastforce simp: evolves_def not_future_def)
qed

lemma evolves_time: "evolves w (w\<lparr>iw_now := iw_now w + int n\<rparr>)"
  by (fastforce simp: evolves_def on_disk_def not_future_def stored_ids_def)

lemma evolves_interfere: "evolves w (interfere e w)"
proof (cases e)
  case (Upload_opens p)
  have "evolves w (w\<lparr>iw_slots := snd (begin_stor p (iw_slots w))\<rparr>)"
    by (rule evolves_same) (simp_all add: stored_ids_def)
  then show ?thesis using Upload_opens evolves_put evolves_trans by fastforce
qed (auto simp: evolves_put evolves_time stored_ids_def intro!: evolves_same split: option.splits)

lemma evolves_events: "evolves w (fold interfere es w)"
  by (induction es arbitrary: w) (auto intro: evolves_trans [OF evolves_interfere])

lemma insert_calls_ids:
  "insert_calls table rows = (table1, n) \<Longrightarrow> call_id ` set table1 = call_id ` set table \<union> call_id ` set rows"
proof (induction rows arbitrary: table n)
  case (Cons c cs)
  show ?case
  proof (cases "list_ex (\<lambda>d. call_id d = call_id c) table")
    case True
    then have "call_id c \<in> call_id ` set table" by (auto simp: list_ex_iff) (metis image_eqI)
    then show ?thesis using Cons True by auto
  next
    case False
    then show ?thesis using Cons by (auto split: prod.splits)
  qed
qed simp

lemma ids_map: "(\<And>c. call_id (g c) = call_id c) \<Longrightarrow> call_id ` set (map g cs) = call_id ` set cs"
  by (simp add: image_image)

lemma evolves_calls:
  assumes "\<And>c. call_id (g c) = call_id c"
  shows "evolves w (w\<lparr>iw_calls := map g (iw_calls w)\<rparr>)"
proof (rule evolves_same)
  show "stored_ids w \<subseteq> stored_ids (w\<lparr>iw_calls := map g (iw_calls w)\<rparr>)"
    using ids_map [OF assms, of "iw_calls w"] by (simp add: stored_ids_def)
qed simp_all

lemma evolves_await: "evolves w (snd (await w))"
proof (cases "iw_events w")
  case (Cons es rest)
  have "evolves w (w\<lparr>iw_events := rest\<rparr>)" by (rule evolves_same) (simp_all add: stored_ids_def)
  then show ?thesis using Cons evolves_events evolves_trans by (fastforce simp: await_def)
qed (simp add: await_def)

text \<open>To have evolved from a world is an invariant of the import; \<open>evolving\<close> says so of all worlds.\<close>

interpretation grows: import_invariant "evolves w0" "\<lambda>_. True" for w0
proof
  show "keeps (evolves w0) await" unfolding keeps_def using evolves_await evolves_trans by blast
  show "evolves w0 (w\<lparr>iw_calls := table\<rparr>)"
    if "evolves w0 w" "insert_calls (iw_calls w) rows = (table, n)" for w rows table n
    using insert_calls_ids [OF that(2)] by (intro evolves_trans [OF that(1)] evolves_same) (auto simp: stored_ids_def)
  show "evolves w0 (w\<lparr>iw_calls := map g (iw_calls w)\<rparr>)"
    if "evolves w0 w" "\<And>c. st_fields (g c) = st_fields c" for w g
    using that(2) by (intro evolves_trans [OF that(1)] evolves_calls) (simp add: call_id_def)
qed (rule TrueI | (erule evolves_trans, rule evolves_same; simp add: stored_ids_def))+

lemma evolvingI: "(\<And>w0. keeps (evolves w0) f) \<Longrightarrow> evolving f"
  unfolding evolving_def keeps_def using evolves_refl by blast

lemma evolving_await: "evolving await"
  by (rule evolvingI) (rule grows.others)

lemma io_Done:
  assumes "io f w = (Done x, w1)"
  obtains v where "evolves w v" and "f v = (Done x, w1)"
proof -
  obtain u where a: "await w = (Done (), u)"
    by (cases "iw_events w") (auto simp: await_def)
  have "evolves u (u\<lparr>iw_faults := fs\<rparr>)" for fs by (rule evolves_same) (simp_all add: stored_ids_def)
  then have e: "evolves w u" "evolves w (u\<lparr>iw_faults := fs\<rparr>)" for fs
    using evolvingD [OF evolving_await a] evolves_trans by blast+
  show thesis
    using assms a e that
    by (auto simp: io_def and_then_def split: list.splits fault.splits)
qed

lemma create_many_stored:
  assumes "create_many rows w = (Done n, w1)"
  shows "call_id ` set rows \<subseteq> stored_ids w1"
proof -
  obtain v where "(case insert_calls (iw_calls v) rows of (table, n) \<Rightarrow> (Done n, v\<lparr>iw_calls := table\<rparr>)) = (Done n, w1)"
    using assms unfolding create_many_def by (rule io_Done)
  then show ?thesis by (auto simp: stored_ids_def insert_calls_ids split: prod.splits)
qed

lemma evolving_fill: "(\<And>row. st_fields (mk row) = pc_prisma row) \<Longrightarrow> evolving (fill_lines dp mk ls fl)"
  by (rule evolvingI, rule grows.keeps_fill) (simp_all add: list_all_iff)

lemma evolving_parts:
  "evolving (scan_lines dp ls sn)" "evolving (load_cdr_import_enrichment keys)"
  "evolving (fill_file dp file job sn maps t ls)" "evolving (after_scan dp file job sn)"
  "evolving (import_one_file dp file job)"
  by (rule evolvingI, rule grows.keeps_scan grows.keeps_enrichment grows.keeps_fill_file grows.keeps_after_scan
      grows.keeps_one_file)+

section \<open>What a result means\<close>

lemma open_lines_Done:
  assumes "open_lines p w = (Done ls, w1)"
  obtains f where "evolves w w1" and "on_disk w1 p = Some f" and "ls = read_lines (df_text f)"
proof -
  obtain v where v: "evolves w v"
    "(case map_of (iw_disk v) p of Some f \<Rightarrow> (Done (read_lines (df_text f)), v) | None \<Rightarrow> throw no_such_file v) = (Done ls, w1)"
    using assms unfolding open_lines_def by (rule io_Done)
  then show thesis using that by (auto simp: throw_def on_disk_def split: option.splits)
qed

lemma stat_file_Done:
  assumes "stat_file p w = (Done (Some f), w1)"
  shows "evolves w w1 \<and> on_disk w1 p = Some f"
proof -
  obtain r v where a: "try_catch (io (look (\<lambda>w. map_of (iw_disk w) p))) w = (Done r, v)"
    and b: "pass (case r of Some (Some f) \<Rightarrow> Some f | _ \<Rightarrow> None) v = (Done (Some f), w1)"
    using assms unfolding stat_file_def by (rule and_then_Done)
  have r: "r = Some (Some f)" "w1 = v" using b by (auto simp: pass_def split: option.splits)
  then have "io (look (\<lambda>w. map_of (iw_disk w) p)) w = (Done (Some f), v)"
    using a by (auto simp: try_catch_def split: prod.splits outcome.splits)
  then obtain u where "evolves w u" "look (\<lambda>w. map_of (iw_disk w) p) u = (Done (Some f), v)" by (rule io_Done)
  then show ?thesis using r by (auto simp: look_def on_disk_def)
qed

lemma not_moved:
  assumes "file_moved i file w = (Done False, w1)"
  shows "evolves w w1 \<and> (\<exists>f. on_disk w1 (i, if_name file) = Some f \<and> df_mtime f = if_mtime file)"
proof -
  have "and_then (stat_file (i, if_name file)) (\<lambda>st. pass (case st of None \<Rightarrow> True
      | Some f \<Rightarrow> \<not> df_regular f \<or> df_size f \<noteq> if_size file \<or> df_mtime f \<noteq> if_mtime file)) w = (Done False, w1)"
    using assms by (simp add: file_moved_def split: if_splits)
  then obtain st v where st: "stat_file (i, if_name file) w = (Done st, v)"
    "pass (case st of None \<Rightarrow> True
      | Some f \<Rightarrow> \<not> df_regular f \<or> df_size f \<noteq> if_size file \<or> df_mtime f \<noteq> if_mtime file) v = (Done False, w1)"
    by (rule and_then_Done)
  then show ?thesis using stat_file_Done by (auto simp: pass_def split: option.splits)
qed

definition blank :: "text16 \<Rightarrow> bool" where
  "blank raw = (trim16 raw = [])"

definition well_formed :: "(string \<Rightarrow> int option) \<Rightarrow> text16 \<Rightarrow> bool" where
  "well_formed dp raw =
     (blank raw \<or> (case classify_cdr_data_line dp raw of Line_ok _ \<Rightarrow> True | Line_bad _ \<Rightarrow> False))"

definition row_stored :: "(string \<Rightarrow> int option) \<Rightarrow> text16 \<Rightarrow> import_world \<Rightarrow> bool" where
  "row_stored dp raw w =
     (blank raw \<or> (case classify_cdr_data_line dp raw of
                     Line_ok row \<Rightarrow> field ''cdrId'' (pc_prisma row) \<in> stored_ids w | Line_bad _ \<Rightarrow> True))"

definition body_lines :: "disk_file \<Rightarrow> text16 list" where
  "body_lines f = tl (read_lines (df_text f))"

definition good_header :: "disk_file \<Rightarrow> bool" where
  "good_header f =
     (case read_lines (df_text f) of
        h # _ \<Rightarrow> headers_match_canonical (parse_cdr_header_line h) | [] \<Rightarrow> False)"

text \<open>The file is a dump and every line of it is a stored call.\<close>

definition file_stored :: "(string \<Rightarrow> int option) \<Rightarrow> disk_file \<Rightarrow> import_world \<Rightarrow> bool" where
  "file_stored dp f w \<longleftrightarrow>
     good_header f \<and> list_all (\<lambda>raw. well_formed dp raw \<and> row_stored dp raw w) (body_lines f)"

lemma row_stored_mono: "row_stored dp raw w \<Longrightarrow> stored_ids w \<subseteq> stored_ids w1 \<Longrightarrow> row_stored dp raw w1"
  by (auto simp: row_stored_def split: classified_cdr_line.splits)

lemma file_stored_mono: "file_stored dp f w \<Longrightarrow> stored_ids w \<subseteq> stored_ids w1 \<Longrightarrow> file_stored dp f w1"
  by (auto simp: file_stored_def list_all_iff intro: row_stored_mono)

lemma evolves_ids: "evolves w w1 \<Longrightarrow> stored_ids w \<subseteq> stored_ids w1"
  by (simp add: evolves_def)

lemma flush_stored:
  assumes "flush_batch fl w = (Done fl1, w1)"
  shows "fl_held fl1 = fl_held fl \<and> call_id ` set (fl_batch fl) \<subseteq> stored_ids w1"
proof (cases "fl_batch fl = []")
  case True
  then show ?thesis using assms by (simp add: flush_batch_def pass_def)
next
  case False
  then obtain n v where "create_many (fl_batch fl) w = (Done n, v)"
    "pass (fl\<lparr>fl_batch := [], fl_inserted := fl_inserted fl + n\<rparr>) v = (Done fl1, w1)"
    using assms unfolding flush_batch_def by (auto elim: and_then_Done)
  then show ?thesis using create_many_stored by (auto simp: pass_def)
qed

lemma fill_stored:
  assumes "\<And>row. st_fields (mk row) = pc_prisma row"
  shows "fill_lines dp mk ls fl w = (Done fl1, w1) \<Longrightarrow>
    (fl_held fl \<longrightarrow> fl_held fl1) \<and>
    (\<not> fl_held fl1 \<longrightarrow> call_id ` set (fl_batch fl) \<subseteq> stored_ids w1 \<and> (\<forall>raw\<in>set ls. row_stored dp raw w1))"
proof (induction ls arbitrary: fl w)
  case Nil
  then show ?case using flush_stored by simp
next
  case (Cons raw rest)
  have ids: "call_id (mk row) = field ''cdrId'' (pc_prisma row)" for row using assms by (simp add: call_id_def)
  obtain live fl2 v w2 where
    step: "(if length (fl_batch (fill_line dp mk live raw fl)) \<ge> cdr_insert_batch_size
       then flush_batch (fill_line dp mk live raw fl) else pass (fill_line dp mk live raw fl)) v = (Done fl2, w2)"
    and rest: "fill_lines dp mk rest fl2 w2 = (Done fl1, w1)"
    using Cons.prems by (auto simp: Let_def elim!: and_then_Done)
  let ?fl = "fill_line dp mk live raw fl"
  note ih = Cons.IH [OF rest]
  have grow: "stored_ids w2 \<subseteq> stored_ids w1" by (rule evolves_ids [OF evolvingD [OF evolving_fill [OF assms] rest]])
  have fl2: "fl_held fl2 = fl_held ?fl \<and> (call_id ` set (fl_batch ?fl) \<subseteq> stored_ids w2 \<or> fl2 = ?fl)"
    using step flush_stored by (auto simp: pass_def split: if_splits)
  have line: "fl_held fl \<longrightarrow> fl_held ?fl" "set (fl_batch fl) \<subseteq> set (fl_batch ?fl)"
    "\<not> fl_held ?fl \<longrightarrow> blank raw \<or> (case classify_cdr_data_line dp raw of
       Line_ok row \<Rightarrow> mk row \<in> set (fl_batch ?fl) | Line_bad _ \<Rightarrow> True)"
    by (auto simp: fill_line_def blank_def Let_def split: classified_cdr_line.split)
  have held: "fl_held fl \<longrightarrow> fl_held fl1" using line(1) fl2 ih by blast
  have "call_id ` set (fl_batch fl) \<subseteq> stored_ids w1 \<and> (\<forall>r\<in>set (raw # rest). row_stored dp r w1)" if "\<not> fl_held fl1"
  proof -
    have "call_id ` set (fl_batch ?fl) \<subseteq> stored_ids w1" using fl2 ih that grow by blast
    moreover have "row_stored dp raw w1"
      using line(3) fl2 ih that calculation ids
      by (auto simp: row_stored_def split: classified_cdr_line.splits)
    ultimately show ?thesis using line(2) ih that by auto
  qed
  then show ?case using held by blast
qed

text \<open>The counts of the first reading only grow; where they stay, the lines are good, or blank.\<close>

lemma scan_counts:
  "scan_lines dp ls sn w = (Done sn1, w1) \<Longrightarrow>
    sn_bad sn \<le> sn_bad sn1 \<and> sn_held sn \<le> sn_held sn1 \<and> sn_valid sn \<le> sn_valid sn1
    \<and> (sn_bad sn1 = sn_bad sn \<longrightarrow> (\<forall>raw\<in>set ls. well_formed dp raw))
    \<and> (sn_bad sn1 = sn_bad sn \<and> sn_held sn1 = sn_held sn \<and> sn_valid sn1 = sn_valid sn \<longrightarrow> (\<forall>raw\<in>set ls. blank raw))"
proof (induction ls arbitrary: sn w)
  case Nil
  then show ?case by (simp add: pass_def)
next
  case (Cons raw rest)
  obtain live v where rest: "scan_lines dp rest (scan_line dp live raw sn) v = (Done sn1, w1)"
    using Cons.prems by (auto elim!: and_then_Done)
  let ?sn = "scan_line dp live raw sn"
  have line: "sn_bad sn \<le> sn_bad ?sn" "sn_held sn \<le> sn_held ?sn" "sn_valid sn \<le> sn_valid ?sn"
    "sn_bad ?sn = sn_bad sn \<longrightarrow> well_formed dp raw"
    "sn_bad ?sn = sn_bad sn \<and> sn_held ?sn = sn_held sn \<and> sn_valid ?sn = sn_valid sn \<longrightarrow> blank raw"
    by (auto simp: scan_line_def well_formed_def blank_def Let_def split: classified_cdr_line.split)
  note ih = Cons.IH [OF rest]
  have eq: "sn_bad sn1 = sn_bad sn \<longrightarrow> sn_bad ?sn = sn_bad sn \<and> sn_bad sn1 = sn_bad ?sn"
    "sn_held sn1 = sn_held sn \<longrightarrow> sn_held ?sn = sn_held sn \<and> sn_held sn1 = sn_held ?sn"
    "sn_valid sn1 = sn_valid sn \<longrightarrow> sn_valid ?sn = sn_valid sn \<and> sn_valid sn1 = sn_valid ?sn"
    using line(1-3) ih by linarith+
  show ?case using ih line eq by auto
qed

lemma await_Done:
  assumes "and_then await (\<lambda>_. k) w = (Done x, w2)"
  obtains w1 where "evolves w w1" and "k w1 = (Done x, w2)"
proof -
  obtain u w1 where "await w = (Done u, w1)" "k w1 = (Done x, w2)" using assms by (rule and_then_Done)
  then show thesis using that evolvingD [OF evolving_await] by blast
qed

lemma filled_result_ok:
  assumes "fr_error (filled_result file sn fl live stats) = None" and "\<not> fr_leave (filled_result file sn fl live stats)"
  shows "sn_bad sn \<le> 0 \<and> \<not> fl_held fl"
  using assms by (simp add: filled_result_def Let_def split: if_splits option.splits)

lemma call_id_row [simp]: "call_id (row_to_store file job t maps row) = field ''cdrId'' (pc_prisma row)"
  by (simp add: call_id_def row_to_store_def Let_def)

definition settled :: "file_result \<Rightarrow> bool" where
  "settled r \<longleftrightarrow> fr_error r = None \<and> \<not> fr_leave r"

lemma settled_simps [simp]:
  "settled (empty_result file)" "\<not> settled (deferred_file file)" "\<not> settled (bad_header file err)"
  "\<not> settled (r\<lparr>fr_error := Some e\<rparr>)" "settled (r\<lparr>fr_stats := st\<rparr>) = settled r"
  by (simp_all add: settled_def deferred_file_def bad_header_def empty_result_def)

lemma filled_settled: "settled (filled_result file sn fl live stats) \<Longrightarrow> sn_bad sn \<le> 0 \<and> \<not> fl_held fl"
  unfolding settled_def using filled_result_ok by blast

lemma fill_file_Done:
  assumes "fill_file dp file job sn maps t lines w = (Done r, w1)" and "settled r"
  shows "sn_bad sn \<le> 0 \<and> (\<forall>raw\<in>set (tl lines). row_stored dp raw w1)"
proof -
  have "header_problem lines = None" using assms by (auto simp: fill_file_def pass_def split: option.splits)
  then obtain fl v where fill: "fill_lines dp (row_to_store file job t maps) (tl lines)
      \<lparr>fl_batch = [], fl_inserted = 0, fl_months = sn_months sn, fl_held = False\<rparr> w = (Done fl, v)"
    and k: "and_then (look iw_target) (\<lambda>target.
      pass (filled_result file sn fl (active_purge_hold (fl_months fl) target) (em_stats maps))) v = (Done r, w1)"
    using assms(1) by (auto simp: fill_file_def elim: and_then_Done)
  have "r = filled_result file sn fl (active_purge_hold (fl_months fl) (iw_target v)) (em_stats maps)" "w1 = v"
    using look_Done [OF k] by (auto simp: pass_def)
  then show ?thesis using filled_settled assms(2) fill_stored [OF fields_row fill] by blast
qed

lemma store_file_Done:
  assumes "store_file dp file job sn maps w = (Done r, w1)" and "settled r"
  shows "sn_bad sn \<le> 0 \<and> (\<exists>wb f. evolves w wb \<and> evolves wb w1 \<and> on_disk wb (Cdr_inbox, if_name file) = Some f
    \<and> (\<forall>raw\<in>set (body_lines f). row_stored dp raw w1))"
proof -
  obtain lines wb where o1: "open_lines (Cdr_inbox, if_name file) w = (Done lines, wb)"
    and k: "and_then await (\<lambda>_. fill_file dp file job sn maps (iw_now w) lines) wb = (Done r, w1)"
    using look_Done [OF assms(1) [unfolded store_file_def]] by (rule and_then_Done)
  obtain f where f: "evolves w wb" "on_disk wb (Cdr_inbox, if_name file) = Some f" "lines = read_lines (df_text f)"
    using o1 by (rule open_lines_Done)
  obtain wc where wc: "evolves wb wc" and fill: "fill_file dp file job sn maps (iw_now w) lines wc = (Done r, w1)"
    using k by (rule await_Done)
  have "evolves wb w1" using wc evolvingD [OF evolving_parts(3) fill] evolves_trans by blast
  then show ?thesis using f fill_file_Done [OF fill assms(2)] unfolding body_lines_def by blast
qed

definition well_read :: "(string \<Rightarrow> int option) \<Rightarrow> inbox_file \<Rightarrow> text16 list \<Rightarrow> import_world \<Rightarrow> import_world \<Rightarrow> bool" where
  "well_read dp file body w w1 \<longleftrightarrow>
     (\<forall>raw\<in>set body. well_formed dp raw)
     \<and> ((\<forall>raw\<in>set body. blank raw)
        \<or> (\<exists>wb g. evolves w wb \<and> evolves wb w1 \<and> on_disk wb (Cdr_inbox, if_name file) = Some g
             \<and> (\<forall>raw\<in>set (body_lines g). row_stored dp raw w1)))"

lemma well_read_earlier: "well_read dp file body w w1 \<Longrightarrow> evolves v w \<Longrightarrow> well_read dp file body v w1"
  unfolding well_read_def using evolves_trans by blast

lemma after_scan_Done:
  assumes "after_scan dp file job sn w = (Done r, w1)" and "settled r"
    and "scan_lines dp body scan_start v = (Done sn, w)"
  shows "well_read dp file body w w1"
proof -
  note counts = scan_counts [OF assms(3)]
  have start: "sn_bad scan_start = 0" "sn_held scan_start = 0" "sn_valid scan_start = 0"
    by (simp_all add: scan_start_def)
  note k = look_Done [OF assms(1) [unfolded after_scan_def Let_def]]
  show ?thesis
  proof (cases "sn_valid sn = 0")
    case True
    then have "sn_bad sn = 0 \<and> sn_held sn = 0"
      using k assms(2) counts start by (auto simp: pass_def split: if_splits option.splits)
    then show ?thesis using True counts start by (simp add: well_read_def)
  next
    case False
    then obtain maps we where l: "load_cdr_import_enrichment (sn_keys sn) w = (Done maps, we)"
      and st: "store_file dp file job sn maps we = (Done r, w1)"
      using k by (auto elim: and_then_Done)
    note r = store_file_Done [OF st assms(2)]
    then have "sn_bad sn = 0" using counts start by linarith
    then show ?thesis
      using counts start r evolves_trans [OF evolvingD [OF evolving_parts(2) l]] by (auto simp: well_read_def)
  qed
qed

lemma stable_file_Done:
  assumes "import_stable_file dp file job w = (Done r, w1)" and "settled r"
  shows "\<exists>wa f. evolves w wa \<and> evolves wa w1 \<and> on_disk wa (Cdr_inbox, if_name file) = Some f
    \<and> good_header f \<and> well_read dp file (body_lines f) wa w1"
proof -
  have none: "inbox_file_error file = None"
    using assms by (auto simp: import_stable_file_def pass_def split: option.splits)
  obtain lines wa where o1: "open_lines (Cdr_inbox, if_name file) w = (Done lines, wa)"
    and k: "and_then await (\<lambda>_. scan_file dp file job lines) wa = (Done r, w1)"
    using assms(1) none by (auto simp: import_stable_file_def elim: and_then_Done)
  obtain f where f: "evolves w wa" "on_disk wa (Cdr_inbox, if_name file) = Some f" "lines = read_lines (df_text f)"
    using o1 by (rule open_lines_Done)
  obtain wb where wb: "evolves wa wb" and s: "scan_file dp file job lines wb = (Done r, w1)"
    using k by (rule await_Done)
  have ok: "lines \<noteq> []" "header_problem lines = None"
    using s assms(2) by (auto simp: scan_file_def pass_def split: option.splits if_splits)
  then obtain sn wc where scan: "scan_lines dp (tl lines) scan_start wb = (Done sn, wc)"
    and a: "after_scan dp file job sn wc = (Done r, w1)"
    using s by (auto simp: scan_file_def elim: and_then_Done)
  have e: "evolves wa wc" "evolves wc w1"
    using evolves_trans [OF wb evolvingD [OF evolving_parts(1) scan]] evolvingD [OF evolving_parts(4) a] by simp_all
  have "good_header f"
    using ok f(3) by (auto simp: header_problem_def good_header_def assert_canonical_cdr_header_def
        split: list.splits if_splits)
  moreover have "well_read dp file (body_lines f) wa w1"
    using well_read_earlier [OF after_scan_Done [OF a assms(2) scan] e(1)] f(3) by (simp add: body_lines_def)
  ultimately show ?thesis using f evolves_trans [OF e] by blast
qed

text \<open>
  The checks before and after see the file with the same time, so both readings were of the file
  that is there at the end.
\<close>

lemma one_file_Done:
  assumes "import_one_file dp file job w = (Done r, w1)" and "settled r" and "not_future w"
  shows "\<exists>f. on_disk w1 (Cdr_inbox, if_name file) = Some f \<and> df_mtime f = if_mtime file \<and> file_stored dp f w1"
proof -
  let ?p = "(Cdr_inbox, if_name file)"
  obtain m wa where m: "file_moved Cdr_inbox file w = (Done m, wa)"
    and k: "(if m then pass (deferred_file file) else and_then (import_stable_file dp file job) (\<lambda>result.
       and_then (file_moved Cdr_inbox file) (\<lambda>moved_since.
         pass (if moved_since then result\<lparr>fr_error := None, fr_leave := True\<rparr> else result)))) wa = (Done r, w1)"
    using assms(1) unfolding import_one_file_def by (rule and_then_Done)
  have "\<not> m" using k assms(2) by (auto simp: pass_def)
  then obtain r1 wb m2 where s: "import_stable_file dp file job wa = (Done r1, wb)"
    and m2: "file_moved Cdr_inbox file wb = (Done m2, w1)"
    and r: "r = (if m2 then r1\<lparr>fr_error := None, fr_leave := True\<rparr> else r1)"
    using k by (auto simp: pass_def elim!: and_then_Done)
  have r1: "\<not> m2" "settled r1" using r assms(2) by (auto simp: settled_def split: if_splits)
  have before: "file_moved Cdr_inbox file w = (Done False, wa)" "file_moved Cdr_inbox file wb = (Done False, w1)"
    using m m2 \<open>\<not> m\<close> r1(1) by simp_all
  obtain f where f: "evolves w wa" "on_disk wa ?p = Some f" "df_mtime f = if_mtime file"
    using not_moved [OF before(1)] by blast
  obtain g where g: "evolves wb w1" "on_disk w1 ?p = Some g" "df_mtime g = if_mtime file"
    using not_moved [OF before(2)] by blast
  have nf: "not_future wa" using f(1) assms(3) by (simp add: evolves_def)
  have same: "on_disk v ?p = Some f" "g = f" if "evolves wa v" "evolves v w1" for v
    using unchanged_between [OF that nf f(2) g(2)] f(3) g(3) by simp_all
  obtain wc h where h: "evolves wa wc" "evolves wc wb" "on_disk wc ?p = Some h" "good_header h"
    "well_read dp file (body_lines h) wc wb"
    using stable_file_Done [OF s r1(2)] by blast
  have hf: "h = f" using same(1) [OF h(1) evolves_trans [OF h(2) g(1)]] h(3) by simp
  have "row_stored dp raw w1" if raw: "raw \<in> set (body_lines f)" for raw
  proof (cases "\<forall>raw\<in>set (body_lines h). blank raw")
    case True
    then show ?thesis using raw hf by (simp add: row_stored_def)
  next
    case False
    then obtain v g' where "evolves wc v" "evolves v wb" "on_disk v ?p = Some g'"
      "\<forall>raw\<in>set (body_lines g'). row_stored dp raw wb"
      using h(5) by (auto simp: well_read_def)
    moreover have "g' = f"
      using same(1) [OF evolves_trans [OF h(1)] evolves_trans [OF _ g(1)]] calculation(1-3) by fastforce
    ultimately show ?thesis using raw row_stored_mono [OF _ evolves_ids [OF g(1)]] by blast
  qed
  then have "file_stored dp f w1"
    using h(4,5) hf by (auto simp: file_stored_def well_read_def list_all_iff)
  moreover have "g = f" using same(2) [OF evolves_refl] f g h evolves_trans by blast
  ultimately show ?thesis using g by blast
qed

end
