(* ===== verification/Import_Run.thy ===== *)
theory Import_Run
  imports Import_Logic
begin

text \<open>
  The whole run of an import: what every step keeps, which files may go, that the run ends, and
  what its job row says in the end.
\<close>

section \<open>What every step keeps\<close>

text \<open>
  What was taken from the inbox of dumps was stored, unless it was written after its last check:
  then its time is not the one it was listed with.
\<close>

definition safe :: "(string \<Rightarrow> int option) \<Rightarrow> import_world \<Rightarrow> bool" where
  "safe dp w \<longleftrightarrow> not_future w
     \<and> (\<forall>(p, listed, f)\<in>set (iw_removed w). fst p = Cdr_inbox \<and> df_mtime f = listed \<longrightarrow> file_stored dp f w)"

lemma safe_evolves: "safe dp w \<Longrightarrow> evolves w w1 \<Longrightarrow> safe dp w1"
  unfolding safe_def by (auto simp: evolves_def intro: file_stored_mono)

lemma file_stored_cong: "stored_ids v = stored_ids w \<Longrightarrow> file_stored dp f v = file_stored dp f w"
  using file_stored_mono [of dp f v w] file_stored_mono [of dp f w v] by auto

lemma remove_settled:
  assumes "evolves w v" and "safe dp w" and "remove_file (Cdr_inbox, if_name file) (if_mtime file) v = (r, w1)"
    and "on_disk w (Cdr_inbox, if_name file) = Some f" "df_mtime f = if_mtime file" "file_stored dp f w"
  shows "safe dp w1"
proof -
  let ?p = "(Cdr_inbox, if_name file)"
  let ?take = "\<lambda>w. case map_of (iw_disk w) ?p of
       Some f \<Rightarrow> (Done (), w\<lparr>iw_disk := AList.delete ?p (iw_disk w),
                           iw_removed := iw_removed w @ [(?p, if_mtime file, f)]\<rparr>)
     | None \<Rightarrow> throw no_such_file w"
  have taken: "safe dp (snd (?take u))" if e: "evolves w u" for u
  proof (cases "map_of (iw_disk u) ?p")
    case None
    then show ?thesis using safe_evolves [OF assms(2) e] by (simp add: throw_def)
  next
    case (Some g)
    let ?u = "u\<lparr>iw_disk := AList.delete ?p (iw_disk u), iw_removed := iw_removed u @ [(?p, if_mtime file, g)]\<rparr>"
    have u: "safe dp u" by (rule safe_evolves [OF assms(2) e])
    have ids: "stored_ids ?u = stored_ids u" by (simp add: stored_ids_def)
    have "g = f" if "df_mtime g = if_mtime file"
      using unchanged_between [OF evolves_refl e _ assms(4), of g] Some that assms(2,5) by (simp add: on_disk_def safe_def)
    moreover have "file_stored dp f u" using file_stored_mono [OF assms(6) evolves_ids [OF e]] .
    moreover have "file_stored dp h ?u = file_stored dp h u" for h
      by (rule file_stored_cong) (rule ids)
    moreover have "not_future ?u"
      using u by (auto simp: safe_def not_future_def on_disk_def delete_conv' split: if_splits)
    ultimately show ?thesis using u Some by (auto simp: safe_def)
  qed
  have "safe dp (snd (io ?take v))"
  proof -
    obtain u where a: "await v = (Done (), u)" by (cases "iw_events v") (auto simp: await_def)
    have "evolves u (u\<lparr>iw_faults := fs\<rparr>)" for fs by (rule evolves_same) (simp_all add: stored_ids_def)
    then have e: "evolves w u" "evolves w (u\<lparr>iw_faults := fs\<rparr>)" for fs
      using evolves_trans [OF assms(1) evolvingD [OF evolving_await a]] evolves_trans by blast+
    show ?thesis
      using a taken [OF e(1)] taken [OF e(2)] safe_evolves [OF assms(2) e(2)]
      by (auto simp: io_def and_then_def split: list.split fault.split)
  qed
  then show ?thesis using assms(3) by (simp add: remove_file_def)
qed

lemma keeps_steady: "evolving f \<Longrightarrow> keeps (safe dp) f"
  unfolding keeps_def evolving_def using safe_evolves by blast

lemma evolving_poison: "evolves w (w\<lparr>iw_poison := jm\<rparr>)"
  by (rule evolves_same) (simp_all add: stored_ids_def)

text \<open>A file and what is done with it after.\<close>

lemma safe_one_file:
  "keeps (safe dp) (and_then (import_one_file dp file job) (settle_file file))"
  unfolding keeps_def
proof (intro allI impI)
  fix w
  assume w: "safe dp w"
  obtain res w1 where f: "import_one_file dp file job w = (res, w1)" by (cases "import_one_file dp file job w")
  have w1: "safe dp w1" using safe_evolves [OF w evolvingD [OF evolving_parts(5) f]] .
  show "safe dp (snd (and_then (import_one_file dp file job) (settle_file file) w))"
  proof (cases res)
    case (Done r)
    have "safe dp (snd (settle_file file r w1))"
    proof (cases "settled r")
      case True
      obtain g where g: "on_disk w1 (Cdr_inbox, if_name file) = Some g" "df_mtime g = if_mtime file" "file_stored dp g w1"
        using one_file_Done [OF f [unfolded Done] True] w unfolding safe_def by blast
      let ?v = "w1\<lparr>iw_poison := clear_poison (Some (if_name file)) (iw_poison w1)\<rparr>"
      obtain q w2 where rm: "remove_file (Cdr_inbox, if_name file) (if_mtime file) ?v = (q, w2)"
        by (cases "remove_file (Cdr_inbox, if_name file) (if_mtime file) ?v")
      have "safe dp w2" by (rule remove_settled [OF evolving_poison w1 rm g])
      then show ?thesis using True rm by (simp add: settle_file_def settled_def and_then_def change_def)
    next
      case False
      then show ?thesis
        using w1 safe_evolves [OF w1 evolving_poison]
        by (auto simp: settle_file_def settled_def change_def pass_def split: option.split)
    qed
    then show ?thesis using f Done by (simp add: and_then_def)
  qed (use f w1 in \<open>simp_all add: and_then_def\<close>)
qed

interpretation safe_run: job_invariant "safe dp" "\<lambda>_. True" dp for dp
proof
  show "keeps (safe dp) await" by (rule keeps_steady [OF evolving_await])
  show "keeps (safe dp) (and_then (import_one_file dp f job) (settle_file f))" for job f
    by (rule safe_one_file)
  show "safe dp (w\<lparr>iw_calls := map g (iw_calls w)\<rparr>)"
    if "safe dp w" "\<And>c. st_fields (g c) = st_fields c" for w g
    using grows.calls [OF evolves_refl that(2)] by (rule safe_evolves [OF that(1)])
  show "safe dp (w\<lparr>iw_calls := table\<rparr>)"
    if "safe dp w" "list_all (\<lambda>_. True) rows" "insert_calls (iw_calls w) rows = (table, n)" for w rows table n
    using grows.new_calls [OF evolves_refl that(2,3)] by (rule safe_evolves [OF that(1)])
qed (rule TrueI | (erule safe_evolves, rule evolves_same; simp add: stored_ids_def))+

lemma safe_process: "keeps (safe dp) (process_cdr_import dp job)"
  by (rule safe_run.keeps_process)

section \<open>Every action ends\<close>

lemma ends_await [ends_intros]: "ends await"
  by (simp add: ends_def await_def split: list.split)

lemma ends_io [ends_intros]: "ends f \<Longrightarrow> ends (io f)"
  unfolding io_def
  by (intro ends_and_then [OF ends_await]) (simp add: ends_def split: list.split fault.split)

lemma ends_state: "(\<And>v. ends (f v)) \<Longrightarrow> ends (\<lambda>w. f w w)"
  by (simp add: ends_def)

lemma ends_disk [ends_intros]: "ends (stat_file p)" "ends (read_names i)" "ends (open_lines p)" "ends (remove_file p t)"
  unfolding stat_file_def read_names_def open_lines_def remove_file_def
  by (intro ends_intros; simp add: ends_def throw_def split: option.split)+

lemma ends_file_moved [ends_intros]: "ends (file_moved i f)"
proof -
  have "ends (and_then (stat_file (i, if_name f)) (\<lambda>st. pass (case st of None \<Rightarrow> True
      | Some g \<Rightarrow> \<not> df_regular g \<or> df_size g \<noteq> if_size f \<or> df_mtime g \<noteq> if_mtime f)))"
    by (intro ends_intros)
  then show ?thesis by (simp add: ends_def file_moved_def)
qed

lemma ends_sort_files [ends_intros]: "ends (sort_files inc now names parts)"
proof (induction names arbitrary: parts)
  case Nil
  then show ?case by (cases parts) (simp add: ends_intros)
next
  case (Cons name names)
  obtain ready young where parts: "parts = (ready, young)" by (cases parts)
  have "ends (\<lambda>w. case st of
        None \<Rightarrow> sort_files inc now names (ready, young) w
      | Some f \<Rightarrow>
          if \<not> df_regular f then sort_files inc now names (ready, young) w
          else if \<not> inc \<and> is_poisoned (iw_target w) name (df_mtime f) (Some (df_size f)) (iw_poison w)
          then sort_files inc now names (ready, young) w
          else let file = \<lparr>if_name = name, if_size = df_size f, if_mtime = df_mtime f\<rparr>
               in if is_young_dump (Cdr_inbox, name) (df_size f) (df_mtime f) now (iw_slots w)
                  then sort_files inc now names (ready, young @ [file]) w
                  else sort_files inc now names (ready @ [file], young) w)" for st
    using Cons.IH by (auto simp: ends_def Let_def split: option.split)
  then show ?case using Cons.IH unfolding parts sort_files.simps by (intro ends_intros) simp_all
qed

lemma ends_partition [ends_intros]: "ends (partition_inbox_files inc)" "ends (list_inbox_files inc)"
  unfolding partition_inbox_files_def list_inbox_files_def by (intro ends_intros)+

lemma ends_scan [ends_intros]: "ends (scan_lines dp ls sn)"
  by (induction ls arbitrary: sn) (simp_all add: ends_intros)

lemma ends_create_many [ends_intros]: "ends (create_many rows)"
  unfolding create_many_def by (intro ends_io) (simp add: ends_def split: prod.split)

lemma ends_fill [ends_intros]: "ends (flush_batch fl)" "ends (fill_lines dp mk ls fl)"
proof -
  show f: "ends (flush_batch fl)" for fl unfolding flush_batch_def by (intro ends_intros)
  show "ends (fill_lines dp mk ls fl)" by (induction ls arbitrary: fl) (simp_all add: ends_intros f Let_def)
qed

lemma ends_load [ends_intros]: "ends (load_batches table out bs)" "ends (load_descriptions m bs)"
proof -
  show "ends (load_batches table out bs)" by (induction bs arbitrary: out) (simp_all add: ends_intros)
  show "ends (load_descriptions m bs)" by (induction bs arbitrary: m) (simp_all add: ends_intros)
qed

lemma ends_caches [ends_intros]:
  "ends prune_stale_pstn_cache" "ends prune_stale_geo_cache" "ends (upsert_pstn_cache k f)"
  "ends (upsert_geo_cache k g)" "ends next_pstn_answer" "ends next_geo_answer"
  unfolding prune_stale_pstn_cache_def prune_stale_geo_cache_def upsert_pstn_cache_def upsert_geo_cache_def
  by (intro ends_intros)+ (simp_all add: ends_def next_pstn_answer_def next_geo_answer_def split: list.split)

lemma ends_looked_up [ends_intros]:
  assumes "ends ask" and "\<And>f. ends (store f)"
  shows "ends (looked_up ask store)"
proof -
  have settle: "ends (case a of Answer f \<Rightarrow> and_then (try_catch (store f)) (\<lambda>r. pass (if r = None then None else Some f))
      | _ \<Rightarrow> pass None)" for a
    using assms by (cases a) (auto intro!: ends_intros)
  show ?thesis
    unfolding looked_up_def Let_def by (intro ends_intros assms(1) settle)
qed

lemma ends_live [ends_intros]: "(\<And>k. ends (one k)) \<Longrightarrow> ends (live_lookups one keys ks r)"
  by (induction ks arbitrary: r) (simp_all add: ends_intros)

lemma ends_enrichment [ends_intros]: "ends (load_cdr_import_enrichment keys)"
  unfolding load_cdr_import_enrichment_def load_descriptions_for_phones_def enrich_pstn_phones_def
    enrich_geo_ips_def load_pstn_cache_by_phones_def load_geo_cache_by_ips_def Let_def
  by (intro ends_intros)

lemma ends_one_file [ends_intros]: "ends (import_one_file dp f job)"
  unfolding import_one_file_def import_stable_file_def scan_file_def after_scan_def store_file_def fill_file_def Let_def
  by (intro ends_intros)

lemma ends_settle_file [ends_intros]: "ends (settle_file f r)"
  unfolding settle_file_def by (intro ends_intros)

text \<open>The backfill: each turn but the last updates a row, and only so many may be updated.\<close>

lemma ends_update_call [ends_intros]: "ends (update_call k f e)" "ends (consume_inbox_dirty i)" "ends abort_backfill"
  by (auto simp: update_call_def abort_backfill_def consume_inbox_dirty_def ends_def
      intro!: ends_io [unfolded ends_def, rule_format] ends_pass [unfolded ends_def, rule_format])

lemma ends_backfill_rows [ends_intros]: "ends (backfill_rows maps now rows n)"
  by (induction rows arbitrary: n) (simp_all add: ends_intros)

lemma backfill_rows_Done:
  "backfill_rows maps now rows n w = (Done (n1, aborted), w1) \<Longrightarrow> n1 \<le> n + length rows \<and> (\<not> aborted \<longrightarrow> n1 = n + length rows)"
proof (induction rows arbitrary: n w)
  case (Cons r rows)
  then show ?case by (fastforce simp: pass_def elim!: and_then_Done split: if_splits)
qed (simp add: pass_def)

lemma page_length:
  assumes "io (look (\<lambda>w. unenriched_page n (iw_calls w))) s = (Done rows, s1)"
  shows "length rows \<le> n"
proof -
  obtain v where "look (\<lambda>w. unenriched_page n (iw_calls w)) v = (Done rows, s1)" using assms by (rule io_Done)
  then show ?thesis by (auto simp: look_def unenriched_page_def)
qed

lemma backfill_turns_end: "k \<le> max_rows \<Longrightarrow> max_rows < n + k \<Longrightarrow> ends (backfill_turns n max_rows page k st)"
proof (induction n arbitrary: k st)
  case (Suc n)
  let ?wanted = "min page (max_rows - k)"
  have after: "ends (case r of (done1, aborted) \<Rightarrow>
      if aborted \<or> length rows < ?wanted then pass (done1, aborted, add_stats st (em_stats maps))
      else backfill_turns n max_rows page done1 (add_stats st (em_stats maps)))"
    if rows: "length rows \<le> ?wanted" "rows \<noteq> []" and r: "backfill_rows maps now rows k s = (Done r, s1)"
    for r rows maps now s s1
  proof (cases r)
    case (Pair done1 aborted)
    have d: "\<not> aborted \<longrightarrow> done1 = k + length rows" using backfill_rows_Done r Pair by blast
    have "ends (backfill_turns n max_rows page done1 st1)" if "\<not> aborted" for st1
    proof (rule Suc.IH)
      show "done1 \<le> max_rows" using d that rows(1) Suc.prems(1) by (simp add: le_diff_conv2 add.commute)
      show "max_rows < n + done1" using d that rows(2) Suc.prems(2) by (cases rows) simp_all
    qed
    then show ?thesis using Pair by (auto intro: ends_intros)
  qed
  have turn: "ends (if rows = [] then pass (k, False, st)
      else and_then (load_cdr_import_enrichment
             (foldl (\<lambda>ks r. add_cdr_enrich_keys (stored_source r) ks) create_cdr_enrich_key_sets rows)) (\<lambda>maps.
           and_then (look iw_now) (\<lambda>now.
           and_then (backfill_rows maps now rows k) (\<lambda>(done1, aborted).
             if aborted \<or> length rows < ?wanted then pass (done1, aborted, add_stats st (em_stats maps))
             else backfill_turns n max_rows page done1 (add_stats st (em_stats maps))))))"
    if "io (look (\<lambda>w. unenriched_page ?wanted (iw_calls w))) s = (Done rows, s1)" for rows s s1
    by (intro ends_cases(1) ends_and_then ends_and_then_val [OF ends_backfill_rows] after ends_intros page_length [OF that])
      simp_all
  show ?case unfolding backfill_turns.simps Let_def
    by (intro ends_cases(1) ends_and_then ends_and_then_val [OF ends_io] turn ends_intros)
qed simp

lemma ends_backfill [ends_intros]: "ends (backfill_unenriched_cdr_records max_rows page)"
  unfolding backfill_unenriched_cdr_records_def
  by (intro ends_and_then ends_cases(2) ends_io ends_pass backfill_turns_end) simp_all

lemma ends_outside [ends_intros]: "ends f \<Longrightarrow> ends (outside f)"
  by (auto simp: ends_def outside_def split: prod.split) (metis fst_conv)

lemma ends_tally [ends_intros]: "ends (tally f)"
  by (simp add: ends_def tally_def)

lemma ends_import_files [ends_intros]: "ends (import_files dp job files)"
  by (induction files) (simp_all add: ends_intros)

lemma ends_import_passes [ends_intros]: "ends (import_passes n dp job)"
proof (induction n)
  case (Suc n)
  have "ends (import_pass dp job)" unfolding import_pass_def by (intro ends_intros)
  then show ?case unfolding import_passes.simps by (intro ends_intros Suc.IH)
qed (simp add: ends_intros)

lemma ends_drain [ends_intros]: "ends (drain_inbox dp job)"
  unfolding drain_inbox_def sync_cdr_at_from_cdr_date_def request_cdr_import_drain_def by (intro ends_intros)

lemma ends_job_end [ends_intros]: "ends (failed_job job e t)" "ends (finished_job job t)" "ends (end_if_running job)"
  unfolding failed_job_def finished_job_def end_run_def remember_pass_def audit_entry_def end_if_running_def Let_def
  by (intro ends_intros)+

lemma ends_run_passes [ends_intros]: "ends (run_passes dp job)"
proof -
  have "fst (run_passes dp job w) \<noteq> Stuck" for w
  proof (cases "drain_inbox dp job (no_totals, w)")
    case (fields r t w1)
    have "r \<noteq> Stuck" using ends_drain [of dp job] fields unfolding ends_def by (metis fst_conv)
    then show ?thesis using fields ends_job_end by (cases r) (simp_all add: run_passes_def ends_def)
  qed
  then show ?thesis by (simp add: ends_def)
qed

lemma ends_process: "ends (process_cdr_import dp job)"
  unfolding process_cdr_import_def audit_entry_def by (intro ends_intros)

end
