(* ===== verification/Import_Held.thy ===== *)
theory Import_Held
  imports Import_Run
begin

text \<open>
  Two more invariants of the import: a month that is the target of a purge all the time gets no row,
  and the row of the job stays there until the job ends it.
\<close>

section \<open>The month that is deleted\<close>

definition month_rows :: "string \<Rightarrow> import_world \<Rightarrow> (string \<times> text16) list set" where
  "month_rows m w = st_fields ` {c \<in> set (iw_calls w). call_month c = Some m}"

text \<open>Other code does not move the target.\<close>

definition leaves_target :: "string \<Rightarrow> interference \<Rightarrow> bool" where
  "leaves_target m e = (case e of Purge_aims x \<Rightarrow> x = Some m | _ \<Rightarrow> True)"

definition target_stays :: "string \<Rightarrow> import_world \<Rightarrow> bool" where
  "target_stays m w \<longleftrightarrow> iw_target w = Some m \<and> list_all (list_all (leaves_target m)) (iw_events w)"

definition barred :: "string \<Rightarrow> (string \<times> text16) list set \<Rightarrow> import_world \<Rightarrow> bool" where
  "barred m rows w \<longleftrightarrow> target_stays m w \<and> month_rows m w = rows"

lemma interfere_calls [simp]: "iw_calls (interfere e w) = iw_calls w" "iw_runs (interfere e w) = iw_runs w"
  by (cases e; simp add: put_file_def Let_def split: option.split)+

lemma interfere_target: "leaves_target m e \<Longrightarrow> iw_target w = Some m \<Longrightarrow> iw_target (interfere e w) = Some m"
  by (cases e) (simp_all add: leaves_target_def put_file_def Let_def split: option.split)

lemma interfere_events [simp]: "iw_events (interfere e w) = iw_events w"
  by (cases e) (simp_all add: put_file_def Let_def split: option.split)

lemma fold_interfere:
  "iw_calls (fold interfere es w) = iw_calls w" "iw_runs (fold interfere es w) = iw_runs w"
  "iw_events (fold interfere es w) = iw_events w"
  by (induction es arbitrary: w) simp_all

lemma fold_target: "list_all (leaves_target m) es \<Longrightarrow> iw_target w = Some m \<Longrightarrow> iw_target (fold interfere es w) = Some m"
  by (induction es arbitrary: w) (simp_all add: interfere_target)

lemma insert_calls_new:
  "insert_calls table rows = (table1, n) \<Longrightarrow> set table \<subseteq> set table1 \<and> set table1 \<subseteq> set table \<union> set rows"
proof (induction rows arbitrary: table n)
  case (Cons c cs)
  then show ?case by (fastforce split: if_splits prod.splits)
qed simp

lemma barred_frame:
  "barred m rows w \<Longrightarrow> iw_target v = iw_target w \<Longrightarrow> iw_events v = iw_events w \<Longrightarrow> iw_calls v = iw_calls w \<Longrightarrow>
     barred m rows v"
  by (simp add: barred_def target_stays_def month_rows_def)

interpretation barred_file: import_invariant "barred m rows" "\<lambda>c. call_month c \<noteq> Some m" for m rows
proof
  show "keeps (barred m rows) await"
    unfolding keeps_def
  proof (intro allI impI)
    fix w
    assume w: "barred m rows w"
    show "barred m rows (snd (await w))"
    proof (cases "iw_events w")
      case Nil
      then show ?thesis using w by (simp add: await_def)
    next
      case (Cons es rest)
      have "iw_target (fold interfere es (w\<lparr>iw_events := rest\<rparr>)) = Some m"
        by (rule fold_target) (use w Cons in \<open>simp_all add: barred_def target_stays_def\<close>)
      then show ?thesis
        using w Cons by (simp add: await_def barred_def target_stays_def month_rows_def fold_interfere)
    qed
  qed
  show "barred m rows (w\<lparr>iw_calls := map g (iw_calls w)\<rparr>)"
    if "barred m rows w" "\<And>c. st_fields (g c) = st_fields c" for w g
  proof -
    have "call_month (g c) = call_month c" for c using that(2) by (simp add: call_month_def)
    then have "{c \<in> g ` set (iw_calls w). call_month c = Some m} = g ` {c \<in> set (iw_calls w). call_month c = Some m}"
      by auto
    then have "st_fields ` {c \<in> g ` set (iw_calls w). call_month c = Some m} = month_rows m w"
      using that(2) by (simp add: month_rows_def image_image)
    then show ?thesis using that(1) by (simp add: barred_def target_stays_def month_rows_def)
  qed
  show "barred m rows (w\<lparr>iw_calls := table\<rparr>)"
    if "barred m rows w" "list_all (\<lambda>c. call_month c \<noteq> Some m) new" "insert_calls (iw_calls w) new = (table, n)"
    for w new table n
  proof -
    have "{c \<in> set table. call_month c = Some m} = {c \<in> set (iw_calls w). call_month c = Some m}"
      using insert_calls_new [OF that(3)] that(2) by (auto simp: list_all_iff)
    then show ?thesis using that(1) by (simp add: barred_def target_stays_def month_rows_def)
  qed
  show "call_month c \<noteq> Some m"
    if "barred m rows w" "typed_call c" "\<not> month_is_held (remember_purge_target months (iw_target w)) (call_month c)" for w months c
    using that by (auto simp: barred_def target_stays_def month_is_held_def remember_purge_target_def)
qed (erule barred_frame; simp)+

interpretation barred: job_invariant "barred m rows" "\<lambda>c. call_month c \<noteq> Some m" dp for m rows dp
proof
  show "keeps (barred m rows) (and_then (import_one_file dp f job) (settle_file f))" for f job
    by (intro keeps_and_then barred_file.keeps_one_file barred_file.keeps_settle) (erule barred_frame; simp)+
qed (erule barred_frame; simp)+

section \<open>The shape of the rows\<close>

definition typed_rows :: "import_world \<Rightarrow> bool" where
  "typed_rows w \<longleftrightarrow> list_all typed_call (iw_calls w)"

interpretation typed_file: import_invariant typed_rows typed_call
proof
  show "keeps typed_rows await"
    by (simp add: keeps_def await_def typed_rows_def fold_interfere split: list.split)
  show "typed_rows (w\<lparr>iw_calls := map g (iw_calls w)\<rparr>)"
    if "typed_rows w" "\<And>c. st_fields (g c) = st_fields c" for w g
    using that by (simp add: typed_rows_def typed_call_def call_id_def list_all_iff)
  show "typed_rows (w\<lparr>iw_calls := table\<rparr>)"
    if "typed_rows w" "list_all typed_call new" "insert_calls (iw_calls w) new = (table, n)" for w new table n
    using insert_calls_new [OF that(3)] that(1,2) by (auto simp: typed_rows_def list_all_iff)
qed (simp_all add: typed_rows_def)

interpretation typed: job_invariant typed_rows typed_call dp for dp
proof
  show "keeps typed_rows (and_then (import_one_file dp f job) (settle_file f))" for f job
    by (intro keeps_and_then typed_file.keeps_one_file typed_file.keeps_settle) (simp_all add: typed_rows_def)
qed (simp_all add: typed_rows_def)

section \<open>The row of the job\<close>

definition run_listed :: "string \<Rightarrow> import_world \<Rightarrow> bool" where
  "run_listed job w \<longleftrightarrow> job \<in> run_id ` set (iw_runs w)"

interpretation listed_file: import_invariant "run_listed job" "\<lambda>_. True" for job
proof
  show "keeps (run_listed job) await"
    by (simp add: keeps_def await_def run_listed_def fold_interfere split: list.split)
qed (simp_all add: run_listed_def)

interpretation listed: run_invariant "run_listed job" "\<lambda>_. True" dp for job dp
proof
  show "keeps (run_listed job) (and_then (import_one_file dp f j) (settle_file f))" for f j
    by (intro keeps_and_then listed_file.keeps_one_file listed_file.keeps_settle) (simp_all add: run_listed_def)
qed (simp add: run_listed_def)

text \<open>What the row says in the end.\<close>

definition run_says :: "string \<Rightarrow> import_job_result \<Rightarrow> import_world \<Rightarrow> bool" where
  "run_says job res w \<longleftrightarrow>
     list_all (\<lambda>r. run_id r = job \<longrightarrow>
         run_status r = (if ij_failed res then Job_failed else Job_success) \<and> run_error r = ij_error res
         \<and> ir_phones r = ij_inserted res \<and> ir_bad r = ij_bad res \<and> ir_changes r = ij_skipped res)
       (iw_runs w)
     \<and> run_listed job w"

lemma runs_io:
  assumes "io f w = (Done x, w1)" and "\<And>v y v1. f v = (Done y, v1) \<Longrightarrow> iw_runs v1 = g (iw_runs v)"
  shows "iw_runs w1 = g (iw_runs w)"
proof -
  obtain u where a: "await w = (Done (), u)" by (cases "iw_events w") (auto simp: await_def)
  then have "iw_runs u = iw_runs w" by (auto simp: await_def fold_interfere split: list.splits)
  moreover obtain v where "f v = (Done x, w1)" "iw_runs v = iw_runs u"
    using assms(1) a by (auto simp: io_def and_then_def split: list.splits fault.splits)
  ultimately show ?thesis using assms(2) by metis
qed

lemma runs_audit: "audit_entry w = (Done x, w1) \<Longrightarrow> iw_runs w1 = iw_runs w"
  unfolding audit_entry_def by (rule runs_io [where g = "\<lambda>rs. rs"]) (auto simp: pass_def)

lemma runs_remember: "remember_pass side at a b c w = (Done x, w1) \<Longrightarrow> iw_runs w1 = iw_runs w"
  by (auto simp: remember_pass_def Let_def pass_def change_def split: if_splits)

lemma runs_end:
  "end_run job failed at err a b c w = (Done x, w1) \<Longrightarrow>
     iw_runs w1 = map (\<lambda>r. if run_id r = job
        then r\<lparr>run_status := (if failed then Job_failed else Job_success), run_finished := Some at,
               run_error := err, ir_phones := a, ir_bad := b, ir_changes := c\<rparr> else r) (iw_runs w)"
  unfolding end_run_def by (rule runs_io) (auto simp: change_def)

lemma run_says_end:
  assumes "iw_runs w1 = map (\<lambda>r. if run_id r = job
        then r\<lparr>run_status := (if ij_failed res then Job_failed else Job_success), run_finished := Some at,
               run_error := ij_error res, ir_phones := ij_inserted res, ir_bad := ij_bad res,
               ir_changes := ij_skipped res\<rparr> else r) (iw_runs w)"
    and "run_listed job w"
  shows "run_says job res w1"
proof -
  have "map run_id (iw_runs w1) = map run_id (iw_runs w)" by (simp add: assms(1))
  then have "run_listed job w1" using assms(2) unfolding run_listed_def by (metis set_map)
  then show ?thesis unfolding run_says_def assms(1) list.pred_map by (simp add: list_all_iff)
qed

lemma finished_says:
  assumes "finished_job job t w = (Done res, w1)" and "run_listed job w"
  shows "run_says job res w1"
proof -
  let ?errors = "List.map_filter fr_error (it_results t)"
  let ?message = "if ?errors \<noteq> [] then Some (join_with error_separator ?errors) else None"
  obtain a w2 where a: "audit_entry w = (Done a, w2)"
    and k2: "and_then (end_run job (?errors \<noteq> []) (iw_now w) ?message (it_inserted t) (it_bad t) (it_skipped t)) (\<lambda>_.
         and_then audit_entry (\<lambda>_.
         and_then (remember_pass Side_rtu (iw_now w) (int (length (it_results t))) (it_inserted t) (it_skipped t)) (\<lambda>_.
         and_then (if \<not> ?errors \<noteq> [] \<and> it_inserted t > 0
                   then change (\<lambda>w. w\<lparr>iw_drains := iw_drains w @ [Voipmonitor_match]\<rparr>) else pass ()) (\<lambda>_.
         pass \<lparr>ij_failed = ?errors \<noteq> [], ij_inserted = it_inserted t, ij_bad = it_bad t, ij_skipped = it_skipped t,
               ij_error = ?message, ij_requeue = requeue_after t\<rparr>)))) w2 = (Done res, w1)"
    using look_Done [OF assms(1) [unfolded finished_job_def Let_def]] by (rule and_then_Done)
  obtain b w3 where b: "end_run job (?errors \<noteq> []) (iw_now w) ?message (it_inserted t) (it_bad t) (it_skipped t) w2 = (Done b, w3)"
    and k3: "and_then audit_entry (\<lambda>_.
         and_then (remember_pass Side_rtu (iw_now w) (int (length (it_results t))) (it_inserted t) (it_skipped t)) (\<lambda>_.
         and_then (if \<not> ?errors \<noteq> [] \<and> it_inserted t > 0
                   then change (\<lambda>w. w\<lparr>iw_drains := iw_drains w @ [Voipmonitor_match]\<rparr>) else pass ()) (\<lambda>_.
         pass \<lparr>ij_failed = ?errors \<noteq> [], ij_inserted = it_inserted t, ij_bad = it_bad t, ij_skipped = it_skipped t,
               ij_error = ?message, ij_requeue = requeue_after t\<rparr>))) w3 = (Done res, w1)"
    using k2 by (rule and_then_Done)
  obtain c w4 d w5 where c: "audit_entry w3 = (Done c, w4)"
    and d: "remember_pass Side_rtu (iw_now w) (int (length (it_results t))) (it_inserted t) (it_skipped t) w4 = (Done d, w5)"
    and k5: "iw_runs w1 = iw_runs w5" "res = \<lparr>ij_failed = ?errors \<noteq> [], ij_inserted = it_inserted t, ij_bad = it_bad t,
       ij_skipped = it_skipped t, ij_error = ?message, ij_requeue = requeue_after t\<rparr>"
    using k3 by (auto simp: pass_def change_def split: if_splits elim!: and_then_Done)
  have "iw_runs w1 = iw_runs w3" "iw_runs w2 = iw_runs w" using runs_audit [OF c] runs_remember [OF d] k5(1) runs_audit [OF a] by simp_all
  then show ?thesis using runs_end [OF b] k5(2)
    by (intro run_says_end [where at = "iw_now w", OF _ assms(2)]) simp
qed

lemma failed_says:
  assumes "failed_job job e t w = (Done res, w1)" and "run_listed job w"
  shows "run_says job res w1"
proof -
  obtain b w2 d where b: "end_run job True (iw_now w) (Some (de_message e)) (it_inserted t) (it_bad t) (it_skipped t) w = (Done b, w2)"
    and d: "remember_pass Side_rtu (iw_now w) (int (length (it_results t))) (it_inserted t) (it_skipped t) w2 = (Done d, w1)"
    and res: "res = \<lparr>ij_failed = True, ij_inserted = it_inserted t, ij_bad = it_bad t, ij_skipped = it_skipped t,
       ij_error = Some (de_message e), ij_requeue = requeue_after t\<rparr>"
    using look_Done [OF assms(1) [unfolded failed_job_def]] by (auto simp: pass_def elim!: and_then_Done)
  show ?thesis using runs_end [OF b] runs_remember [OF d] res
    by (intro run_says_end [where at = "iw_now w", OF _ assms(2)]) simp
qed

lemma run_passes_says:
  assumes "run_passes dp job w = (Done res, w1)" and "run_listed job w"
  shows "run_says job res w1"
proof (cases "drain_inbox dp job (no_totals, w)")
  case (fields r t v)
  have "run_listed job v" by (rule listed.drain_Done [OF fields assms(2)])
  then show ?thesis using assms(1) fields finished_says failed_says by (cases r) (auto simp: run_passes_def)
qed

lemma end_if_running_says:
  assumes "end_if_running job w = (Done x, w1)" and "run_says job res w"
  shows "run_says job res w1"
proof -
  have settled: "run_says job res v" if "run_says job res u" "iw_runs v = fail_job_run_if_still_running now job msg (iw_runs u)"
    for u v now msg
    using that by (force simp: run_says_def run_listed_def list_all_iff fail_job_run_if_still_running_def split: if_splits)
  obtain u where a: "await w = (Done (), u)" by (cases "iw_events w") (auto simp: await_def)
  then have u: "run_says job res u" using assms(2)
    by (auto simp: await_def fold_interfere run_says_def run_listed_def split: list.splits)
  have same: "run_says job res (u\<lparr>iw_faults := fs\<rparr>)" for fs using u by (simp add: run_says_def run_listed_def)
  show ?thesis
    using assms(1) a settled [OF u] settled [OF same] u same
    by (auto simp: end_if_running_def try_catch_def io_def and_then_def change_def split: list.splits fault.splits)
qed

lemma process_says:
  assumes "process_cdr_import dp job w = (Done res, w1)"
  shows "run_says job res w1"
proof -
  let ?row = "\<lparr>run_id = job, run_action = Cdr_import, run_status = Job_running, run_started = iw_now w,
          run_finished = None, run_error = None, ir_phones = 0, ir_bad = 0, ir_changes = 0\<rparr>"
  obtain x u where x: "io (change (\<lambda>w. w\<lparr>iw_runs := iw_runs w @ [?row]\<rparr>)) w = (Done x, u)"
    and k: "and_finally (and_then audit_entry (\<lambda>_. run_passes dp job)) (end_if_running job) u = (Done res, w1)"
    using look_Done [OF assms [unfolded process_cdr_import_def]] by (rule and_then_Done)
  have "iw_runs u = iw_runs w @ [?row]" using x by (rule runs_io) (auto simp: change_def)
  then have u: "run_listed job u" by (simp add: run_listed_def)
  obtain y v where body: "and_then audit_entry (\<lambda>_. run_passes dp job) u = (Done y, v)"
    and fin: "and_then (end_if_running job) (\<lambda>_. pass y) v = (Done res, w1)"
    using k by (auto simp: and_finally_def and_then_def split: prod.splits outcome.splits)
  obtain a v1 where a: "audit_entry u = (Done a, v1)" "run_passes dp job v1 = (Done y, v)" using body by (rule and_then_Done)
  have "run_listed job v1" using runs_audit [OF a(1)] u by (simp add: run_listed_def)
  then have "run_says job y v" by (rule run_passes_says [OF a(2)])
  then show ?thesis using fin end_if_running_says by (auto simp: pass_def elim!: and_then_Done)
qed

end
