(* ===== verification/Import_Calm.thy ===== *)
theory Import_Calm
  imports Import_Run
begin

text \<open>
  An import that nothing disturbs: no operation fails and no other code runs in between. Then every
  dump of the inbox that is well formed is stored and taken away, and the job succeeds.
\<close>

section \<open>Actions without failure\<close>

definition undisturbed :: "import_world \<Rightarrow> bool" where
  "undisturbed w \<longleftrightarrow> iw_events w = [] \<and> iw_faults w = []"

lemma await_calm [simp]: "undisturbed w \<Longrightarrow> await w = (Done (), w)"
  by (simp add: await_def undisturbed_def)

lemma io_calm [simp]: "undisturbed w \<Longrightarrow> io f w = f w"
  by (simp add: io_def and_then_def) (simp add: undisturbed_def)

definition undisturbed_step :: "import_world \<Rightarrow> import_world \<Rightarrow> bool" where
  "undisturbed_step w w1 \<longleftrightarrow>
     undisturbed w1 \<and> iw_now w1 = iw_now w \<and> iw_disk w1 = iw_disk w \<and> iw_slots w1 = iw_slots w
     \<and> iw_target w1 = iw_target w \<and> iw_poison w1 = iw_poison w \<and> iw_removed w1 = iw_removed w
     \<and> stored_ids w \<subseteq> stored_ids w1"

lemma calm_step_refl [simp]: "undisturbed_step w w = undisturbed w"
  by (simp add: undisturbed_step_def)

lemma calm_step_trans: "undisturbed_step a b \<Longrightarrow> undisturbed_step b c \<Longrightarrow> undisturbed_step a c"
  by (auto simp: undisturbed_step_def)

text \<open>An action that does not fail, and leaves the files as they were.\<close>

definition smooth :: "'a step \<Rightarrow> bool" where
  "smooth f \<longleftrightarrow> (\<forall>w. undisturbed w \<longrightarrow> fst (f w) = Stuck \<or> (\<exists>x w1. f w = (Done x, w1) \<and> undisturbed_step w w1))"

named_theorems smooth_intros \<open>actions that do not fail\<close>

lemma smoothI: "(\<And>w. undisturbed w \<Longrightarrow> \<exists>x w1. f w = (Done x, w1) \<and> undisturbed_step w w1) \<Longrightarrow> smooth f"
  by (simp add: smooth_def)

lemma smoothE:
  assumes "smooth f" and "ends f" and "undisturbed w"
  obtains x w1 where "f w = (Done x, w1)" and "undisturbed_step w w1"
  using assms unfolding smooth_def ends_def by blast

lemma smooth_pass [smooth_intros]: "smooth (pass x)" "smooth (look g)" "smooth await"
  by (simp_all add: smooth_def pass_def look_def)

lemma smooth_change: "(\<And>w. undisturbed w \<Longrightarrow> undisturbed_step w (g w)) \<Longrightarrow> smooth (change g)"
  by (simp add: smooth_def change_def)

lemma smooth_and_then [smooth_intros]:
  assumes "smooth f" and "\<And>x. smooth (k x)"
  shows "smooth (and_then f k)"
  unfolding smooth_def
proof (intro allI impI)
  fix w
  assume w: "undisturbed w"
  then consider "fst (f w) = Stuck" | x w1 where "f w = (Done x, w1)" "undisturbed_step w w1"
    using assms(1) unfolding smooth_def by blast
  then show "fst (and_then f k w) = Stuck \<or> (\<exists>x w1. and_then f k w = (Done x, w1) \<and> undisturbed_step w w1)"
  proof cases
    case 1
    then show ?thesis by (cases "f w") (simp add: and_then_def)
  next
    case (2 x w1)
    then have "undisturbed w1" by (simp add: undisturbed_step_def)
    then have "fst (k x w1) = Stuck \<or> (\<exists>y w2. k x w1 = (Done y, w2) \<and> undisturbed_step w1 w2)"
      using assms(2) unfolding smooth_def by blast
    then show ?thesis using 2 calm_step_trans by (auto simp: and_then_def)
  qed
qed

lemma smooth_try_catch [smooth_intros]: "smooth f \<Longrightarrow> smooth (try_catch f)"
  unfolding smooth_def try_catch_def by (auto split: prod.split outcome.split)

lemma smooth_io [smooth_intros]: "smooth f \<Longrightarrow> smooth (io f)"
  by (simp add: smooth_def)

lemma smooth_cases [smooth_intros]:
  "(c \<Longrightarrow> smooth f) \<Longrightarrow> (\<not> c \<Longrightarrow> smooth g) \<Longrightarrow> smooth (if c then f else g)"
  "(\<And>x y. smooth (h x y)) \<Longrightarrow> smooth (case p of (x, y) \<Rightarrow> h x y)"
  "smooth f \<Longrightarrow> (\<And>x. smooth (j x)) \<Longrightarrow> smooth (case o1 of None \<Rightarrow> f | Some x \<Rightarrow> j x)"
  by (simp_all split: prod.split option.split)

section \<open>The lookups and the backfill return\<close>

lemma smooth_load [smooth_intros]: "smooth (load_batches table out bs)" "smooth (load_descriptions m bs)"
proof -
  show "smooth (load_batches table out bs)" by (induction bs arbitrary: out) (simp_all add: smooth_intros)
  show "smooth (load_descriptions m bs)" by (induction bs arbitrary: m) (simp_all add: smooth_intros)
qed

lemma smooth_caches [smooth_intros]:
  "smooth prune_stale_pstn_cache" "smooth prune_stale_geo_cache" "smooth (upsert_pstn_cache k f)"
  "smooth (upsert_geo_cache k g)"
  unfolding prune_stale_pstn_cache_def prune_stale_geo_cache_def upsert_pstn_cache_def upsert_geo_cache_def
  by (intro smooth_io smooth_change; simp add: undisturbed_step_def undisturbed_def stored_ids_def)+

lemma smooth_answers [smooth_intros]: "smooth next_pstn_answer" "smooth next_geo_answer"
  by (auto simp: smooth_def next_pstn_answer_def next_geo_answer_def undisturbed_step_def undisturbed_def stored_ids_def
      split: list.split)

lemma smooth_looked_up [smooth_intros]:
  assumes "smooth ask" and "\<And>f. smooth (store f)"
  shows "smooth (looked_up ask store)"
proof -
  have settle: "smooth (case a of Answer f \<Rightarrow> and_then (try_catch (store f)) (\<lambda>r. pass (if r = None then None else Some f))
      | _ \<Rightarrow> pass None)" for a
    using assms by (cases a) (auto intro!: smooth_intros)
  show ?thesis
    unfolding looked_up_def Let_def by (intro smooth_intros assms(1) settle)
qed

lemma smooth_live [smooth_intros]: "(\<And>k. smooth (one k)) \<Longrightarrow> smooth (live_lookups one keys ks r)"
  by (induction ks arbitrary: r) (simp_all add: smooth_intros)

lemma smooth_enrichment [smooth_intros]: "smooth (load_cdr_import_enrichment keys)"
  unfolding load_cdr_import_enrichment_def load_descriptions_for_phones_def enrich_pstn_phones_def
    enrich_geo_ips_def load_pstn_cache_by_phones_def load_geo_cache_by_ips_def Let_def
  by (intro smooth_intros)

lemma calm_step_calls: "undisturbed w \<Longrightarrow> call_id ` set cs = stored_ids w \<Longrightarrow> undisturbed_step w (w\<lparr>iw_calls := cs\<rparr>)"
  by (simp add: undisturbed_step_def undisturbed_def stored_ids_def)

lemma smooth_update_call [smooth_intros]: "smooth (update_call k f e)" "smooth abort_backfill"
  "smooth (consume_inbox_dirty i)"
proof -
  have "call_id (if call_id c = k then c\<lparr>st_enrich := f, st_enriched_at := e\<rparr> else c) = call_id c" for c
    by (simp add: call_id_def)
  from ids_map [OF this] show "smooth (update_call k f e)"
    unfolding update_call_def
    by (intro smooth_io smooth_change calm_step_calls) (auto simp: stored_ids_def)
  show "smooth abort_backfill" "smooth (consume_inbox_dirty i)"
    by (simp_all add: abort_backfill_def consume_inbox_dirty_def smooth_def undisturbed_step_def undisturbed_def stored_ids_def)
qed

lemma smooth_backfill_rows [smooth_intros]: "smooth (backfill_rows maps now rows n)"
  by (induction rows arbitrary: n) (simp_all add: smooth_intros)

lemma smooth_create_many [smooth_intros]: "smooth (create_many rows)"
proof (rule smoothI)
  fix w
  assume w: "undisturbed w"
  obtain t n where t: "insert_calls (iw_calls w) rows = (t, n)" by (cases "insert_calls (iw_calls w) rows")
  then show "\<exists>x w1. create_many rows w = (Done x, w1) \<and> undisturbed_step w w1"
    using w insert_calls_ids [OF t] by (auto simp: create_many_def undisturbed_step_def undisturbed_def stored_ids_def)
qed

lemma smooth_fill [smooth_intros]: "smooth (flush_batch fl)" "smooth (fill_lines dp mk ls fl)"
proof -
  show f: "smooth (flush_batch fl)" for fl unfolding flush_batch_def by (intro smooth_intros)
  show "smooth (fill_lines dp mk ls fl)"
    by (induction ls arbitrary: fl) (simp_all add: smooth_intros f Let_def)
qed

lemma smooth_backfill_turns [smooth_intros]: "smooth (backfill_turns n m page k st)"
proof (induction n arbitrary: k st)
  case (Suc n)
  show ?case unfolding backfill_turns.simps Let_def by (intro smooth_intros Suc.IH)
qed (simp add: smooth_def)

lemma smooth_backfill [smooth_intros]: "smooth (backfill_unenriched_cdr_records m page)"
  unfolding backfill_unenriched_cdr_records_def by (intro smooth_intros)

section \<open>A file that is well formed\<close>

definition good_dump :: "(string \<Rightarrow> int option) \<Rightarrow> disk_file \<Rightarrow> bool" where
  "good_dump dp f \<longleftrightarrow>
     df_regular f \<and> 0 < df_size f \<and> df_size f \<le> cdr_max_file_bytes
     \<and> good_header f \<and> list_all (well_formed dp) (body_lines f)"

lemma undisturbed_scan:
  "undisturbed w \<Longrightarrow> scan_lines dp ls sn w = (Done (foldl (\<lambda>sn raw. scan_line dp (iw_target w) raw sn) sn ls), w)"
  by (induction ls arbitrary: sn) (simp_all add: and_then_def look_def pass_def)

lemma scan_good:
  "list_all (well_formed dp) ls \<Longrightarrow> sn_months sn = {} \<Longrightarrow>
     sn_bad (foldl (\<lambda>sn raw. scan_line dp None raw sn) sn ls) = sn_bad sn
     \<and> sn_held (foldl (\<lambda>sn raw. scan_line dp None raw sn) sn ls) = sn_held sn
     \<and> sn_months (foldl (\<lambda>sn raw. scan_line dp None raw sn) sn ls) = {}"
proof (induction ls arbitrary: sn)
  case (Cons raw ls)
  have "sn_bad (scan_line dp None raw sn) = sn_bad sn \<and> sn_held (scan_line dp None raw sn) = sn_held sn
      \<and> sn_months (scan_line dp None raw sn) = {}"
    using Cons.prems
    by (auto simp: scan_line_def well_formed_def blank_def Let_def month_is_held_def remember_purge_target_def
        split: classified_cdr_line.splits option.splits)
  then show ?case using Cons.IH [of "scan_line dp None raw sn"] Cons.prems(1) by simp
qed simp

lemma undisturbed_fill:
  "fill_lines dp mk ls fl w = (Done fl1, w1) \<Longrightarrow> undisturbed w \<Longrightarrow> iw_target w = None \<Longrightarrow> fl_months fl = {} \<Longrightarrow>
     fl_held fl1 = fl_held fl \<and> fl_months fl1 = {}"
proof (induction ls arbitrary: fl w)
  case Nil
  then show ?case by (auto simp: flush_batch_def pass_def split: if_splits elim!: and_then_Done)
next
  case (Cons raw ls)
  let ?fl = "fill_line dp mk None raw fl"
  have line: "fl_held ?fl = fl_held fl" "fl_months ?fl = {}"
    using Cons.prems(4)
    by (auto simp: fill_line_def Let_def month_is_held_def remember_purge_target_def
        split: classified_cdr_line.splits option.splits)
  obtain fl2 w2 where
    step: "(if length (fl_batch ?fl) \<ge> cdr_insert_batch_size then flush_batch ?fl else pass ?fl) w = (Done fl2, w2)"
    and rest: "fill_lines dp mk ls fl2 w2 = (Done fl1, w1)"
    using Cons.prems(1-3) by (auto simp: Let_def look_def elim!: and_then_Done)
  have fl2: "fl_held fl2 = fl_held ?fl" "fl_months fl2 = fl_months ?fl"
    using step by (auto simp: flush_batch_def pass_def split: if_splits elim!: and_then_Done)
  have "smooth (if length (fl_batch ?fl) \<ge> cdr_insert_batch_size then flush_batch ?fl else pass ?fl)"
    by (intro smooth_intros)
  then have "undisturbed_step w w2" using step Cons.prems(2) unfolding smooth_def by (metis Pair_inject fst_conv outcome.distinct(5))
  then show ?case using Cons.IH [OF rest] fl2 line Cons.prems(3) by (simp add: undisturbed_step_def)
qed


lemma stat_calm [simp]: "undisturbed w \<Longrightarrow> stat_file p w = (Done (on_disk w p), w)"
  by (simp add: stat_file_def try_catch_def and_then_def look_def pass_def on_disk_def split: option.split)

lemma open_calm: "undisturbed w \<Longrightarrow> on_disk w p = Some f \<Longrightarrow> open_lines p w = (Done (read_lines (df_text f)), w)"
  by (simp add: open_lines_def on_disk_def)

text \<open>The file as it was listed, with no upload on it.\<close>

definition listed_as :: "import_world \<Rightarrow> inbox_file \<Rightarrow> disk_file \<Rightarrow> bool" where
  "listed_as w file f \<longleftrightarrow>
     on_disk w (Cdr_inbox, if_name file) = Some f \<and> df_size f = if_size file \<and> df_mtime f = if_mtime file
     \<and> \<not> is_stor_busy (Cdr_inbox, if_name file) (iw_now w) (iw_slots w)"

lemma listed_step: "listed_as w file f \<Longrightarrow> undisturbed_step w w1 \<Longrightarrow> listed_as w1 file f"
  by (simp add: listed_as_def undisturbed_step_def on_disk_def)

lemma moved_calm: "undisturbed w \<Longrightarrow> listed_as w file f \<Longrightarrow> df_regular f \<Longrightarrow> file_moved Cdr_inbox file w = (Done False, w)"
  by (simp add: file_moved_def listed_as_def and_then_def pass_def)

lemma good_header_none: "good_header f \<Longrightarrow> read_lines (df_text f) \<noteq> [] \<and> header_problem (read_lines (df_text f)) = None"
  by (auto simp: good_header_def header_problem_def assert_canonical_cdr_header_def split: list.splits)

lemma ends_fill_file: "ends (fill_file dp file job sn maps t lines)"
  unfolding fill_file_def by (intro ends_intros)

lemma calm_store_file:
  assumes "undisturbed w" and "iw_target w = None" and "listed_as w file f" and "good_dump dp f"
    and "sn_bad sn = 0" and "sn_held sn = 0" and "sn_months sn = {}"
  shows "\<exists>r w1. store_file dp file job sn maps w = (Done r, w1) \<and> settled r \<and> undisturbed_step w w1"
proof -
  let ?ls = "read_lines (df_text f)" and ?mk = "row_to_store file job (iw_now w) maps"
  let ?fl = "\<lparr>fl_batch = [], fl_inserted = 0, fl_months = sn_months sn, fl_held = False\<rparr>"
  have opened: "open_lines (Cdr_inbox, if_name file) w = (Done ?ls, w)"
    using assms(1,3) by (simp add: listed_as_def open_calm)
  have header: "header_problem ?ls = None" using assms(4) good_header_none by (simp add: good_dump_def)
  obtain fl w1 where fill: "fill_lines dp ?mk (tl ?ls) ?fl w = (Done fl, w1)" and step: "undisturbed_step w w1"
    using smooth_fill(2) ends_fill(2) assms(1) by (rule smoothE)
  have "\<not> fl_held fl" using undisturbed_fill [OF fill assms(1,2)] assms(7) by simp
  then have "settled (filled_result file sn fl live (em_stats maps))" for live
    using assms(5,6) by (simp add: settled_def filled_result_def empty_result_def)
  then show ?thesis
    using opened header fill step assms(1)
    by (simp add: store_file_def fill_file_def and_then_def look_def pass_def)
qed

lemma calm_after_scan:
  assumes "undisturbed w" and "iw_target w = None" and "listed_as w file f" and "good_dump dp f"
    and "sn_bad sn = 0" and "sn_held sn = 0" and "sn_months sn = {}"
  shows "\<exists>r w1. after_scan dp file job sn w = (Done r, w1) \<and> settled r \<and> undisturbed_step w w1"
proof (cases "sn_valid sn = 0")
  case True
  then show ?thesis using assms by (simp add: after_scan_def and_then_def look_def pass_def)
next
  case False
  obtain maps we where maps: "load_cdr_import_enrichment (sn_keys sn) w = (Done maps, we)" and step: "undisturbed_step w we"
    using smooth_enrichment ends_enrichment assms(1) by (rule smoothE)
  then have we: "undisturbed we" "iw_target we = None" using assms(2) by (simp_all add: undisturbed_step_def)
  obtain r w1 where r: "store_file dp file job sn maps we = (Done r, w1)" "settled r" "undisturbed_step we w1"
    using calm_store_file [OF we listed_step [OF assms(3) step] assms(4-7)] by blast
  then show ?thesis using maps False calm_step_trans [OF step] by (simp add: after_scan_def and_then_def look_def)
qed

lemma calm_one_file:
  assumes "undisturbed w" and "iw_target w = None" and "listed_as w file f" and "good_dump dp f"
  shows "\<exists>r w1. import_one_file dp file job w = (Done r, w1) \<and> settled r \<and> undisturbed_step w w1"
proof -
  let ?ls = "read_lines (df_text f)"
  let ?sn = "foldl (\<lambda>sn raw. scan_line dp None raw sn) scan_start (tl ?ls)"
  have opened: "open_lines (Cdr_inbox, if_name file) w = (Done ?ls, w)"
    using assms(1,3) by (simp add: listed_as_def open_calm)
  have header: "?ls \<noteq> []" "header_problem ?ls = None" using assms(4) good_header_none by (simp_all add: good_dump_def)
  have "list_all (well_formed dp) (tl ?ls)" using assms(4) by (simp add: good_dump_def body_lines_def)
  then have sn: "sn_bad ?sn = 0" "sn_held ?sn = 0" "sn_months ?sn = {}"
    using scan_good [of dp "tl ?ls" scan_start] by (simp_all add: scan_start_def)
  obtain r w1 where r: "after_scan dp file job ?sn w = (Done r, w1)" "settled r" "undisturbed_step w w1"
    using calm_after_scan [OF assms sn] by blast
  have "inbox_file_error file = None" using assms(3,4) by (simp add: inbox_file_error_def listed_as_def good_dump_def)
  then have "import_stable_file dp file job w = (Done r, w1)"
    using opened header r(1) assms(1,2)
    by (simp add: import_stable_file_def scan_file_def and_then_def undisturbed_scan)
  moreover have "file_moved Cdr_inbox file w = (Done False, w)" "file_moved Cdr_inbox file w1 = (Done False, w1)"
    using moved_calm listed_step [OF assms(3) r(3)] r(3) assms by (simp_all add: good_dump_def undisturbed_step_def)
  ultimately show ?thesis using r by (simp add: import_one_file_def and_then_def pass_def)
qed

section \<open>The inbox\<close>

definition data_files_gone :: "import_world \<Rightarrow> bool" where
  "data_files_gone w \<longleftrightarrow> (\<forall>name. is_inbox_data_file name \<longrightarrow> on_disk w (Cdr_inbox, name) = None)"

lemma undisturbed_settle:
  assumes "undisturbed w" and "settled r" and "on_disk w (Cdr_inbox, if_name file) = Some f"
  shows "\<exists>w1. settle_file file r w = (Done (), w1) \<and> undisturbed w1 \<and> iw_now w1 = iw_now w \<and> iw_slots w1 = iw_slots w
    \<and> iw_target w1 = iw_target w \<and> stored_ids w1 = stored_ids w
    \<and> (\<forall>p. on_disk w1 p = (if p = (Cdr_inbox, if_name file) then None else on_disk w p))"
proof -
  have "undisturbed (w\<lparr>iw_poison := jm\<rparr>)" for jm using assms(1) by (simp add: undisturbed_def)
  moreover have "map_of (iw_disk w) (Cdr_inbox, if_name file) = Some f" using assms(3) by (simp add: on_disk_def)
  ultimately show ?thesis
    using assms(1,2)
    by (simp add: settle_file_def settled_def and_then_def change_def remove_file_def undisturbed_def stored_ids_def
        on_disk_def delete_conv')
qed

lemma calm_import_files:
  assumes "undisturbed w" and "not_future w" and "iw_target w = None" and "distinct (map if_name files)"
    and "\<forall>file\<in>set files. \<exists>f. listed_as w file f \<and> good_dump dp f"
  shows "\<exists>t1 w1. import_files dp job files (t, w) = (Done (), (t1, w1)) \<and> undisturbed w1 \<and> iw_target w1 = None
    \<and> (\<forall>file\<in>set files. on_disk w1 (Cdr_inbox, if_name file) = None
         \<and> (\<forall>f. on_disk w (Cdr_inbox, if_name file) = Some f \<longrightarrow> file_stored dp f w1))
    \<and> (\<forall>p. p \<notin> (\<lambda>file. (Cdr_inbox, if_name file)) ` set files \<longrightarrow> on_disk w1 p = on_disk w p)
    \<and> stored_ids w \<subseteq> stored_ids w1
    \<and> (List.map_filter fr_error (it_results t) = [] \<longrightarrow> List.map_filter fr_error (it_results t1) = [])"
  using assms
proof (induction files arbitrary: t w)
  case Nil
  then show ?case by (simp add: pass_def)
next
  case (Cons x files)
  obtain f where f: "listed_as w x f" "good_dump dp f" using Cons.prems(5) by auto
  obtain r v where one: "import_one_file dp x job w = (Done r, v)" "settled r" "undisturbed_step w v"
    using calm_one_file [OF Cons.prems(1,3) f] by blast
  have v: "undisturbed v" "iw_target v = None" "on_disk v (Cdr_inbox, if_name x) = Some f"
    using one(3) Cons.prems(3) f(1) by (simp_all add: undisturbed_step_def on_disk_def listed_as_def)
  have nv: "not_future v" using Cons.prems(2) one(3) by (simp add: not_future_def undisturbed_step_def on_disk_def)
  have stored: "file_stored dp f v" using one_file_Done [OF one(1,2) Cons.prems(2)] v(3) by auto
  obtain u where u: "settle_file x r v = (Done (), u)" "undisturbed u" "iw_now u = iw_now v" "iw_slots u = iw_slots v"
    "iw_target u = iw_target v" "stored_ids u = stored_ids v"
    "\<And>p. on_disk u p = (if p = (Cdr_inbox, if_name x) then None else on_disk v p)"
    using undisturbed_settle [OF v(1) one(2) v(3)] by blast
  have disk: "on_disk v = on_disk w" using one(3) by (simp add: undisturbed_step_def on_disk_def fun_eq_iff)
  have nu: "not_future u" using nv u(3,7) by (auto simp: not_future_def split: if_splits)
  have rest: "\<forall>file\<in>set files. \<exists>f. listed_as u file f \<and> good_dump dp f"
  proof
    fix g
    assume g: "g \<in> set files"
    then have "if_name g \<noteq> if_name x" using Cons.prems(4) by (metis distinct.simps(2) image_eqI list.set_map list.simps(9))
    moreover obtain h where "listed_as w g h" "good_dump dp h" using Cons.prems(5) g by auto
    ultimately show "\<exists>f. listed_as u g f \<and> good_dump dp f"
      using u(3,4,7) disk one(3) by (auto simp: listed_as_def undisturbed_step_def)
  qed
  let ?t = "note_result r (t\<lparr>it_seen := seen_key x # it_seen t\<rparr>)"
  obtain t1 w1 where ih: "import_files dp job files (?t, u) = (Done (), (t1, w1))" "undisturbed w1" "iw_target w1 = None"
    "\<forall>file\<in>set files. on_disk w1 (Cdr_inbox, if_name file) = None
         \<and> (\<forall>f. on_disk u (Cdr_inbox, if_name file) = Some f \<longrightarrow> file_stored dp f w1)"
    "\<forall>p. p \<notin> (\<lambda>file. (Cdr_inbox, if_name file)) ` set files \<longrightarrow> on_disk w1 p = on_disk u p"
    "stored_ids u \<subseteq> stored_ids w1"
    "List.map_filter fr_error (it_results ?t) = [] \<longrightarrow> List.map_filter fr_error (it_results t1) = []"
    using Cons.IH [OF u(2) nu _ _ rest, of ?t] u(5) v(2) Cons.prems(4) by auto
  have run: "import_files dp job (x # files) (t, w) = (Done (), (t1, w1))"
    using one(1) u(1) ih(1) by (simp add: and_then_def tally_def outside_def)
  have now: "file_stored dp f w1" using file_stored_mono [OF stored] u(6) ih(6) by simp
  have "(Cdr_inbox, if_name x) \<notin> (\<lambda>file. (Cdr_inbox, if_name file)) ` set files" using Cons.prems(4) by auto
  then have gone_x: "on_disk w1 (Cdr_inbox, if_name x) = None" using ih(5) u(7) by simp
  have "fr_error r = None" using one(2) by (simp add: settled_def)
  then have no_error: "List.map_filter fr_error (it_results t) = [] \<longrightarrow> List.map_filter fr_error (it_results t1) = []"
    using ih(7) by (simp add: note_result_def map_filter_def)
  have ids: "stored_ids w \<subseteq> stored_ids w1" using one(3) u(6) ih(6) by (auto simp: undisturbed_step_def)
  have gone: "on_disk w1 (Cdr_inbox, if_name y) = None
      \<and> (\<forall>g. on_disk w (Cdr_inbox, if_name y) = Some g \<longrightarrow> file_stored dp g w1)" if y: "y \<in> set (x # files)" for y
  proof (cases "y = x")
    case True
    then show ?thesis using now gone_x f(1) by (simp add: listed_as_def)
  next
    case False
    then have "y \<in> set files" "if_name y \<noteq> if_name x"
      using y Cons.prems(4) by (auto, metis image_eqI)
    then show ?thesis using ih(4) u(7) disk by auto
  qed
  have others: "on_disk w1 p = on_disk w p" if "p \<notin> (\<lambda>y. (Cdr_inbox, if_name y)) ` set (x # files)" for p
  proof -
    have "on_disk w1 p = on_disk u p" using ih(5) [rule_format, of p] that by simp
    moreover have "on_disk u p = on_disk v p" using u(7) [of p] that by (simp split: if_splits)
    ultimately show ?thesis using disk by simp
  qed
  show ?case using run ih(2,3) gone others ids no_error by blast
qed

section \<open>The passes\<close>

definition ready_file :: "import_world \<Rightarrow> string \<Rightarrow> disk_file \<Rightarrow> bool" where
  "ready_file w name f \<longleftrightarrow>
     \<not> is_young_dump (Cdr_inbox, name) (df_size f) (df_mtime f) (iw_now w) (iw_slots w)
     \<and> \<not> is_poisoned (iw_target w) name (df_mtime f) (Some (df_size f)) (iw_poison w)"

definition ready_inbox :: "(string \<Rightarrow> int option) \<Rightarrow> import_world \<Rightarrow> bool" where
  "ready_inbox dp w \<longleftrightarrow>
     (\<forall>name f. is_inbox_data_file name \<longrightarrow> on_disk w (Cdr_inbox, name) = Some f \<longrightarrow> ready_file w name f \<and> good_dump dp f)"

lemma ready_inbox_step: "ready_inbox dp w \<Longrightarrow> undisturbed_step w w1 \<Longrightarrow> ready_inbox dp w1"
  by (simp add: ready_inbox_def ready_file_def undisturbed_step_def on_disk_def)

lemma ready_inbox_gone: "data_files_gone w \<Longrightarrow> ready_inbox dp w"
  by (simp add: ready_inbox_def data_files_gone_def)

lemma gone_step: "data_files_gone w \<Longrightarrow> undisturbed_step w w1 \<Longrightarrow> data_files_gone w1"
  by (simp add: data_files_gone_def undisturbed_step_def on_disk_def)

lemma undisturbed_sort:
  assumes "undisturbed w" and "ready_inbox dp w"
  shows "\<forall>name\<in>set names. on_disk w (Cdr_inbox, name) \<noteq> None \<Longrightarrow>
    \<exists>files. sort_files False (iw_now w) names (ready, young) w = (Done (ready @ files, young), w)
      \<and> map if_name files = filter is_inbox_data_file names
      \<and> (\<forall>file\<in>set files. \<exists>f. listed_as w file f \<and> good_dump dp f)"
proof (induction names arbitrary: ready)
  case Nil
  then show ?case by (simp add: pass_def)
next
  case (Cons name names)
  show ?case
  proof (cases "is_inbox_data_file name")
    case False
    then show ?thesis using Cons by simp
  next
    case True
    obtain f where f: "on_disk w (Cdr_inbox, name) = Some f" using Cons.prems by auto
    then have ok: "ready_file w name f" "good_dump dp f" using assms(2) True by (auto simp: ready_inbox_def)
    let ?f = "\<lparr>if_name = name, if_size = df_size f, if_mtime = df_mtime f\<rparr>"
    obtain files where files: "sort_files False (iw_now w) names (ready @ [?f], young) w = (Done ((ready @ [?f]) @ files, young), w)"
      "map if_name files = filter is_inbox_data_file names"
      "\<forall>file\<in>set files. \<exists>f. listed_as w file f \<and> good_dump dp f"
      using Cons.IH [of "ready @ [?f]"] Cons.prems by auto
    have "listed_as w ?f f" using f ok(1) by (simp add: listed_as_def ready_file_def is_young_dump_def split: if_splits)
    moreover have "sort_files False (iw_now w) (name # names) (ready, young) w = (Done (ready @ ?f # files, young), w)"
      using True f ok files(1) assms(1) by (simp add: and_then_def ready_file_def good_dump_def)
    ultimately show ?thesis using files True ok(2) by (intro exI [of _ "?f # files"]) auto
  qed
qed

lemma undisturbed_partition:
  assumes "undisturbed w" and "ready_inbox dp w" and "distinct (map fst (iw_disk w)) \<or> data_files_gone w"
  shows "\<exists>files. partition_inbox_files False w = (Done (files, []), w)
    \<and> distinct (map if_name files) \<and> (\<forall>file\<in>set files. \<exists>f. listed_as w file f \<and> good_dump dp f)
    \<and> (\<forall>name. is_inbox_data_file name \<longrightarrow> on_disk w (Cdr_inbox, name) \<noteq> None \<longrightarrow> name \<in> if_name ` set files)
    \<and> (\<forall>file\<in>set files. is_inbox_data_file (if_name file))"
proof -
  let ?names = "sort (map snd (filter (\<lambda>p. fst p = Cdr_inbox) (map fst (iw_disk w))))"
  have names: "name \<in> set ?names \<longleftrightarrow> on_disk w (Cdr_inbox, name) \<noteq> None" for name
    by (force simp: on_disk_def map_of_eq_None_iff)
  have "read_names Cdr_inbox w = (Done (Some ?names), w)"
    using assms(1) by (simp add: read_names_def try_catch_def look_def)
  moreover obtain files where files: "sort_files False (iw_now w) ?names ([], []) w = (Done ([] @ files, []), w)"
    "map if_name files = filter is_inbox_data_file ?names"
    "\<forall>file\<in>set files. \<exists>f. listed_as w file f \<and> good_dump dp f"
    using undisturbed_sort [OF assms(1,2), of ?names "[]" "[]"] names by blast
  ultimately have "partition_inbox_files False w = (Done (files, []), w)"
    by (simp add: partition_inbox_files_def and_then_def look_def)
  moreover have "distinct (map if_name files)"
  proof (cases "data_files_gone w")
    case True
    then have "\<forall>name\<in>set ?names. \<not> is_inbox_data_file name" using names unfolding data_files_gone_def by blast
    then have "filter is_inbox_data_file ?names = []" by (simp only: filter_False)
    then show ?thesis using files(2) by simp
  next
    case False
    then have "distinct (map fst (iw_disk w))" using assms(3) by blast
    then have "distinct (map snd (filter (\<lambda>p. fst p = Cdr_inbox) (map fst (iw_disk w))))"
      unfolding distinct_map [of snd] by (auto simp: inj_on_def)
    then show ?thesis unfolding files(2) by simp
  qed
  moreover have "name \<in> if_name ` set files" if "is_inbox_data_file name" "on_disk w (Cdr_inbox, name) \<noteq> None" for name
  proof -
    have "name \<in> set (map if_name files)" using that names unfolding files(2) by simp
    then show ?thesis by simp
  qed
  moreover have "\<forall>file\<in>set files. is_inbox_data_file (if_name file)"
  proof -
    have "\<forall>name\<in>set (map if_name files). is_inbox_data_file name" unfolding files(2) by simp
    then show ?thesis by simp
  qed
  ultimately show ?thesis using files(3) by blast
qed

text \<open>The state before a pass: the first pass finds good files, the later ones none.\<close>

definition pass_ready :: "(string \<Rightarrow> int option) \<Rightarrow> import_totals \<Rightarrow> import_world \<Rightarrow> bool" where
  "pass_ready dp t w \<longleftrightarrow>
     undisturbed w \<and> iw_target w = None \<and> List.map_filter fr_error (it_results t) = []
     \<and> (data_files_gone w
        \<or> not_future w \<and> distinct (map fst (iw_disk w)) \<and> it_seen t = [] \<and> ready_inbox dp w)"

definition files_stored :: "(string \<Rightarrow> int option) \<Rightarrow> import_world \<Rightarrow> import_world \<Rightarrow> bool" where
  "files_stored dp w w1 \<longleftrightarrow>
     (\<forall>name f. is_inbox_data_file name \<longrightarrow> on_disk w (Cdr_inbox, name) = Some f \<longrightarrow> file_stored dp f w1)"

lemma outside_Done: "f w = (Done x, w1) \<Longrightarrow> outside f (t, w) = (Done x, (t, w1))"
  by (simp add: outside_def)

lemma tally_run: "tally f (t, w) = (Done (), (f t, w))"
  by (simp add: tally_def)

lemma look_run: "look f s = (Done (f s), s)"
  by (simp add: look_def)

lemma and_then_run: "f s = (Done x, s1) \<Longrightarrow> and_then f k s = k x s1"
  by (simp add: and_then_def)

lemma smooth_outside:
  assumes "smooth f" and "ends f" and "undisturbed w"
  obtains x w1 where "outside f (t, w) = (Done x, (t, w1))" and "undisturbed_step w w1"
  using assms by (metis smoothE outside_Done)

lemma calm_step_target: "undisturbed_step w w1 \<Longrightarrow> undisturbed w1 \<and> iw_target w1 = iw_target w"
  by (simp add: undisturbed_step_def)

lemma files_stored_ids: "files_stored dp w w1 \<Longrightarrow> stored_ids w1 \<subseteq> stored_ids w2 \<Longrightarrow> files_stored dp w w2"
  unfolding files_stored_def using file_stored_mono by blast

lemma files_stored_gone: "data_files_gone w \<Longrightarrow> files_stored dp w w1"
  by (simp add: files_stored_def data_files_gone_def)

lemma files_stored_from: "files_stored dp w w2 \<Longrightarrow> undisturbed_step v w \<Longrightarrow> files_stored dp v w2"
  by (simp add: files_stored_def undisturbed_step_def on_disk_def)

text \<open>What a pass does when it finds nothing new.\<close>

lemma undisturbed_idle:
  assumes "undisturbed w"
  shows "\<exists>b t1 w1. and_then (outside (consume_inbox_dirty Cdr_inbox)) (\<lambda>dirty.
         if dirty then pass True
         else and_then (outside (backfill_unenriched_cdr_records cdr_enrich_backfill_max_rows
                                   cdr_enrich_backfill_page_size)) (\<lambda>b.
              and_then (tally (\<lambda>t. t\<lparr>it_backfilled := it_backfilled t + bf_done b, it_remaining := bf_remaining b,
                                   it_stats := add_stats (it_stats t) (bf_stats b)\<rparr>)) (\<lambda>_.
              if bf_aborted b then pass True
              else outside (consume_inbox_dirty Cdr_inbox)))) (t, w) = (Done b, (t1, w1))
    \<and> undisturbed_step w w1 \<and> it_results t1 = it_results t"
proof -
  obtain d u where d: "outside (consume_inbox_dirty Cdr_inbox) (t, w) = (Done d, (t, u))" "undisturbed_step w u"
    using smooth_update_call(3) ends_update_call(2) assms by (rule smooth_outside)
  obtain b v where b: "outside (backfill_unenriched_cdr_records cdr_enrich_backfill_max_rows
      cdr_enrich_backfill_page_size) (t, u) = (Done b, (t, v))" "undisturbed_step u v"
    using smooth_backfill ends_backfill calm_step_target [OF d(2), THEN conjunct1] by (rule smooth_outside)
  let ?t = "t\<lparr>it_backfilled := it_backfilled t + bf_done b, it_remaining := bf_remaining b,
      it_stats := add_stats (it_stats t) (bf_stats b)\<rparr>"
  obtain e x where e: "outside (consume_inbox_dirty Cdr_inbox) (?t, v) = (Done e, (?t, x))" "undisturbed_step v x"
    using smooth_update_call(3) ends_update_call(2) calm_step_target [OF b(2), THEN conjunct1] by (rule smooth_outside)
  have steps: "undisturbed_step w v" "undisturbed_step w x" using d(2) b(2) e(2) calm_step_trans by blast+
  show ?thesis
  proof (cases d)
    case True
    then show ?thesis using d by (intro exI [of _ True] exI [of _ t] exI [of _ u]) (simp add: and_then_def pass_def)
  next
    case False
    show ?thesis
    proof (cases "bf_aborted b")
      case True
      then show ?thesis using d(1) b(1) steps(1) \<open>\<not> d\<close>
        by (intro exI [of _ True] exI [of _ ?t] exI [of _ v]) (simp add: and_then_def pass_def tally_def)
    next
      case False
      then show ?thesis using d(1) b(1) e(1) steps(2) \<open>\<not> d\<close>
        by (intro exI [of _ e] exI [of _ ?t] exI [of _ x]) (simp add: and_then_def pass_def tally_def)
    qed
  qed
qed

lemma undisturbed_pass:
  assumes "pass_ready dp t w"
  shows "\<exists>b t1 w1. import_pass dp job (t, w) = (Done b, (t1, w1)) \<and> pass_ready dp t1 w1 \<and> data_files_gone w1
    \<and> stored_ids w \<subseteq> stored_ids w1 \<and> files_stored dp w w1"
proof -
  have w: "undisturbed w" "iw_target w = None" "List.map_filter fr_error (it_results t) = []"
    using assms by (simp_all add: pass_ready_def)
  obtain d u where d: "outside (consume_inbox_dirty Cdr_inbox) (t, w) = (Done d, (t, u))" "undisturbed_step w u"
    using smooth_update_call(3) ends_update_call(2) w(1) by (rule smooth_outside)
  have u: "undisturbed u" "iw_target u = None" "on_disk u = on_disk w" "iw_disk u = iw_disk w" "iw_now u = iw_now w"
    using d(2) w(2) by (simp_all add: undisturbed_step_def on_disk_def fun_eq_iff)
  have ready: "ready_inbox dp u"
    using assms ready_inbox_step [OF _ d(2)] ready_inbox_gone by (auto simp: pass_ready_def)
  have keys: "distinct (map fst (iw_disk u)) \<or> data_files_gone u"
    using assms u(4) gone_step [OF _ d(2)] by (auto simp: pass_ready_def)
  obtain files where part: "partition_inbox_files False u = (Done (files, []), u)"
    and files: "distinct (map if_name files)" "\<forall>file\<in>set files. \<exists>f. listed_as u file f \<and> good_dump dp f"
      "\<forall>name. is_inbox_data_file name \<longrightarrow> on_disk u (Cdr_inbox, name) \<noteq> None \<longrightarrow> name \<in> if_name ` set files"
      "\<forall>file\<in>set files. is_inbox_data_file (if_name file)"
    using undisturbed_partition [OF u(1) ready keys] by blast
  let ?t = "t\<lparr>it_young := False\<rparr>"
  let ?fresh = "filter (\<lambda>f. seen_key f \<notin> set (it_seen t)) files"
  have fresh: "?fresh = files"
  proof (cases "it_seen t = []")
    case False
    then have gone: "data_files_gone u" using assms gone_step [OF _ d(2)] by (auto simp: pass_ready_def)
    have "x \<notin> set files" for x
      using files(2,4) gone by (auto simp: listed_as_def data_files_gone_def)
    then show ?thesis by (metis filter.simps(1) list.set_intros(1) neq_Nil_conv)
  qed simp
  show ?thesis
  proof (cases "files = []")
    case True
    have gone: "data_files_gone u" using files(3) True by (auto simp: data_files_gone_def)
    obtain b t1 w1 where idle: "and_then (outside (consume_inbox_dirty Cdr_inbox)) (\<lambda>dirty.
         if dirty then pass True
         else and_then (outside (backfill_unenriched_cdr_records cdr_enrich_backfill_max_rows
                                   cdr_enrich_backfill_page_size)) (\<lambda>b.
              and_then (tally (\<lambda>t. t\<lparr>it_backfilled := it_backfilled t + bf_done b, it_remaining := bf_remaining b,
                                   it_stats := add_stats (it_stats t) (bf_stats b)\<rparr>)) (\<lambda>_.
              if bf_aborted b then pass True
              else outside (consume_inbox_dirty Cdr_inbox)))) (?t, u) = (Done b, (t1, w1))"
      "undisturbed_step u w1" "it_results t1 = it_results t"
      using undisturbed_idle [OF u(1), of ?t] by auto
    have "import_pass dp job (t, w) = (Done b, (t1, w1))"
      using idle(1)
      by (simp only: import_pass_def and_then_run [where f = "outside (consume_inbox_dirty Cdr_inbox)", OF d(1)]
          and_then_run [where f = "outside (partition_inbox_files False)",
            OF outside_Done [where f = "partition_inbox_files False", OF part]]
          and_then_run [where f = "tally _", OF tally_run] and_then_run [where f = "look _", OF look_run] prod.case True filter.simps simp_thms if_False)
    moreover have after: "data_files_gone w1" "files_stored dp w w1" "undisturbed_step w w1"
      using gone_step [OF gone idle(2)] files_stored_from [OF files_stored_gone [OF gone] d(2)]
        calm_step_trans [OF d(2) idle(2)] by simp_all
    moreover have "pass_ready dp t1 w1"
      using after(1) calm_step_target [OF after(3)] w(2,3) unfolding pass_ready_def idle(3) by simp
    moreover have "stored_ids w \<subseteq> stored_ids w1" using after(3) by (simp add: undisturbed_step_def)
    ultimately show ?thesis by blast
  next
    case False
    then have nf: "not_future u" using assms fresh gone_step [OF _ d(2)] files(2,4) u(3,5)
      by (auto simp: pass_ready_def not_future_def data_files_gone_def listed_as_def neq_Nil_conv)
    obtain t1 w1 where run: "import_files dp job files (?t, u) = (Done (), (t1, w1))" "undisturbed w1" "iw_target w1 = None"
      "\<forall>file\<in>set files. on_disk w1 (Cdr_inbox, if_name file) = None
         \<and> (\<forall>f. on_disk u (Cdr_inbox, if_name file) = Some f \<longrightarrow> file_stored dp f w1)"
      "\<forall>p. p \<notin> (\<lambda>file. (Cdr_inbox, if_name file)) ` set files \<longrightarrow> on_disk w1 p = on_disk u p"
      "stored_ids u \<subseteq> stored_ids w1"
      "List.map_filter fr_error (it_results t1) = []"
      using calm_import_files [OF u(1) nf u(2) files(1,2), of job ?t] w(3) by auto
    have "import_pass dp job (t, w) = (Done True, (t1, w1))"
      using d(1) outside_Done [where f = "partition_inbox_files False", OF part] False fresh run(1)
      by (simp add: import_pass_def and_then_def tally_def look_def pass_def)
    moreover have "data_files_gone w1"
      unfolding data_files_gone_def
    proof (intro allI impI)
      fix name
      assume data: "is_inbox_data_file name"
      show "on_disk w1 (Cdr_inbox, name) = None"
      proof (cases "name \<in> if_name ` set files")
        case True
        then show ?thesis using run(4) by auto
      next
        case False
        then have "on_disk w1 (Cdr_inbox, name) = on_disk u (Cdr_inbox, name)"
          by (intro run(5) [rule_format]) auto
        then show ?thesis using False files(3) data by auto
      qed
    qed
    moreover have "files_stored dp w w1"
      unfolding files_stored_def
    proof (intro allI impI)
      fix name f
      assume data: "is_inbox_data_file name" and f: "on_disk w (Cdr_inbox, name) = Some f"
      then obtain x where "x \<in> set files" "name = if_name x" using files(3) u(3) by auto
      then show "file_stored dp f w1" using run(4) f u(3) by auto
    qed
    moreover have "stored_ids w \<subseteq> stored_ids w1" using d(2) run(6) by (auto simp: undisturbed_step_def)
    moreover have "pass_ready dp t1 w1" using run(2,3,7) calculation(2) by (simp add: pass_ready_def)
    ultimately show ?thesis by blast
  qed
qed

end
