(* ===== verification/Import_Job.thy ===== *)
theory Import_Job
  imports Import_Calm
begin

text \<open>
  The job around the passes, undisturbed: it succeeds, every dump is stored and the inbox is empty.
\<close>

section \<open>An undisturbed run\<close>

lemma smooth_sync: "smooth sync_cdr_at_from_cdr_date"
proof -
  have "call_id (sync_row c) = call_id c" for c
    by (simp add: sync_row_def call_id_def Let_def split: option.split)
  from ids_map [OF this] show ?thesis
    unfolding sync_cdr_at_from_cdr_date_def
    by (intro smooth_io smooth_change calm_step_calls) (auto simp: stored_ids_def)
qed

lemma ends_sync: "ends sync_cdr_at_from_cdr_date"
  unfolding sync_cdr_at_from_cdr_date_def by (intro ends_intros)

lemma undisturbed_passes:
  "pass_ready dp t w \<Longrightarrow> data_files_gone w \<Longrightarrow>
     \<exists>t1 w1. import_passes n dp job (t, w) = (Done (), (t1, w1)) \<and> pass_ready dp t1 w1 \<and> data_files_gone w1
       \<and> stored_ids w \<subseteq> stored_ids w1"
proof (induction n arbitrary: t w)
  case 0
  then show ?case by (simp add: pass_def)
next
  case (Suc n)
  obtain b t1 w1 where p: "import_pass dp job (t, w) = (Done b, (t1, w1))" "pass_ready dp t1 w1" "data_files_gone w1"
    "stored_ids w \<subseteq> stored_ids w1"
    using undisturbed_pass [OF Suc.prems(1)] by blast
  show ?case
  proof (cases b)
    case True
    then show ?thesis using p Suc.IH [OF p(2,3)] by (fastforce simp: and_then_def)
  next
    case False
    then show ?thesis using p by (simp add: and_then_def pass_def)
  qed
qed

lemma undisturbed_drain:
  assumes "pass_ready dp no_totals w"
  shows "\<exists>t1 w1. drain_inbox dp job (no_totals, w) = (Done (), (t1, w1)) \<and> undisturbed w1 \<and> data_files_gone w1
    \<and> files_stored dp w w1 \<and> List.map_filter fr_error (it_results t1) = []"
proof -
  have w: "undisturbed w" using assms by (simp add: pass_ready_def)
  obtain x u where u: "outside sync_cdr_at_from_cdr_date (no_totals, w) = (Done x, (no_totals, u))" "undisturbed_step w u"
    using smooth_sync ends_sync w by (rule smooth_outside)
  have keys: "iw_disk u = iw_disk w" "iw_now u = iw_now w" using u(2) by (simp_all add: undisturbed_step_def)
  have "pass_ready dp no_totals u"
    using assms calm_step_target [OF u(2)] gone_step [OF _ u(2)] ready_inbox_step [OF _ u(2)] keys
    by (auto simp: pass_ready_def not_future_def on_disk_def)
  then obtain b t1 w1 where p: "import_pass dp job (no_totals, u) = (Done b, (t1, w1))" "pass_ready dp t1 w1"
    "data_files_gone w1" "files_stored dp u w1"
    using undisturbed_pass by blast
  obtain t2 w2 where q: "import_passes max_passes dp job (no_totals, u) = (Done (), (t2, w2))" "pass_ready dp t2 w2"
    "data_files_gone w2" "stored_ids w1 \<subseteq> stored_ids w2"
  proof (cases b)
    case True
    obtain t2 w2 where "import_passes 15 dp job (t1, w1) = (Done (), (t2, w2))" "pass_ready dp t2 w2"
      "data_files_gone w2" "stored_ids w1 \<subseteq> stored_ids w2"
      using undisturbed_passes [OF p(2,3)] by blast
    then show ?thesis using that p(1) True by (simp add: max_passes_def numeral_eq_Suc and_then_def)
  next
    case False
    then show ?thesis using that p by (simp add: max_passes_def numeral_eq_Suc and_then_def pass_def)
  qed
  have w2: "undisturbed w2" "List.map_filter fr_error (it_results t2) = []" using q(2) by (simp_all add: pass_ready_def)
  obtain files where part: "partition_inbox_files False w2 = (Done (files, []), w2)"
    and none: "\<forall>file\<in>set files. \<exists>f. listed_as w2 file f \<and> good_dump dp f"
      "\<forall>file\<in>set files. is_inbox_data_file (if_name file)"
    using undisturbed_partition [OF w2(1) ready_inbox_gone [OF q(3)]] q(3) by blast
  have "x \<notin> set files" for x using none q(3) by (auto simp: listed_as_def data_files_gone_def)
  then have "files = []" by (metis list.set_intros(1) neq_Nil_conv)
  then have "drain_inbox dp job (no_totals, w) = (Done (), (t2, w2))"
    using u(1) q(1) part by (simp add: drain_inbox_def and_then_def outside_def list_inbox_files_def pass_def)
  moreover have "files_stored dp w w2"
    using files_stored_from [OF files_stored_ids [OF p(4) q(4)] u(2)] .
  ultimately show ?thesis using w2 q(3) by blast
qed

lemma smooth_fields:
  "smooth audit_entry" "smooth (end_run job failed at err a b c)" "smooth (remember_pass side at a b c)"
  "smooth (end_if_running job)"
  unfolding audit_entry_def end_run_def remember_pass_def end_if_running_def Let_def
  by (intro smooth_intros smooth_change; simp add: undisturbed_step_def undisturbed_def stored_ids_def)+

lemma smooth_finished: "smooth (finished_job job t)"
  unfolding finished_job_def Let_def
  by (intro smooth_intros smooth_fields smooth_change; simp add: undisturbed_step_def undisturbed_def stored_ids_def)

lemma finished_failed:
  "finished_job job t w = (Done res, w1) \<Longrightarrow> ij_failed res \<longleftrightarrow> List.map_filter fr_error (it_results t) \<noteq> []"
  unfolding finished_job_def Let_def by (auto simp: pass_def elim!: and_then_Done)

lemma calm_process:
  assumes "undisturbed w" and "not_future w" and "iw_target w = None" and "distinct (map fst (iw_disk w))"
    and "ready_inbox dp w"
  shows "\<exists>res w1. process_cdr_import dp job w = (Done res, w1) \<and> \<not> ij_failed res
    \<and> data_files_gone w1 \<and> files_stored dp w w1"
proof -
  let ?row = "\<lparr>run_id = job, run_action = Cdr_import, run_status = Job_running, run_started = iw_now w,
          run_finished = None, run_error = None, ir_phones = 0, ir_bad = 0, ir_changes = 0\<rparr>"
  let ?u = "w\<lparr>iw_runs := iw_runs w @ [?row]\<rparr>"
  have u: "undisturbed_step w ?u" using assms(1) by (simp add: undisturbed_step_def undisturbed_def stored_ids_def)
  have "ends audit_entry" unfolding audit_entry_def by (intro ends_intros)
  from smooth_fields(1) this calm_step_target [OF u, THEN conjunct1]
  obtain x v where v: "audit_entry ?u = (Done x, v)" "undisturbed_step ?u v" by (rule smoothE)
  have wv: "undisturbed_step w v" by (rule calm_step_trans [OF u v(2)])
  have "pass_ready dp no_totals v"
    using assms ready_inbox_step [OF assms(5) wv] wv
    by (simp add: pass_ready_def undisturbed_step_def not_future_def on_disk_def no_totals_def map_filter_simps)
  then obtain t1 w1 where d: "drain_inbox dp job (no_totals, v) = (Done (), (t1, w1))" "undisturbed w1" "data_files_gone w1"
    "files_stored dp v w1" "List.map_filter fr_error (it_results t1) = []"
    using undisturbed_drain by blast
  obtain res w2 where f: "finished_job job t1 w1 = (Done res, w2)" "undisturbed_step w1 w2"
    using smooth_finished ends_job_end(2) d(2) by (rule smoothE)
  obtain y w3 where e: "end_if_running job w2 = (Done y, w3)" "undisturbed_step w2 w3"
    using smooth_fields(4) ends_job_end(3) calm_step_target [OF f(2), THEN conjunct1] by (rule smoothE)
  have "process_cdr_import dp job w = (Done res, w3)"
    using assms(1) v(1) d(1) f(1) e(1)
    by (simp add: process_cdr_import_def and_then_def look_def change_def and_finally_def run_passes_def pass_def)
  moreover have "\<not> ij_failed res" using finished_failed [OF f(1)] d(5) by simp
  moreover have "undisturbed_step w1 w3" by (rule calm_step_trans [OF f(2) e(2)])
  moreover have "files_stored dp w w3"
    using files_stored_ids [OF files_stored_from [OF d(4) wv]] calculation(3) by (simp add: undisturbed_step_def)
  ultimately show ?thesis using gone_step [OF d(3)] by blast
qed

end
