(* ===== verification/Import_Backfill.thy ===== *)
theory Import_Backfill
  imports Import_Held
begin

text \<open>
  Rows the backfill cannot finish: one of their addresses is not an IPv4 address, so no lookup is made
  for it and its place stays unknown. When the newest open rows are such rows, the backfill takes
  them on every turn and never comes to another row.
\<close>

section \<open>Rows that are never finished\<close>

definition never_looked_up :: "text16 \<Rightarrow> bool" where
  "never_looked_up raw = (case strip_ip_port raw of Some ip \<Rightarrow> \<not> is_lookup_ipv4 ip | None \<Rightarrow> False)"

definition unfinishable :: "stored_call \<Rightarrow> bool" where
  "unfinishable c = (never_looked_up (es_src (stored_source c)) \<or> never_looked_up (es_dst (stored_source c)))"

lemma set_keys_dom: "dom (foldl (\<lambda>m x. m(x \<mapsto> f)) m0 ks) = dom m0 \<union> set ks"
  by (induction ks arbitrary: m0) auto

lemma live_dom:
  "live_lookups one keys ks r w = (Done r1, w1) \<Longrightarrow>
     dom (lk_fields r1) \<subseteq> dom (lk_fields r) \<union> (\<Union>k\<in>set ks. set (keys k))"
proof (induction ks arbitrary: r w)
  case Nil
  then show ?case by (simp add: pass_def)
next
  case (Cons k ks)
  obtain found v where "live_lookups one keys ks
         (case found of
            None \<Rightarrow> r
          | Some f \<Rightarrow> r\<lparr>lk_fields := foldl (\<lambda>m x. m(x \<mapsto> f)) (lk_fields r) (keys k),
                        lk_live := lk_live r + 1\<rparr>) v = (Done r1, w1)"
    using Cons.prems by (auto elim: and_then_Done)
  from Cons.IH [OF this] show ?case by (auto simp: set_keys_dom split: option.splits)
qed

lemma geo_dom:
  assumes "enrich_geo_ips ips w = (Done r, w1)"
  shows "dom (lk_fields r) \<subseteq> Collect is_lookup_ipv4"
proof (cases "filter is_lookup_ipv4 ips = []")
  case True
  then show ?thesis using assms by (auto simp: enrich_geo_ips_def Let_def pass_def elim!: and_then_Done)
next
  case False
  let ?unique = "filter is_lookup_ipv4 ips"
  obtain creds cache v now where "(let needed = stale_or_missing_ips_for_enrich ?unique cache now;
                  r = \<lparr>lk_fields = (\<lambda>ip. if ip \<in> set ?unique \<and> ip \<notin> set needed
                                          then map_option fst (cache ip) else None),
                       lk_hits = int (length ?unique) - int (length needed), lk_live = 0\<rparr>
              in if needed \<noteq> [] \<and> creds
                 then live_lookups (\<lambda>ip. looked_up next_geo_answer (upsert_geo_cache ip)) (\<lambda>ip. [ip]) needed r
                 else pass r) v = (Done r, w1)"
    using assms False by (auto simp: enrich_geo_ips_def Let_def elim!: and_then_Done)
  then show ?thesis
    by (auto simp: Let_def pass_def stale_or_missing_ips_for_enrich_def split: if_splits dest!: live_dom)
qed

lemma enrichment_geo:
  assumes "load_cdr_import_enrichment keys w = (Done maps, w1)"
  shows "dom (em_geo maps) \<subseteq> Collect is_lookup_ipv4"
  using assms
  by (auto simp: load_cdr_import_enrichment_def pass_def elim!: and_then_Done) (meson domI geo_dom mem_Collect_eq subsetD)

lemma unfinished:
  assumes "load_cdr_import_enrichment keys w = (Done maps, w1)" and "unfinishable c"
  shows "\<not> row_enrichment_complete (stored_source c) maps"
proof -
  have none: "em_geo maps ip = None" if "\<not> is_lookup_ipv4 ip" for ip
    using enrichment_geo [OF assms(1)] that by (cases "em_geo maps ip") auto
  then have "(case strip_ip_port raw of Some ip \<Rightarrow> em_geo maps ip \<noteq> None | None \<Rightarrow> True) = False"
    if "never_looked_up raw" for raw
    using that by (auto simp: never_looked_up_def split: option.splits)
  then show ?thesis using assms(2) by (auto simp: unfinishable_def row_enrichment_complete_def Let_def)
qed

section \<open>The page\<close>

lemma js_insert_map: "(\<And>a b. cmp a b = cmp1 (f a) (f b)) \<Longrightarrow> map f (js_insert cmp x xs) = js_insert cmp1 (f x) (map f xs)"
  by (induction xs) simp_all

lemma js_sort_map: "(\<And>a b. cmp a b = cmp1 (f a) (f b)) \<Longrightarrow> map f (js_sort cmp xs) = js_sort cmp1 (map f xs)"
  by (induction xs rule: rev_induct) (simp_all add: js_sort_snoc js_insert_map)

text \<open>A row without what the backfill writes into an unfinished row.\<close>

definition no_enrich :: cdr_enrich_fields where
  "no_enrich = \<lparr>ef_side_a = [], ef_operator_a = [], ef_geography_a = [], ef_side_b = [], ef_operator_b = [],
     ef_geography_b = [], ef_country_a = [], ef_city_a = [], ef_provider_a = [], ef_country_b = [],
     ef_city_b = [], ef_provider_b = []\<rparr>"

definition bare :: "stored_call \<Rightarrow> stored_call" where
  "bare c = c\<lparr>st_enrich := no_enrich\<rparr>"

lemma bare_simps [simp]:
  "st_fields (bare c) = st_fields c" "st_at (bare c) = st_at c" "st_enriched_at (bare c) = st_enriched_at c"
  "call_id (bare c) = call_id c" "unfinishable (bare c) = unfinishable c"
  by (simp_all add: bare_def call_id_def unfinishable_def stored_source_def)

lemma newer_bare [simp]: "newer_call (bare a) (bare b) = newer_call a b"
  by (simp add: newer_call_def split: option.split)

lemma bare_page: "map bare (unenriched_page n cs) = unenriched_page n (map bare cs)"
proof -
  let ?cmp = "\<lambda>a b. if newer_call a b then -1 else if newer_call b a then 1 else 0 :: int"
  have "?cmp a b = ?cmp (bare a) (bare b)" for a b by simp
  from js_sort_map [where cmp = ?cmp and f = bare, OF this] show ?thesis
    by (simp add: unenriched_page_def take_map [symmetric] filter_map comp_def)
qed

lemma page_take: "m \<le> n \<Longrightarrow> set (unenriched_page m cs) \<subseteq> set (unenriched_page n cs)"
  unfolding unenriched_page_def by (rule set_take_subset_set_take)

lemma page_open: "c \<in> set (unenriched_page n cs) \<Longrightarrow> c \<in> set cs \<and> st_enriched_at c = None"
  unfolding unenriched_page_def by (auto dest: in_set_takeD)

text \<open>The table as it was, but for what was written into the rows of one page.\<close>

definition page_only :: "stored_call list \<Rightarrow> text16 set \<Rightarrow> import_world \<Rightarrow> bool" where
  "page_only cs ids w \<longleftrightarrow>
     map bare (iw_calls w) = map bare cs \<and> (\<forall>c\<in>set cs. call_id c \<notin> ids \<longrightarrow> c \<in> set (iw_calls w))"

interpretation page_only: await_invariant "page_only cs ids" for cs ids
proof
  show "keeps (page_only cs ids) await"
    by (simp add: keeps_def await_def page_only_def fold_interfere split: list.split)
qed (simp_all add: page_only_def)

lemma page_of:
  assumes "page_only cs ids w" and "m \<le> n" and "r \<in> set (unenriched_page m (iw_calls w))"
  shows "\<exists>c\<in>set (unenriched_page n cs). bare r = bare c"
proof -
  have "bare r \<in> set (unenriched_page m (map bare cs))"
    using assms(1,3) bare_page [of m "iw_calls w"] by (metis image_eqI list.set_map page_only_def)
  then have "bare r \<in> set (map bare (unenriched_page n cs))"
    using page_take [OF assms(2)] by (auto simp: bare_page)
  then show ?thesis by auto
qed

text \<open>Writing the fields of a row that stays open.\<close>

lemma page_only_update:
  assumes "k \<in> ids" and "\<And>c. c \<in> set cs \<Longrightarrow> call_id c = k \<Longrightarrow> st_enriched_at c = None"
  shows "keeps (page_only cs ids) (update_call k flds None)"
  unfolding update_call_def
proof (intro page_only.keeps_io keeps_change)
  fix w
  assume w: "page_only cs ids w"
  let ?g = "\<lambda>c. if call_id c = k then c\<lparr>st_enrich := flds, st_enriched_at := None\<rparr> else c"
  have "bare (?g c) = bare c" if "c \<in> set (iw_calls w)" for c
  proof -
    have "bare c \<in> bare ` set cs" using that w unfolding page_only_def by (metis image_eqI list.set_map)
    then obtain d where "d \<in> set cs" "bare c = bare d" by auto
    then have "call_id c = k \<Longrightarrow> st_enriched_at c = None" using assms(2) bare_simps(3,4) by metis
    then show ?thesis by (simp add: bare_def)
  qed
  then have "map bare (map ?g (iw_calls w)) = map bare (iw_calls w)"
    unfolding map_map by (intro map_cong refl) (simp only: comp_apply)
  then have rows: "map bare (map ?g (iw_calls w)) = map bare cs" using w unfolding page_only_def by argo
  have others: "c \<in> set (map ?g (iw_calls w))" if "c \<in> set cs" "call_id c \<notin> ids" for c
  proof -
    have "c \<in> set (iw_calls w)" "call_id c \<noteq> k" using that w assms(1) by (auto simp: page_only_def)
    then show ?thesis by force
  qed
  have sel: "iw_calls (w\<lparr>iw_calls := x\<rparr>) = x" for x by simp
  show "page_only cs ids (w\<lparr>iw_calls := map ?g (iw_calls w)\<rparr>)"
    unfolding page_only_def sel using rows others by blast
qed

section \<open>The other rows are never reached\<close>

lemma io_look_Done:
  assumes "io (look g) w = (Done x, w1)"
  shows "x = g w1"
proof -
  obtain v where "look g v = (Done x, w1)" using assms by (rule io_Done)
  then show ?thesis by (auto simp: look_def)
qed

lemma page_rows_keep:
  assumes "\<And>r. r \<in> set rows \<Longrightarrow> \<not> row_enrichment_complete (stored_source r) maps \<and> call_id r \<in> ids"
    and "\<And>r c. r \<in> set rows \<Longrightarrow> c \<in> set cs \<Longrightarrow> call_id c = call_id r \<Longrightarrow> st_enriched_at c = None"
  shows "keeps (page_only cs ids) (backfill_rows maps now rows n)"
  using assms
proof (induction rows arbitrary: n)
  case (Cons r rows)
  have r: "\<not> row_enrichment_complete (stored_source r) maps" "call_id r \<in> ids" using Cons.prems(1) [of r] by simp_all
  have opened: "st_enriched_at c = None" if "c \<in> set cs" "call_id c = call_id r" for c
    by (rule Cons.prems(2) [OF _ that]) simp
  have stays: "keeps (page_only cs ids) (update_call (call_id r) (enrich_fields_for_row (stored_source r) maps)
      (if row_enrichment_complete (stored_source r) maps then Some now else None))"
    unfolding if_not_P [OF r(1)] by (rule page_only_update [OF r(2) opened])
  have rest: "keeps (page_only cs ids) (backfill_rows maps now rows k)" for k
  proof (rule Cons.IH)
    show "\<not> row_enrichment_complete (stored_source d) maps \<and> call_id d \<in> ids" if "d \<in> set rows" for d
      by (rule Cons.prems(1)) (simp add: that)
    show "st_enriched_at c = None" if "d \<in> set rows" "c \<in> set cs" "call_id c = call_id d" for c d
      by (rule Cons.prems(2) [OF _ that(2,3)]) (simp add: that(1))
  qed
  show ?case unfolding backfill_rows.simps
    by (intro keeps_and_then [OF page_only.keeps_flags(2)] keeps_if keeps_pass keeps_and_then [OF stays] rest)
qed (simp add: keeps_intros)

lemma page_turns_keep:
  assumes "distinct (map call_id cs)" and "list_all unfinishable (unenriched_page page cs)"
  defines "ids \<equiv> call_id ` set (unenriched_page page cs)"
  shows "keeps (page_only cs ids) (backfill_turns n m page k st)"
proof (induction n arbitrary: k st)
  case (Suc n)
  let ?wanted = "min page (m - k)"
  have page: "\<exists>c\<in>set (unenriched_page page cs). bare r = bare c"
    if s: "page_only cs ids s1" and rows: "rows = unenriched_page ?wanted (iw_calls s1)" and r: "r \<in> set rows" for s1 rows r
    using page_of [OF s, of ?wanted page r] rows r by simp
  have turn: "keeps (page_only cs ids) (if rows = [] then pass (k, False, st)
      else and_then (load_cdr_import_enrichment
             (foldl (\<lambda>ks r. add_cdr_enrich_keys (stored_source r) ks) create_cdr_enrich_key_sets rows)) (\<lambda>maps.
           and_then (look iw_now) (\<lambda>now.
           and_then (backfill_rows maps now rows k) (\<lambda>(done1, aborted).
             if aborted \<or> length rows < ?wanted then pass (done1, aborted, add_stats st (em_stats maps))
             else backfill_turns n m page done1 (add_stats st (em_stats maps))))))"
    if s: "page_only cs ids s" and io: "io (look (\<lambda>w. unenriched_page ?wanted (iw_calls w))) s = (Done rows, s1)" for rows s s1
  proof -
    have s1: "page_only cs ids s1" by (rule keepsD [OF page_only.keeps_io [OF keeps_look] s io])
    have rows: "rows = unenriched_page ?wanted (iw_calls s1)" by (rule io_look_Done [OF io])
    have each: "unfinishable r \<and> call_id r \<in> ids
        \<and> (\<forall>c\<in>set cs. call_id c = call_id r \<longrightarrow> st_enriched_at c = None)" if r: "r \<in> set rows" for r
    proof -
      obtain c where c: "c \<in> set (unenriched_page page cs)" "bare r = bare c" using page [OF s1 rows r] by blast
      have eq: "call_id r = call_id c" "unfinishable r = unfinishable c" using c(2) by (metis bare_simps(4), metis bare_simps(5))
      have "d = c" if "d \<in> set cs" "call_id d = call_id c" for d
        using that page_open [OF c(1)] assms(1) by (auto simp: distinct_map inj_on_def)
      then show ?thesis using eq c(1) page_open [OF c(1)] assms(2) by (auto simp: ids_def list_all_iff)
    qed
    have "keeps (page_only cs ids) (backfill_rows maps now rows k)"
      if "load_cdr_import_enrichment keys u = (Done maps, v)" for keys u maps v now
      using each unfinished [OF that] by (intro page_rows_keep) auto
    then show ?thesis
      by (intro keeps_if keeps_intros keeps_and_then_val [OF page_only.keeps_enrichment] Suc.IH)
  qed
  show ?case unfolding backfill_turns.simps Let_def
    by (intro keeps_if keeps_and_then [OF page_only.keeps_flags(2)] keeps_pass
        keeps_and_then_val [OF page_only.keeps_io [OF keeps_look]] turn)
qed (simp add: keeps_def)

lemma starved:
  assumes "distinct (map call_id (iw_calls w))" and "list_all unfinishable (unenriched_page page (iw_calls w))"
    and "c \<in> set (iw_calls w)" and "c \<notin> set (unenriched_page page (iw_calls w))"
    and "backfill_unenriched_cdr_records m page w = (r, w1)"
  shows "c \<in> set (iw_calls w1)"
proof -
  let ?ids = "call_id ` set (unenriched_page page (iw_calls w))"
  have "keeps (page_only (iw_calls w) ?ids) (backfill_unenriched_cdr_records m page)"
    unfolding backfill_unenriched_cdr_records_def
    by (intro keeps_intros page_only.keeps_io page_turns_keep [OF assms(1,2)])
  moreover have "page_only (iw_calls w) ?ids w" by (simp add: page_only_def)
  ultimately have "page_only (iw_calls w) ?ids w1" using assms(5) by (rule keepsD)
  moreover have "call_id c \<notin> ?ids"
  proof
    assume "call_id c \<in> ?ids"
    then obtain d where d: "d \<in> set (unenriched_page page (iw_calls w))" "call_id d = call_id c" by auto
    then have "d = c" using assms(1,3) page_open [OF d(1)] by (auto simp: distinct_map inj_on_def)
    then show False using d(1) assms(4) by simp
  qed
  ultimately show ?thesis using assms(3) by (simp add: page_only_def)
qed

end
