(* ===== verification/Import_Taken.thy ===== *)
theory Import_Taken
  imports Import_Held
begin

text \<open>
  Where a dump is, when nobody uploads: in the inbox as it was, or taken away with the time it was
  listed with. This holds of every run, also of one that fails or dies.
\<close>

definition no_upload :: "interference \<Rightarrow> bool" where
  "no_upload e = (case e of Upload_opens _ \<Rightarrow> False | Upload_writes _ _ _ \<Rightarrow> False | _ \<Rightarrow> True)"

definition no_uploads :: "import_world \<Rightarrow> bool" where
  "no_uploads w \<longleftrightarrow> list_all (list_all no_upload) (iw_events w)"

lemma interfere_disk: "no_upload e \<Longrightarrow> iw_disk (interfere e w) = iw_disk w"
  by (cases e) (simp_all add: no_upload_def split: option.split)

lemma interfere_removed [simp]: "iw_removed (interfere e w) = iw_removed w"
  by (cases e) (simp_all add: put_file_def Let_def split: option.split)

lemma fold_disk:
  "list_all no_upload es \<Longrightarrow> iw_disk (fold interfere es w) = iw_disk w \<and> iw_removed (fold interfere es w) = iw_removed w"
  by (induction es arbitrary: w) (simp_all add: interfere_disk)

lemma await_disk:
  assumes "no_uploads w" and "await w = (Done (), u)"
  shows "iw_disk u = iw_disk w \<and> iw_removed u = iw_removed w \<and> no_uploads u"
  using assms fold_disk fold_interfere(3)
  by (auto simp: await_def no_uploads_def split: list.splits)

definition kept_or_taken :: "path \<Rightarrow> disk_file \<Rightarrow> import_world \<Rightarrow> bool" where
  "kept_or_taken p f w \<longleftrightarrow>
     no_uploads w \<and> not_future w \<and> (on_disk w p = Some f \<or> (p, df_mtime f, f) \<in> set (iw_removed w))"

lemma kept_frame:
  "kept_or_taken p f w \<Longrightarrow> iw_events v = iw_events w \<Longrightarrow> iw_now v = iw_now w \<Longrightarrow> iw_disk v = iw_disk w \<Longrightarrow>
     iw_removed v = iw_removed w \<Longrightarrow> kept_or_taken p f v"
  by (simp add: kept_or_taken_def no_uploads_def not_future_def on_disk_def)

lemma kept_await:
  assumes "kept_or_taken p f w" and "await w = (Done (), u)"
  shows "kept_or_taken p f u"
proof -
  have "not_future u" using assms(1) evolvingD [OF evolving_await assms(2)] by (simp add: kept_or_taken_def evolves_def)
  then show ?thesis using assms(1) await_disk [OF _ assms(2)] by (auto simp: kept_or_taken_def on_disk_def)
qed

interpretation kept_file: import_invariant "kept_or_taken p f" "\<lambda>_. True" for p f
proof
  show "keeps (kept_or_taken p f) await"
    unfolding keeps_def
  proof (intro allI impI)
    fix w
    assume w: "kept_or_taken p f w"
    obtain u where a: "await w = (Done (), u)" by (cases "iw_events w") (auto simp: await_def)
    show "kept_or_taken p f (snd (await w))" using kept_await [OF w a] a by simp
  qed
qed (rule TrueI | erule kept_frame; simp)+

text \<open>Taking away a file that is the one that was listed.\<close>

lemma kept_remove:
  assumes "kept_or_taken p f w" and "on_disk w q = Some g" and "df_mtime g = t"
  shows "kept_or_taken p f (snd (remove_file q t w))"
proof -
  have take: "kept_or_taken p f (v\<lparr>iw_disk := AList.delete q (iw_disk v), iw_removed := iw_removed v @ [(q, t, g)]\<rparr>)"
    if "kept_or_taken p f v" "on_disk v q = Some g" for v
    using that assms(3)
    by (auto simp: kept_or_taken_def no_uploads_def not_future_def on_disk_def delete_conv' split: if_splits)
  obtain u where a: "await w = (Done (), u)" by (cases "iw_events w") (auto simp: await_def)
  have u: "kept_or_taken p f u" by (rule kept_await [OF assms(1) a])
  have disk: "map_of (iw_disk u) q = Some g"
    using await_disk [OF _ a] assms(1,2) by (simp add: kept_or_taken_def on_disk_def)
  have faults: "kept_or_taken p f (u\<lparr>iw_faults := fs\<rparr>)" for fs by (rule kept_frame [OF u]) simp_all
  show ?thesis
    using a u disk faults take [OF u] take [OF faults]
    by (auto simp: remove_file_def io_def and_then_def on_disk_def split: list.split fault.split)
qed

lemma keeps_taken: "keeps (kept_or_taken p f) (and_then (import_one_file dp file job) (settle_file file))"
  unfolding keeps_def
proof (intro allI impI)
  fix w
  assume w: "kept_or_taken p f w"
  obtain res w1 where o1: "import_one_file dp file job w = (res, w1)" by (cases "import_one_file dp file job w")
  have w1: "kept_or_taken p f w1" by (rule keepsD [OF kept_file.keeps_one_file w o1])
  have poison: "kept_or_taken p f (w1\<lparr>iw_poison := jm\<rparr>)" for jm by (rule kept_frame [OF w1]) simp_all
  show "kept_or_taken p f (snd (and_then (import_one_file dp file job) (settle_file file) w))"
  proof (cases res)
    case (Done r)
    have "kept_or_taken p f (snd (settle_file file r w1))"
    proof (cases "settled r")
      case True
      obtain g where g: "on_disk w1 (Cdr_inbox, if_name file) = Some g" "df_mtime g = if_mtime file"
        using one_file_Done [OF o1 [unfolded Done] True] w unfolding kept_or_taken_def by blast
      have "kept_or_taken p f (snd (remove_file (Cdr_inbox, if_name file) (if_mtime file)
          (w1\<lparr>iw_poison := clear_poison (Some (if_name file)) (iw_poison w1)\<rparr>)))"
        by (rule kept_remove [OF poison _ g(2)]) (use g(1) in \<open>simp add: on_disk_def\<close>)
      then show ?thesis using True by (simp add: settle_file_def settled_def and_then_def change_def)
    next
      case False
      then show ?thesis using w1 poison by (auto simp: settle_file_def settled_def change_def pass_def split: option.split)
    qed
    then show ?thesis using o1 Done by (simp add: and_then_def)
  qed (use o1 w1 in \<open>simp_all add: and_then_def\<close>)
qed

interpretation kept: job_invariant "kept_or_taken p f" "\<lambda>_. True" dp for p f dp
proof
  show "keeps (kept_or_taken p f) (and_then (import_one_file dp g job) (settle_file g))" for g job
    by (rule keeps_taken)
qed (erule kept_frame; simp)+

end
