(* ===== verification/Import_Example.thy ===== *)
theory Import_Example
  imports Import_Job Import_Backfill
begin

text \<open>A dump with one call, and worlds with it, on which the properties of the import are applied.\<close>

section \<open>A dump\<close>

definition dump_name :: string where
  "dump_name = ''20240102_030405''"

definition header_line :: text16 where
  "header_line = csv_line (map units cdr_columns)"

definition call_fields :: "string \<Rightarrow> string \<Rightarrow> text16 list" where
  "call_fields key date = units key # units date # replicate (cdr_column_count - 2) []"

definition call_line :: text16 where
  "call_line = csv_line (call_fields ''7'' ''2024-01-02 03:04:05'')"

definition dump_text :: text16 where
  "dump_text = header_line @ 10 # call_line @ [10]"

definition dump :: disk_file where
  "dump = \<lparr>df_regular = True, df_size = 4000, df_mtime = 1000, df_text = dump_text\<rparr>"

definition no_date_parse :: "string \<Rightarrow> int option" where
  "no_date_parse s = None"

text \<open>Lines without a break in them.\<close>

definition one_line :: "text16 \<Rightarrow> bool" where
  "one_line u = list_all (\<lambda>c. c \<notin> {10, 13, 8232, 8233}) u"

lemma read_one_line: "one_line u \<Longrightarrow> read_lines_from cur (u @ 10 # rest) = (cur @ u) # read_lines_from [] rest"
  by (induction u arbitrary: cur) (auto simp: one_line_def)

lemma one_line_join: "\<forall>f\<in>set fs. one_line f \<Longrightarrow> one_line sep \<Longrightarrow> one_line (join_with sep fs)"
  by (induction sep fs rule: join_with.induct) (auto simp: one_line_def)

lemma one_line_double: "one_line f \<Longrightarrow> one_line (in_quotes (double_quotes f))"
  by (induction f) (auto simp: one_line_def)

lemma one_line_csv: "\<forall>f\<in>set fs. one_line f \<Longrightarrow> one_line (csv_line fs)"
  unfolding csv_line_def by (rule one_line_join) (auto simp: one_line_double one_line_def [of "[semicolon]"])

lemma one_line_units: "list_all (\<lambda>c. c \<noteq> CHR 0x0A \<and> c \<noteq> CHR 0x0D) s \<Longrightarrow> one_line (units s)"
proof (induction s)
  case (Cons c s)
  have "of_char c < (256::nat)" by simp
  moreover have "of_char c \<noteq> (10::nat)" "of_char c \<noteq> (13::nat)"
    using Cons.prems by (auto simp: char_of_eq_iff dest: arg_cong [where f = char_of])
  moreover have "of_char c \<noteq> (8232::nat)" "of_char c \<noteq> (8233::nat)" using calculation(1) by linarith+
  ultimately show ?case using Cons by (auto simp: one_line_def units_def)
qed (simp add: one_line_def units_def)

definition column_name :: "string \<Rightarrow> bool" where
  "column_name s \<longleftrightarrow>
     s \<noteq> [] \<and> list_all (\<lambda>c. c \<noteq> CHR 0x0A \<and> c \<noteq> CHR 0x0D) s \<and> camel_char (hd s) \<and> camel_char (last s)"

lemma column_names: "list_all column_name cdr_columns"
  by code_simp

lemma camel_solid: "camel_char c \<Longrightarrow> \<not> regex_space (of_char c)"
  by (auto simp: camel_char_def is_digit_def less_eq_char_def regex_space_def)

lemma trim_solid: "u \<noteq> [] \<Longrightarrow> \<not> regex_space (hd u) \<Longrightarrow> \<not> regex_space (last u) \<Longrightarrow> trim16 u = u"
  by (cases u) (simp_all add: trim16_def hd_rev [symmetric] dropWhile_eq_self_iff)

lemma column_trim: "column_name s \<Longrightarrow> trim16 (units s) = units s"
  by (rule trim_solid) (auto simp: column_name_def units_def hd_map last_map camel_solid)

lemma same_names: "list_all (\<lambda>(col, h). h = units col) (zip cs (map units cs))"
  by (induction cs) simp_all

lemma header_read: "headers_match_canonical (parse_cdr_header_line header_line)"
proof -
  have ne: "map units cdr_columns \<noteq> []" by (simp add: cdr_columns_def)
  have "trim16 (strip_bom header_line) = header_line"
    using dump_line_join [of "map double_quotes (map units cdr_columns)"] ne
    by (simp add: header_line_def csv_line_def dump_line_def comp_def)
  then have "parse_cdr_header_line header_line = map (\<lambda>s. trim16 (units s)) cdr_columns"
    using split_csv_line [OF ne] by (simp add: parse_cdr_header_line_def header_line_def comp_def)
  also have "\<dots> = map units cdr_columns"
    using column_names column_trim by (auto simp: list_all_iff)
  finally show ?thesis using same_names by (simp add: headers_match_canonical_def)
qed

lemma call_fields_length: "length (call_fields k d) = cdr_column_count"
  by (simp add: call_fields_def cdr_column_count_def cdr_columns_def)

lemma dump_lines: "read_lines dump_text = [header_line, call_line]"
proof -
  have "one_line header_line"
    unfolding header_line_def
    using column_names one_line_units by (intro one_line_csv) (auto simp: list_all_iff column_name_def)
  moreover have "one_line call_line"
    unfolding call_line_def call_fields_def
    by (intro one_line_csv) (auto intro!: one_line_units simp: one_line_def [of "[]"])
  ultimately show ?thesis
    by (simp add: read_lines_def dump_text_def read_one_line [of header_line] read_one_line [of call_line])
qed

lemma columns_two: "\<exists>cs. cdr_columns = ''cdr_id'' # ''cdr_date'' # cs"
  unfolding cdr_columns_def by blast

lemma call_classified:
  "classify_cdr_data_line no_date_parse call_line =
     Line_ok \<lparr>pc_fields = zip cdr_columns (call_fields ''7'' ''2024-01-02 03:04:05''),
       pc_prisma = zip (map csv_header_to_camel cdr_columns) (call_fields ''7'' ''2024-01-02 03:04:05'')
         @ [(''cdrDay'', units ''2024-01-02''), (''cdrTime'', units ''03:04:05'')],
       pc_cdr_id = units ''7'',
       pc_cdr_at = Some 1704164645000\<rparr>"
proof -
  let ?fs = "zip cdr_columns (call_fields ''7'' ''2024-01-02 03:04:05'')"
  have fields: "field ''cdr_id'' ?fs = units ''7''" "field ''cdr_date'' ?fs = units ''2024-01-02 03:04:05''"
  proof -
    obtain cs where cs: "cdr_columns = ''cdr_id'' # ''cdr_date'' # cs" using columns_two by blast
    show "field ''cdr_id'' ?fs = units ''7''" "field ''cdr_date'' ?fs = units ''2024-01-02 03:04:05''"
      unfolding cs call_fields_def by (simp_all add: field_def)
  qed
  have parts: "split_cdr_date_parts (clock_part (units ''2024-01-02 03:04:05'')) = (''2024-01-02'', ''03:04:05'')"
    "parse_cdr_date no_date_parse (clock_part (units ''2024-01-02 03:04:05'')) = Some 1704164645000"
    "trim16 (units ''7'') = units ''7''" "units ''7'' \<noteq> []"
  proof -
    have clock: "clock_part (units ''2024-01-02 03:04:05'') = ''2024-01-02 03:04:05''"
    proof -
      have "trim16 (units ''2024-01-02 03:04:05'') = units ''2024-01-02 03:04:05''"
        by (rule trim_solid) (simp_all add: units_def regex_space_def)
      then show ?thesis by (simp only: clock_part_def latin_units)
    qed
    show "split_cdr_date_parts (clock_part (units ''2024-01-02 03:04:05'')) = (''2024-01-02'', ''03:04:05'')"
      "parse_cdr_date no_date_parse (clock_part (units ''2024-01-02 03:04:05'')) = Some 1704164645000"
      unfolding clock by code_simp+
    show "trim16 (units ''7'') = units ''7''" "units ''7'' \<noteq> []"
      by (simp_all add: trim16_def units_def regex_space_def)
  qed
  have vals: "dump_field_values call_line = Some (call_fields ''7'' ''2024-01-02 03:04:05'')"
    unfolding call_line_def by (rule csv_line_values [OF call_fields_length])
  show ?thesis
    unfolding classify_cdr_data_line_def vals option.case Let_def fields parts(1,2,3) prod.sel
    by (simp only: parts(4) list.distinct if_False simp_thms)
qed

lemma good_example: "good_dump no_date_parse dump"
proof -
  have "well_formed no_date_parse call_line" by (simp add: well_formed_def call_classified)
  then show ?thesis
    by (simp add: good_dump_def dump_def good_header_def body_lines_def dump_lines header_read cdr_max_file_bytes_def)
qed

section \<open>Worlds\<close>

definition import_example :: "(path \<times> disk_file) list \<Rightarrow> stored_call list \<Rightarrow> import_world" where
  "import_example files stored =
     \<lparr>iw_now = 10000000, iw_faults = [], iw_events = [], iw_disk = files, iw_slots = Map.empty, iw_removed = [],
      iw_target = None, iw_dirty = (\<lambda>_. False), iw_calls = stored, iw_smg_calls = [], iw_poison = [],
      iw_smg_poison = [], iw_runs = [], iw_drains = [], iw_passes = [], iw_endpoints = [], iw_pstn_ready = False,
      iw_pstn_cache = Map.empty, iw_pstn_answers = [], iw_geo_ready = False, iw_geo_cache = Map.empty,
      iw_geo_answers = []\<rparr>"

definition dump_waits :: import_world where
  "dump_waits = import_example [((Cdr_inbox, dump_name), dump)] []"

lemma dump_waits_ready:
  "undisturbed dump_waits" "not_future dump_waits" "iw_target dump_waits = None" "distinct (map fst (iw_disk dump_waits))"
  "iw_removed dump_waits = []" "ready_inbox no_date_parse dump_waits" "on_disk dump_waits (Cdr_inbox, dump_name) = Some dump"
  "is_inbox_data_file dump_name"
proof -
  have w: "iw_now dump_waits = 10000000" "iw_slots dump_waits = Map.empty" "iw_poison dump_waits = []"
    "on_disk dump_waits = (\<lambda>p. if p = (Cdr_inbox, dump_name) then Some dump else None)"
    by (simp_all add: dump_waits_def import_example_def on_disk_def fun_eq_iff)
  show "undisturbed dump_waits" "iw_target dump_waits = None" "distinct (map fst (iw_disk dump_waits))" "iw_removed dump_waits = []"
    by (simp_all add: dump_waits_def import_example_def undisturbed_def)
  show "not_future dump_waits" by (simp add: not_future_def w dump_def)
  show "on_disk dump_waits (Cdr_inbox, dump_name) = Some dump" by (simp add: w)
  show "is_inbox_data_file dump_name" by code_simp
  show "ready_inbox no_date_parse dump_waits"
    using good_example
    by (simp add: ready_inbox_def ready_file_def w is_young_dump_def is_stor_busy_def stor_completed_size_def
        is_poisoned_def cdr_stor_settle_ms_def) (simp add: dump_def)
qed

end
