(* ===== verification/Vm_Properties.thy ===== *)
theory Vm_Properties
  imports Vm_Progress
begin

text \<open>
  The properties of the VoIPmonitor matcher, its client, its queue and its job, over the
  definitions of the preceding theories, with small concrete inputs for those that have
  hypotheses.
\<close>

section \<open>Lookups of a bucket, and a service without calls\<close>

lemma probe_queries_count:
  "ps_seen (probe_queries client t0 t1 qs ps) = ps_seen ps
   \<and> length (ps_attempts (probe_queries client t0 t1 qs ps)) \<le> length (ps_attempts ps) + length qs"
proof (induction qs arbitrary: ps)
  case (Cons q qs)
  show ?case
  proof (cases "get_calls client (length (ps_attempts ps)) t0 t1 q")
    case (Inl e)
    then show ?thesis using Cons [of "ps\<lparr>ps_attempts := ps_attempts ps @
        [JObj [(''callId'', JStr q), (''hits'', JNum 0), (''error'', JStr e)]]\<rparr>"] by simp
  next
    case (Inr hits)
    then show ?thesis using Cons [of "ps\<lparr>ps_attempts := ps_attempts ps @
        [JObj [(''callId'', JStr q), (''hits'', JNum 0)]]\<rparr>"] by (cases hits) (simp_all add: Let_def)
  qed
qed simp

definition probes_within :: "int \<Rightarrow> probe_state \<Rightarrow> bool" where
  "probes_within budget ps \<longleftrightarrow>
     length (ps_attempts ps) \<le> 4 * length (ps_seen ps) \<and> int (length (ps_seen ps)) \<le> max 0 budget"

lemma probe_raws_within:
  "probes_within budget ps \<Longrightarrow> probes_within budget (probe_raws client t0 t1 budget raws ps)"
proof (induction raws arbitrary: ps)
  case (Cons raw raws)
  define ps1 where "ps1 = probe_queries client t0 t1 (call_id_query_variants (trim raw)) ps"
  have "probes_within budget (ps1\<lparr>ps_seen := ps_seen ps1 @ [normalize_call_id (trim raw)]\<rparr>)"
    if "int (length (ps_seen ps)) < budget"
    using Cons.prems that probe_queries_count [of client t0 t1 "call_id_query_variants (trim raw)" ps]
      call_id_query_variants_length [of "trim raw"] by (simp add: probes_within_def ps1_def)
  then show ?case using Cons by (simp add: Let_def ps1_def)
qed simp

lemma probe_cands_within:
  "probes_within budget ps \<Longrightarrow> probes_within budget (probe_cands client t0 t1 budget cdrs ps)"
proof (induction cdrs arbitrary: ps)
  case (Cons cdr cdrs)
  then show ?case using probe_raws_within by (simp add: Let_def)
qed simp

lemma match_bucket_probes:
  "st_probes (bo_stats (match_bucket options client now cands))
   \<le> 4 * max 0 (st_probe_budget (bo_stats (match_bucket options client now cands)))"
proof (cases cands)
  case Nil
  then show ?thesis by (simp add: match_bucket_def Let_def empty_stats_def)
next
  case (Cons c cs)
  have p: "int (length (ps_attempts (probe_cands client t0 t1 b ms \<lparr>ps_index = idx, ps_attempts = [], ps_seen = []\<rparr>)))
      \<le> 4 * max 0 b" for t0 t1 b ms idx
    using probe_cands_within [of b "\<lparr>ps_index = idx, ps_attempts = [], ps_seen = []\<rparr>" client t0 t1 ms]
    by (simp add: probes_within_def)
  show ?thesis unfolding match_bucket_def Let_def Cons list.case
    by (split sum.split) (auto simp: empty_stats_def p)
qed

lemma fetch_slices_silent:
  assumes "\<And>x y. fetch x y = Inr ([], False)"
  shows "fetch_slices fetch ss meta = Inr (map (\<lambda>_. []) ss, meta)"
proof -
  have a: "fetch_slice_adaptive fetch a b meta = Inr ([], meta)" for a b
    by (subst fetch_slice_adaptive.simps) (simp add: assms looks_like_result_cap_def Let_def)
  show ?thesis by (induction ss) (auto simp: a)
qed

lemma silent_list_range:
  assumes "\<And>x y. fetch_calls date_parse (fetches 0) cfg (slice_params x y) = Inr ([], False)"
  shows "list_range (voip_client_of date_parse fetches cfg) a b
   = Inr ([], Some \<lparr>slice_splits = 0, fm_clipped = False, suspected_cap = False\<rparr>)"
proof -
  have e: "concat (map (\<lambda>_. []) ss) = []" for ss :: "(int \<times> int) list" by simp
  show ?thesis unfolding voip_client_of_def list_voip_calls_range_def Let_def
    by (simp add: fetch_slices_silent [OF assms] e del: concat_map_singleton)
qed

lemma process_hour_error:
  "hm_error (snd (process_hour dp client gui lane hour now db))
   = bo_error (match_bucket (hour_options db lane hour now gui (hour_candidates dp db lane hour now)) client now
       (hour_candidates dp db lane hour now))"
  unfolding process_hour_def Let_def by (simp split: option.splits prod.splits)

lemma match_bucket_no_error:
  assumes "\<And>a b. \<exists>r. list_range client a b = Inr r"
  shows "bo_error (match_bucket options client now cands) = None"
proof (cases cands)
  case (Cons c cs)
  have "list_range client a b \<noteq> Inl e" for a b e using assms [of a b] by auto
  then show ?thesis unfolding match_bucket_def Let_def Cons list.case
    by (auto split: sum.split)
qed (simp add: match_bucket_def Let_def)

text \<open>A row that is open in a lane and is not a match without a card address.\<close>

definition workable :: "vm_db \<Rightarrow> int \<Rightarrow> match_lane option \<Rightarrow> satel_row \<Rightarrow> bool" where
  "workable db now lane r \<longleftrightarrow>
     open_row db now lane r \<and> (case db_links db (row_id r) of None \<Rightarrow> True | Some l \<Rightarrow> \<not> blank_match l)"

context vm_service
begin

lemma process_hour_workable:
  assumes e: "hm_error (snd (process_hour dp client gui lane hour now db)) = None"
    and d: "distinct (map row_id (db_rows db))" and n: "now < queue_exhausted_at" and r: "r \<in> set (db_rows db)"
  shows "workable (fst (process_hour dp client gui lane hour now db)) now any_lane r
    \<longleftrightarrow> workable db now any_lane r \<and> r \<notin> set (hour_rows db lane hour now)"
proof (cases "r \<in> set (hour_rows db lane hour now)")
  case True
  then show ?thesis using process_hour_closes [OF e d True n, of any_lane]
    by (auto simp: workable_def)
next
  case False
  then have "db_links (fst (process_hour dp client gui lane hour now db)) (row_id r) = db_links db (row_id r)"
    by (rule process_hour_other [OF _ d r])
  then have "workable (fst (process_hour dp client gui lane hour now db)) now any_lane r = workable db now any_lane r"
    unfolding workable_def open_row_def by (simp only:)
  then show ?thesis using False by simp
qed

end

section \<open>Inputs of the examples\<close>

definition example_call :: vm_call where
  "example_call =
     \<lparr>vm_cdr_id = ''17'', vm_call_id = ''ab12@pbx'', vm_call_date = Some 1700000000000, vm_call_end = None,
      vm_duration = 5, vm_connect_duration = 4, vm_caller = ''101'', vm_called = ''202'',
      vm_sip_caller_ip = ''10.0.0.1'', vm_sip_called_ip = ''10.0.0.2''\<rparr>"

definition example_candidate :: cdr_candidate where
  "example_candidate =
     \<lparr>source_record_id = ''r1'', source_system = source_satel, source_cdr_id = ''c1'',
      setup_time = 1700000000000, duration_sec = Some 5, connect_duration_sec = None,
      caller = ''101'', called = ''202'', caller_numbers = [''101''], called_numbers = [''202''],
      caller_ip = [], called_ip = [], sip_call_ids = [''AB12''], in_call_ids = [''AB12''],
      out_call_ids = [], in_caller = ''101'', in_called = ''202'', out_caller = [], out_called = [],
      in_ip = [], out_ip = []\<rparr>"

definition example_options :: matcher_options where
  "example_options =
     \<lparr>o_gui_base = ''http://vm'', o_card_template = None, o_call_id_window_ms = None,
      o_fallback_window_ms = None, o_fallback_window_max_ms = None, o_min_score = None,
      o_disambiguity_margin = None, o_number_suffix_len = None, o_probe_budget = Some 4,
      o_reserved_cdr_ids = [''17'']\<rparr>"

definition example_config :: client_config where
  "example_config =
     \<lparr>cc_api_url = ''http://vm'', cc_user = ''u'', cc_password = ''p'', cc_max_bytes = None\<rparr>"

text \<open>A service that answers every request with no calls.\<close>

definition silent_service :: "nat \<Rightarrow> http_fetch" where
  "silent_service n url form = Inr (200, ''[]'')"

definition example_row :: satel_row where
  "example_row =
     \<lparr>row_id = ''r1'', row_cdr_id = ''c1'', row_cdr_at = Some 1700000000000, row_imported_at = 1700000000000,
      bill_ani = ''101'', bill_dnis = ''202'', in_ani = [], in_dnis = [], out_ani = [], out_dnis = [],
      elapsed_time = ''5000'', connect_time = [], disconnect_time = [],
      remote_src_sig_address = [], remote_dst_sig_address = [], local_src_sig_address = [],
      local_dst_sig_address = [], out_leg_call_id = [], src_out_leg_call_id = [],
      in_leg_call_id = ''AB12'', src_in_leg_call_id = [], src_in_leg_conf_id = [], conf_id = []\<rparr>"

definition example_db :: vm_db where
  "example_db = \<lparr>db_rows = [example_row], db_links = Map.empty\<rparr>"

definition example_now :: int where
  "example_now = 1700000100000"

section \<open>The matcher\<close>

text \<open>
  C11: Whatever the VoIPmonitor service answers and whatever the CDR rows of an hour are, the audit
  that runs before an hour is written (\<open>auditLinkInvariants\<close>) finds nothing in the results of
  \<open>matchBucket\<close> but, at most, a card address that contains the legacy \<open>fId\<close> marker: no address
  without a match, no miss without a reason, no fallback match with Call-ID hits, no exact match
  whose call has another Call-ID, no VoIPmonitor call given to two CDRs unless both are exact.
\<close>

theorem bucket_audit_clean:
  "set (audit_link_invariants cands
     (bo_results (match_bucket options (voip_client_of date_parse fetches cfg) now cands)))
   \<subseteq> range Legacy_fid_url"
  by (rule vm_client.match_bucket_audit)

text \<open>
  C14: A CDR is matched by its Call-ID exactly when one of its SIP Call-IDs is in the index of the
  calls that were fetched; numbers, addresses and times never override that.
\<close>

theorem exact_iff_indexed:
  assumes "wf_index idx" and "i < length cands"
  shows "r_status (assign_bucket options cands idx opts now fm probes ! i) = Matched_exact
     \<longleftrightarrow> list_ex (call_id_in_index idx) (sip_call_ids (cands ! i))"
  using assign_bucket_cases [OF assms, of options opts now fm probes]
  by (auto simp: fallback_result_ok_def miss_like_def list_ex_iff split: if_splits)

lemma example_wf_index: "wf_index (build_call_index [example_call])"
  by (rule wf_index_build) (simp add: wf_call_def example_call_def; code_simp)

lemma example_indexed: "list_ex (call_id_in_index (build_call_index [example_call])) (sip_call_ids example_candidate)"
  by code_simp

theorem exact_iff_indexed_witness:
  "r_status (assign_bucket example_options [example_candidate] (build_call_index [example_call])
     (resolve_opts example_options) 0 [] [] ! 0) = Matched_exact"
  using exact_iff_indexed [OF example_wf_index, of 0 "[example_candidate]"] example_indexed by simp



text \<open>
  A score is between 0 and 100, whatever the candidate, the call, the suffix length and the mode.
\<close>

theorem score_one_bounds: "0 \<le> s_score (score_one cdr hit n strong) \<and> s_score (score_one cdr hit n strong) \<le> 100"
  by (rule score_bounds)

text \<open>
  The fallback candidates of a CDR come in order of falling score, so the first is the best
  and its lead over the second is its lead over all of them.
\<close>

theorem fallback_order: "sorted_wrt (\<lambda>a b. s_score b \<le> s_score a) (fallback_scored cdr idx opts used)"
  by (rule fallback_scored_sorted)

text \<open>
  Two Call-IDs count as equal exactly when they are the same text up to case and surrounding
  blanks, or have the same non-empty normal form; the relation is reflexive and symmetric, and an
  index key made of one is a key of the other only when they are equal.
\<close>

theorem call_ids_equal_equiv:
  "call_ids_equal a a \<and> call_ids_equal a b = call_ids_equal b a
   \<and> (call_ids_equal a b \<and> normalize_call_id a \<noteq> []
        \<longleftrightarrow> set (call_id_variants a) \<inter> set (call_id_variants b) \<noteq> {})"
  using call_ids_equal_normalize [of a b]
  by (auto simp: call_id_variants_eq call_ids_equal_sym [of a b]) (simp add: call_ids_equal_def)

text \<open>
  The options of the matcher are all positive after \<open>resolveOpts\<close>, and the wide fallback window
  is never smaller than the near one.
\<close>

theorem resolve_opts_positive:
  "0 < m_call_id_window_ms (resolve_opts o') \<and> 0 < m_fallback_ms (resolve_opts o')
   \<and> m_fallback_ms (resolve_opts o') \<le> m_fallback_max_ms (resolve_opts o')
   \<and> 0 < m_min_score (resolve_opts o') \<and> 0 < m_margin (resolve_opts o')
   \<and> 0 < m_suffix_len (resolve_opts o')"
  by (simp add: resolve_opts_def Let_def positive_or_def call_id_window_ms_def fallback_window_ms_def
      min_score_default_def disambiguity_margin_def number_suffix_len_def split: option.splits)

text \<open>
  C38: The lookups an hour makes are bounded: at most four for each of the Call-IDs the budget of
  the bucket allows.
\<close>

theorem probes_bounded:
  "st_probes (bo_stats (match_bucket options client now cands))
   \<le> 4 * max 0 (st_probe_budget (bo_stats (match_bucket options client now cands)))"
  by (rule match_bucket_probes)

section \<open>The client\<close>





text \<open>
  The slices of a range fetch lie in the range, are at most a quarter of an hour long and leave
  no instant of the range out.
\<close>

theorem range_slices_partition:
  assumes "a < b"
  shows "list_all (\<lambda>s. a \<le> fst s \<and> fst s < snd s \<and> snd s \<le> b \<and> snd s - fst s \<le> range_slice_ms) (range_slices a b)
    \<and> (a \<le> d \<and> d \<le> b \<longleftrightarrow> list_ex (\<lambda>s. fst s \<le> d \<and> d \<le> snd s) (range_slices a b))"
proof -
  define ss where "ss = range_slices a b"
  have b: "a \<le> fst s \<and> fst s < snd s \<and> snd s \<le> b \<and> snd s - fst s \<le> range_slice_ms" if "s \<in> set ss" for s
    using range_slices_bounds [of "fst s" "snd s" a b] that unfolding ss_def by simp
  have c: "\<exists>s \<in> set ss. fst s \<le> d \<and> d \<le> snd s" if in_range: "a \<le> d" "d \<le> b"
  proof -
    obtain x y where "(x, y) \<in> set ss" "x \<le> d" "d \<le> y"
      using range_slices_cover [OF assms in_range] unfolding ss_def by blast
    then show ?thesis by (intro bexI [of _ "(x, y)"]) simp_all
  qed
  have "a \<le> d \<and> d \<le> b \<longleftrightarrow> (\<exists>s \<in> set ss. fst s \<le> d \<and> d \<le> snd s)"
    using b c by (meson order_trans)
  then show ?thesis using b unfolding ss_def [symmetric] list_all_iff list_ex_iff by blast
qed

theorem range_slices_partition_witness:
  "list_ex (\<lambda>s. fst s \<le> 7 \<and> 7 \<le> snd s) (range_slices 0 2000000)"
  using range_slices_partition [of 0 2000000 7] by (simp del: range_slices.simps)

text \<open>
  The legs a matched link stores are the legs the next run reads back from it
  (\<open>JSON.stringify\<close> into the column, \<open>parseVoipmonitorLegs\<close> out of it).
\<close>

theorem legs_roundtrip:
  assumes "pred_option leg_ok (leg_in ls)" and "pred_option leg_ok (leg_out ls)"
  shows "map_option parse_voipmonitor_legs (json_parse (json_stringify (legs_json ls))) = Some ls"
proof -
  have "parse_voipmonitor_legs (legs_json ls) = ls"
    using assms by (intro parse_legs_json) (auto simp: option.pred_set)
  then show ?thesis by (simp add: json_parse_stringify [OF wf_legs_json] del: wf_jval.simps)
qed

definition example_leg :: leg_ref where
  "example_leg = \<lparr>leg_url = ''http://vm/x'', leg_cdr_id = ''17'', leg_call_id = ''ab12''\<rparr>"

theorem legs_roundtrip_witness:
  "map_option parse_voipmonitor_legs (json_parse (json_stringify
     (legs_json \<lparr>leg_in = Some example_leg, leg_out = None\<rparr>)))
   = Some \<lparr>leg_in = Some example_leg, leg_out = None\<rparr>"
  by (rule legs_roundtrip) (simp_all add: leg_ok_def example_leg_def)

text \<open>
  The throttle spaces the requests of a client by at least the gap of its rate limit, whatever
  the clock shows when each of them comes.
\<close>

theorem throttle_gap:
  assumes "0 \<le> gap"
  shows "sorted_wrt (\<lambda>s t. s + gap \<le> t) (throttle_starts gap slot nows)"
  using assms by (rule throttle_spaced)

theorem throttle_gap_witness: "sorted_wrt (\<lambda>s t. s + 50 \<le> t) (throttle_starts 50 0 [100, 100, 120, 400])"
  using throttle_gap [of 50 0 "[100, 100, 120, 400]"] by (simp del: throttle_starts.simps)

section \<open>The queue\<close>

text \<open>
  A row of the queue is in exactly one of the two lanes.
\<close>

theorem lanes_disjoint_cover:
  "open_row db now (Some Live) r \<noteq> open_row db now (Some Archive) r \<longleftrightarrow> open_row db now None r"
  by (auto simp: open_row_def split: option.splits)

text \<open>
  When a lane has work, the hour it picks has rows to match, all of them open in that lane and
  inside that hour; when it picks none, there is no work.
\<close>

theorem picked_hour_has_rows:
  "case pick_next_hour db now lane of
     None \<Rightarrow> \<not> has_voipmonitor_work db now (Some lane)
   | Some hour \<Rightarrow> hour_rows db lane hour now \<noteq> []
       \<and> list_all (\<lambda>r. open_row db now (Some lane) r
           \<and> (\<exists>t. row_cdr_at r = Some t \<and> hour \<le> t \<and> t < hour + 3600000)) (hour_rows db lane hour now)"
proof (cases "pick_next_hour db now lane")
  case None
  then show ?thesis by (simp add: pick_next_hour_None [symmetric])
next
  case (Some hour)
  from pick_next_hour_row [OF this] obtain r t where
    "r \<in> set (db_rows db)" "open_row db now (Some lane) r" "row_cdr_at r = Some t" "hour = hour_of t" by blast
  then have "hour_rows db lane hour now \<noteq> []" using hour_rows_nonempty by blast
  moreover have "list_all (\<lambda>r. open_row db now (Some lane) r
           \<and> (\<exists>t. row_cdr_at r = Some t \<and> hour \<le> t \<and> t < hour + 3600000)) (hour_rows db lane hour now)"
    unfolding list_all_iff using hour_rows_open [of _ db lane hour now] by blast
  ultimately show ?thesis using Some by simp
qed

text \<open>
  C12: A pass over an hour that had no fetch error closes its rows: each has a link with one attempt
  more, and the row is due again at once only when the link is a match without a card address.
\<close>

theorem hour_closes_rows:
  assumes "hm_error (snd (process_hour dp (voip_client_of date_parse fetches cfg) gui lane hour now db)) = None"
    and "distinct (map row_id (db_rows db))" and "r \<in> set (hour_rows db lane hour now)"
    and "now < queue_exhausted_at"
  shows "\<exists>l. db_links (fst (process_hour dp (voip_client_of date_parse fetches cfg) gui lane hour now db)) (row_id r)
       = Some l \<and> lk_attempts l = attempts_of (db_links db) (row_id r) + 1 \<and> (\<not> due_link now l \<or> blank_match l)"
proof -
  obtain res where res: "readable res"
    "db_links (fst (process_hour dp (voip_client_of date_parse fetches cfg) gui lane hour now db)) (row_id r)
     = Some (link_of_result now (attempts_of (db_links db) (row_id r) + 1) res)"
    using vm_client.process_hour_link [OF assms(1-3)] by blast
  then show ?thesis using link_due [OF res(1) assms(4)]
    by (auto simp: link_of_result_def Let_def)
qed

lemma silent_calls:
  "fetch_calls (\<lambda>_. None) (silent_service n) example_config params = Inr ([], False)"
proof -
  have "api_endpoint ''http://vm'' = Inr ''http://vm/php/api.php''" by code_simp
  moreover have "parse_voip_calls_response (\<lambda>_. None) ''[]'' = Inr []" by code_simp
  moreover have "trim ''http://vm'' \<noteq> []" by code_simp
  ultimately show ?thesis
    by (simp add: fetch_calls_def post_task_def silent_service_def example_config_def max_response_bytes_def Let_def)
qed

lemma silent_range:
  "list_range (voip_client_of (\<lambda>_. None) silent_service example_config) a b
   = Inr ([], Some \<lparr>slice_splits = 0, fm_clipped = False, suspected_cap = False\<rparr>)"
  by (rule silent_list_range) (rule silent_calls)

lemma example_hour_rows: "hour_rows example_db Live (hour_of 1700000000000) example_now = [example_row]"
  by code_simp

theorem hour_closes_rows_witness:
  "\<exists>l. db_links (fst (process_hour (\<lambda>_. None) (voip_client_of (\<lambda>_. None) silent_service example_config)
        ''http://vm'' Live (hour_of 1700000000000) example_now example_db)) (row_id example_row)
      = Some l \<and> lk_attempts l = attempts_of (db_links example_db) (row_id example_row) + 1
      \<and> (\<not> due_link example_now l \<or> blank_match l)"
proof (rule hour_closes_rows)
  show "hm_error (snd (process_hour (\<lambda>_. None) (voip_client_of (\<lambda>_. None) silent_service example_config)
        ''http://vm'' Live (hour_of 1700000000000) example_now example_db)) = None"
    unfolding process_hour_error by (rule match_bucket_no_error) (blast intro: silent_range)
  show "distinct (map row_id (db_rows example_db))" by (simp add: example_db_def)
  show "example_row \<in> set (hour_rows example_db Live (hour_of 1700000000000) example_now)"
    unfolding example_hour_rows by simp
  show "example_now < queue_exhausted_at" by (simp add: example_now_def queue_exhausted_at_def)
qed





text \<open>
  C36: The retry time of a miss is its backoff, at least 15 seconds and at most 15 minutes ahead, or
  the year 9999, and that exactly for a miss that is one of the four reasons that mean that
  VoIPmonitor has no such call and that has been tried twelve times. The reason is read back from
  the evidence text that was stored, also when it was compacted.
\<close>

theorem retry_time_of_miss:
  assumes "readable_miss r" and "r_miss_reason r = Some m" and "\<not> is_matched_status (r_status r)"
  shows "next_attempt_at_for_miss n (compact_evidence r) now =
      (if max_match_attempts \<le> n \<and> m \<in> {Miss_call_id_not_in_index, Miss_empty_callid_weak_signal,
            Miss_no_candidates_in_window, Miss_fallback_below_threshold}
       then queue_exhausted_at else next_attempt_at n now)
    \<and> now + 15000 \<le> next_attempt_at n now \<and> next_attempt_at n now \<le> now + 900000"
  using next_attempt_of_miss [OF assms] next_attempt_bounds by blast

theorem retry_time_of_miss_witness:
  "next_attempt_at_for_miss 12 (compact_evidence (miss_result Miss_call_id_not_in_index [])) 0 = queue_exhausted_at
   \<and> next_attempt_at_for_miss 12 (compact_evidence (miss_result Miss_assigned_elsewhere [])) 0 = 900000"
proof -
  have r: "readable_miss (miss_result reason [])" for reason
    using readable_miss_result [of "[]" "[]" reason] by (cases reason) (auto simp: readable_def miss_result_def is_matched_status_def)
  have "next_attempt_at 12 0 = 900000" by code_simp
  then show ?thesis
    using retry_time_of_miss [OF r, of Miss_call_id_not_in_index Miss_call_id_not_in_index 12 0]
      retry_time_of_miss [OF r, of Miss_assigned_elsewhere Miss_assigned_elsewhere 12 0]
    by (simp add: miss_result_def is_matched_status_def max_match_attempts_def)
qed





section \<open>The job\<close>

text \<open>
  A run fails exactly when it attempted some hour, wrote nothing, and every attempted hour that
  had candidates ended in an error; the runtime chains another run exactly after a success that
  attempted an hour.
\<close>

theorem job_outcome:
  "(mj_status (job_summary hours) = Job_failed \<longleftrightarrow>
      list_ex hour_attempted hours \<and> \<not> list_ex (\<lambda>h. hm_written h \<noteq> 0) hours
      \<and> \<not> list_ex (\<lambda>h. hour_attempted h \<and> \<not> hour_failed h \<and> hm_candidates h \<noteq> 0) hours)
   \<and> (should_chain_voipmonitor_match (Some (job_summary hours)) \<longleftrightarrow>
      mj_status (job_summary hours) = Job_success \<and> list_ex hour_attempted hours)"
proof -
  have w: "\<not> list_ex (\<lambda>h. hm_written h \<noteq> 0) hours \<longleftrightarrow> (\<forall>h \<in> set hours. hm_written h = 0)"
    by (simp add: list_ex_iff)
  have f: "\<not> list_ex (\<lambda>h. hour_attempted h \<and> \<not> hour_failed h \<and> hm_candidates h \<noteq> 0) hours
      \<longleftrightarrow> (\<forall>h \<in> set hours. hour_attempted h \<longrightarrow> hour_failed h \<or> hm_candidates h = 0)"
    by (induction hours) auto
  have a: "list_ex hour_attempted hours \<longleftrightarrow> (\<exists>h \<in> set hours. hour_attempted h)"
    by (simp add: list_ex_iff)
  show ?thesis unfolding w f a by (rule conjI [OF job_summary_failed job_chain])
qed

text \<open>
  The archive loop of a run ends at the latest at the first reading of the clock that is past
  its two-minute budget, whatever the service and the tables do in between.
\<close>

theorem archive_loop_ends:
  assumes "list_ex (\<lambda>t. deadline \<le> fst t) turns"
  shows "\<exists>out. archive_loop date_parse gui deadline turns True db hours = Some out"
  using archive_loop_returns [of turns deadline] assms by (auto simp: list_ex_iff)

theorem archive_loop_ends_witness:
  "\<exists>out. archive_loop (\<lambda>_. None) ''http://vm'' 5 [(7, 7, voip_client_of (\<lambda>_. None) silent_service example_config)]
      True example_db [] = Some out"
  by (rule archive_loop_ends) simp

text \<open>
  Without a template, a matched CDR gets a card address exactly when the address of the GUI is
  configured and the VoIPmonitor call has a Call-ID.
\<close>

theorem card_url_empty:
  "build_card_url [] gui_base cdr_id call_id call_date = [] \<longleftrightarrow>
     strip_trailing_slashes (trim gui_base) = [] \<or> call_id = []"
  by (simp add: build_card_url_def Let_def strip_quotes_def card_filter_def)

end
