(* ===== verification/Job_Properties.thy ===== *)
theory Job_Properties
  imports Job_Scheduler
begin

text \<open>
  The properties of the job runtime and of the scheduler.
\<close>

section \<open>The runtime\<close>

text \<open>
  C16: In every state the runtime reaches without accepting a job while the rejection of an earlier
  one is still to be handled, no action is queued, running or occupied twice, the flags are exactly
  those of the active actions, at most three jobs run, and a vacuum excludes every job that touches
  the call records.
\<close>

theorem calm_runtime_exclusive:
  assumes "calm_reachable st"
  shows "distinct (active_actions st) \<and> set (active_actions st) = rt_in_flight st
    \<and> length (rt_running st) \<le> queue_concurrency
    \<and> rt_vacuum_active st = (Db_vacuum \<in> rt_in_flight st)
    \<and> (Db_vacuum \<notin> rt_in_flight st \<or> rt_in_flight st \<inter> set cdr_blocks_vacuum = {})"
  using calm_reachable_inv [OF assms] unfolding rt_inv_def by blast

lemma calm_example: "calm_reachable (fst (enqueue False (plain_input Db_vacuum) rt_initial))"
  by (rule calm_reachable.step [OF calm_reachable.init, of "Ev_enqueue False (plain_input Db_vacuum)"])
    (simp_all add: rt_step_enqueue no_rejection_pending_def rt_initial_def)

theorem calm_runtime_exclusive_witness:
  "rt_in_flight (fst (enqueue False (plain_input Db_vacuum) rt_initial)) \<inter> set cdr_blocks_vacuum = {}"
proof -
  have "Db_vacuum \<in> rt_in_flight (fst (enqueue False (plain_input Db_vacuum) rt_initial))"
    by (simp add: enqueue_def enqueue_refusal_def rt_initial_def plain_input_def supported_job_actions_def
        is_in_flight_def cdr_blocks_vacuum_def Let_def)
  then show ?thesis using calm_runtime_exclusive [OF calm_example] by blast
qed


text \<open>
  A request that is refused leaves the runtime as it was; one that is accepted was not in
  flight, sets its flag and is queued last.
\<close>

theorem enqueue_outcome:
  "case enqueue exporting input st of
     (st', Some reason) \<Rightarrow> st' = st \<and> enqueue_refusal exporting (ji_action input) st = Some reason
   | (st', None) \<Rightarrow> ji_action input \<notin> rt_in_flight st
       \<and> rt_in_flight st' = insert (ji_action input) (rt_in_flight st)
       \<and> rt_waiting st' = rt_waiting st @ [input] \<and> rt_running st' = rt_running st"
proof (cases "enqueue exporting input st")
  case (Pair st' r)
  show ?thesis
  proof (cases r)
    case None
    then show ?thesis using Pair enqueue_accepted [of exporting input st st'] refusal_None [of exporting "ji_action input" st]
      by simp
  next
    case (Some reason)
    then have "enqueue_refusal exporting (ji_action input) st = Some reason"
      using Pair by (auto simp: enqueue_def Let_def split: option.splits)
    then show ?thesis using Pair Some enqueue_refused by simp
  qed
qed

text \<open>
  After the runs of a dead process are reclaimed no run is left running, the count is the number
  of runs that were, and every run that had ended is unchanged.
\<close>

theorem reclaim_ends_all:
  "let (n, purges, runs') = reclaim_orphan_job_runs now runs in
     \<not> list_ex (\<lambda>r. run_status r = Job_running) runs'
     \<and> n = length (filter (\<lambda>r. run_status r = Job_running) runs)
     \<and> filter (\<lambda>r. run_status r \<noteq> Job_running) runs
       = map snd (filter (\<lambda>p. run_status (fst p) \<noteq> Job_running) (zip runs runs'))"
  by (induction runs) (auto simp: reclaim_orphan_job_runs_def split: prod.splits)

section \<open>The scheduler\<close>




text \<open>
  A catalog tick asks only for its own load, and only while no catalog load and no registration
  poll is in flight; the loop comes back after its period or after the short deferral.
\<close>

theorem catalog_tick_safe:
  "set (snd (tick_catalog kind env)) \<subseteq> {Request_job (catalog_action kind)}
   \<and> (snd (tick_catalog kind env) = []
      \<or> env_in_flight env \<inter> {Phones_sync, Groups_sync, Regs_poll} = {})
   \<and> fst (tick_catalog kind env) \<in> {export_defer_sec, catalog_period_sec kind}"
  by (auto simp: tick_catalog_def scheduled_catalog_tick_def catalog_delay_after_enqueue_def Let_def
      split: option.splits if_splits)

text \<open>
  The interval an administrator stores is never used below its floor of thirty seconds.
\<close>

theorem interval_floor: "30 \<le> clamp_schedule_interval raw fallback \<and> 15 \<le> sides_refresh_delay_sec a b n"
  by (auto simp: clamp_schedule_interval_def min_schedule_interval_sec_def sides_refresh_delay_sec_def
      first_sides_refresh_delay_sec_def)

end
