(* ===== verification/Civil_Properties.thy ===== *)
theory Civil_Properties
  imports Civil_Time
begin

text \<open>
  The properties of the civil clocks, the month keys and the load age.
\<close>

section \<open>Clocks\<close>

text \<open>
  C39: An instant printed as a civil clock and parsed again (\<open>parseNaiveDateTime\<close>) is the same
  second, for every year of four digits that does not start with a zero, with a blank or a \<open>T\<close>
  between day and time.
\<close>

theorem naive_clock_roundtrip:
  assumes "1000 \<le> c_year (civil_of_ms t)" and "c_year (civil_of_ms t) \<le> 9999"
    and "sep \<in> {CHR '' '', CHR ''T''}"
  shows "parse_naive_date_time date_parse (ymd_str (civil_of_ms t) @ [sep] @ hms_str (civil_of_ms t))
    = Some (t - t mod 1000)"
  using parse_naive_text [OF assms(1,2), of sep] assms(3) by blast

theorem naive_clock_roundtrip_witness:
  "parse_naive_date_time (\<lambda>_. None) (ymd_str (civil_of_ms 1700000000123) @ [CHR ''T''] @ hms_str (civil_of_ms 1700000000123))
   = Some 1700000000000"
proof -
  have "1000 \<le> c_year (civil_of_ms 1700000000123)" "c_year (civil_of_ms 1700000000123) \<le> 9999" by code_simp+
  from naive_clock_roundtrip [OF this, of "CHR ''T''" "\<lambda>_. None"] show ?thesis by simp
qed


section \<open>Months\<close>

text \<open>
  The key of a month of the years 2000 to 2100 parses to that month, and a key that parses names
  a month of those years and is kept as its own key.
\<close>

theorem month_key_roundtrip:
  assumes "2000 \<le> y" "y \<le> 2100" "1 \<le> m" "m \<le> 12"
  shows "parse_month_key (Some (month_key y m))
    = Some \<lparr>cm_year = y, cm_month = m, cm_key = month_key y m, cm_count = None\<rparr>"
  using assms by (rule parse_month_key_print)

theorem month_key_roundtrip_witness: "parse_month_key (Some (month_key 2026 2)) \<noteq> None"
  using month_key_roundtrip [of 2026 2] by simp

text \<open>
  Comparing two month keys as texts is comparing the months by year and month.
\<close>

theorem month_key_order:
  assumes "1000 \<le> y" "y \<le> 9999" "1000 \<le> y'" "y' \<le> 9999" "1 \<le> m" "m \<le> 12" "1 \<le> m'" "m' \<le> 12"
  shows "compare_month_key (month_key y m) (month_key y' m') < 0 \<longleftrightarrow> y < y' \<or> (y = y' \<and> m < m')"
  using month_key_less [OF assms] by (simp add: compare_month_key_def)

theorem month_key_order_witness: "compare_month_key (month_key 2025 12) (month_key 2026 2) < 0"
  using month_key_order [of 2025 2026 12 2] by simp

text \<open>
  The month a purge may take is the oldest one that has calls and is not the current month, and
  there is none only when no month qualifies.
\<close>

theorem purge_month_oldest:
  "case deletable_month_key months cur of
     None \<Rightarrow> \<not> list_ex (deletable cur) months
   | Some k \<Rightarrow> list_ex (\<lambda>m. deletable cur m \<and> cm_key m = k) months
       \<and> \<not> list_ex (\<lambda>m. deletable cur m \<and> cm_key m < k) months"
  using deletable_month_key_spec [of months cur]
  by (auto simp: list_ex_iff not_less split: option.splits)

section \<open>Load age\<close>

text \<open>
  The elapsed time shown is exact: the hours, minutes and seconds it prints add up to the whole
  seconds of the interval, with minutes and seconds below sixty.
\<close>

theorem elapsed_exact:
  "\<exists>h m s. h * 3600 + m * 60 + s = max 0 (ms div 1000) \<and> 0 \<le> h
    \<and> 0 \<le> m \<and> m < 60 \<and> 0 \<le> s \<and> s < 60
    \<and> format_elapsed ms = (if 0 < h then int_str h @ '':'' else []) @ pad2 m @ '':'' @ pad2 s"
proof -
  define total where "total = max 0 (ms div 1000)"
  have t: "0 \<le> total" by (simp add: total_def)
  have "format_elapsed ms = (if 0 < total div 3600 then int_str (total div 3600) @ '':'' else [])
      @ pad2 (total mod 3600 div 60) @ '':'' @ pad2 (total mod 60)"
    unfolding format_elapsed_def Let_def total_def [symmetric] by (simp only: append_Nil append_assoc split: if_split) blast
  moreover have "0 \<le> total div 3600" using t by (rule pos_imp_zdiv_nonneg_iff [THEN iffD2, rotated]) simp
  ultimately show ?thesis using elapsed_split [OF t] unfolding total_def [symmetric]
    by (intro exI [of _ "total div 3600"] exI [of _ "total mod 3600 div 60"] exI [of _ "total mod 60"]) simp
qed

end
