(* ===== verification/Purge_Properties.thy ===== *)
theory Purge_Properties
  imports Purge_Choice Purge_Effects
begin

text \<open>The properties of the purge of a month.\<close>

section \<open>Example worlds\<close>

definition april :: cdr_month where
  "april = \<lparr>cm_year = 2026, cm_month = 4, cm_key = ''2026-04'', cm_count = None\<rparr>"

definition april_call :: call_row where
  "april_call = \<lparr>cl_id = ''a'', cl_date = ''2026-04-01 10:00:00'', cl_day = ''2026-04-01''\<rparr>"

definition may_call :: call_row where
  "may_call = \<lparr>cl_id = ''b'', cl_date = ''2026-05-01 10:00:00'', cl_day = ''2026-05-01''\<rparr>"

definition padded_call :: call_row where
  "padded_call = \<lparr>cl_id = ''p'', cl_date = '' 2026-04-02 10:00:00'', cl_day = ''2026-04-02''\<rparr>"

definition example_world :: "fault list \<Rightarrow> call_row list \<Rightarrow> purge_world" where
  "example_world faults calls =
     \<lparr>pw_now = 1782000000000, pw_ticks = [], pw_faults = faults, pw_slot = empty_slot,
      pw_calls = calls, pw_journal = [], pw_smg = [], pw_cards = [], pw_syslog = [], pw_runs = [],
      pw_audit = [], pw_indexes = purge_fk_index_names, pw_poison = [], pw_smg_poison = [], pw_drains = [],
      pw_vacuum = False, pw_deleted = 0, pw_target_count = 0, pw_stages = (\<lambda>_. no_counts),
      pw_remainder = no_remainder\<rparr>"

lemma april_key: "parse_month_key (Some ''2026-04'') = Some april" and june_key: "cm_key (current_utc_month 1782000000000) = ''2026-06''"
  by code_simp+

lemma april_fields: "cm_key april = ''2026-04''" "cm_year april = 2026" "cm_month april = 4"
  by (simp_all add: april_def)

lemma april_rows:
  "call_in_month april april_call" "\<not> call_in_month april may_call" "\<not> call_in_month april padded_call"
  by code_simp+

lemma april_bounds:
  "utc_month_interval 2026 4 = (1775001600000, 1777593600000)" "month_key 2026 4 = ''2026-04''"
  "smg_month_day_range april = (''2026-04-01'', ''2026-05-01'')"
  by code_simp+

lemma june_bucket:
  "sb_year (bucket_of 1782000000000 0) = ''2026''" "sb_month (bucket_of 1782000000000 0) = ''06''"
  by code_simp+

lemma all_indexes: "missing_purge_fk_index_names purge_fk_index_names = []"
  by code_simp

lemmas example_facts = april_key june_key april_fields april_rows april_bounds june_bucket all_indexes

lemmas run_steps = process_cdr_purge_month_def with_finally_def caught_def calls_run_def deletable_gate_def
  calls_input_def and_then_def db_def read_clock_def pass_def change_def look_def throw_def refuse_def
  aim_at_def assert_purge_fk_indexes_def collect_month_trace_keys_def trace_page_def count_call_month_def
  count_smg_month_def count_month_history_def count_syslog_files_def count_trace_cards_def count_journal_month_def
  count_trace_delays_def start_stages_def audit_append_def publish_purge_progress_def while_rows_def call_turn_def
  not_current_def delete_call_batch.simps call_transaction_def transaction_def purge_delete_batch_def update_run_def
  note_batch_def put_done_def put_stage_def delete_month_remainder_def delete_journal_month_def delete_trace_cards_def
  delete_smg_month_def delete_turn_def purge_smg_batch_def delete_syslog_month_def delete_month_history_def
  purge_jobs_batch_def purge_audit_batch_def done_then_publish_def keep_remainder_def succeed_def finish_purge_def
  purge_finally_def hold_goes_def clear_flags_def release_hold_def end_row_def cards_progress_def syslog_progress_def
  started_row_def set_progress_def finish_row_def rows_left_def count_rows_def card_batches.simps
  cdr_purge_batch_size_def trace_page_size_def list_syslog_month_targets_def list_syslog_month_inventory_def
  clear_purge_continuation_flags_def flagged_purges_def continues_delete_def meta_field_def object_meta_def finish_meta_def
  clear_purge_holds_def clear_smg_purge_holds_def drop_entries_def fail_job_run_if_still_running_def
  run_in_month_def audit_in_month_def call_lock_attempts_def Let_def

lemma example_run:
  "\<exists>r w1. process_cdr_purge_month ''r1'' (calls_input ''2026-04'') (example_world [] [april_call, padded_call, may_call]) = (Done r, w1)
    \<and> \<not> pt_failed r"
  by (simp add: example_world_def run_steps example_facts)

lemma delete_some_replicate:
  "P x \<Longrightarrow> delete_some n P (replicate k x) = (min n k, replicate (k - n) x)"
proof (induction k arbitrary: n)
  case (Suc k)
  then show ?case by (cases n) simp_all
qed simp

lemma turns_numeral:
  "turns (numeral v) body acc w =
     (case body acc w of
        (Done None, w1) \<Rightarrow> (Done acc, w1)
      | (Done (Some acc1), w1) \<Rightarrow> turns (pred_numeral v) body acc1 w1
      | (Thrown e, w1) \<Rightarrow> (Thrown e, w1)
      | (Killed, w1) \<Rightarrow> (Killed, w1)
      | (Stuck, w1) \<Rightarrow> (Stuck, w1))"
  by (simp add: numeral_eq_Suc)

definition dying :: "fault list" where
  "dying = [Fine, Fine, Fine, Fine, Fine, Fine, Fine, Fine, Fine, Fine, Fine, Fine, Dies]"

lemma killed_run:
  "\<exists>w1. process_cdr_purge_month ''r1'' (calls_input ''2026-04'') (example_world dying (replicate 2001 april_call))
     = (Killed, w1) \<and> pw_calls w1 = [april_call]"
  by (simp add: example_world_def dying_def run_steps example_facts delete_some_replicate turns_numeral)

lemma example_ids: "ids_ok (pw_smg (example_world fs calls))"
  by (simp add: example_world_def ids_ok_def)

lemma april_input: "parse_month_key (ji_month (calls_input ''2026-04'')) = Some april"
  by (simp add: calls_input_def april_key)

section \<open>What a run deletes and what it leaves\<close>

text \<open>
  C1: Whatever happens to a purge (it returns, it throws, the database fails, the process dies), the
  calls, journal rows and SMG rows of other months are those of the start, the audit of other
  months is still there, and so are the job rows of other months, the cards of tags an SMG row of
  another month carries, and the syslog directories of other months.
\<close>

theorem purge_spares_other_months:
  assumes "parse_month_key (ji_month input) = Some m" and "ids_ok (pw_smg w)"
    and "process_cdr_purge_month rid input w = (res, w1)"
  shows "spared_rows m w w1 \<and> spared_rest m rid w w1"
proof -
  note t = tripleD [OF purge_triple [OF assms(1), of rid w "pw_smg w"], of w]
  have "spared m rid w w1"
    using t spared_refl [OF assms(2)] assms(3) by (cases res) blast+
  then show ?thesis by (simp add: spared_def)
qed

theorem purge_spares_other_months_witness:
  "\<exists>res w1. process_cdr_purge_month ''r1'' (calls_input ''2026-04'') (example_world dying (replicate 2001 april_call)) = (res, w1)
     \<and> spared_rows april (example_world dying (replicate 2001 april_call)) w1"
  using killed_run purge_spares_other_months [OF april_input example_ids] by blast



text \<open>
  C4: Every purge of a month ends: none of its loops goes on for ever, under any failures and any
  movement of the clock.
\<close>

theorem purge_ends:
  assumes "parse_month_key (ji_month input) = Some m" and "ids_ok (pw_smg w)"
  shows "fst (process_cdr_purge_month rid input w) \<noteq> Stuck"
  using tripleD(4) [OF purge_triple [OF assms(1), of rid w "pw_smg w"], of w] spared_refl [OF assms(2)]
  by (metis prod.collapse)

theorem purge_ends_witness:
  "fst (process_cdr_purge_month ''r1'' (calls_input ''2026-04'') (example_world dying (replicate 2001 april_call))) \<noteq> Stuck"
  by (rule purge_ends [OF april_input example_ids])

text \<open>
  C3: A purge of calls that ends or dies after it deleted some calls of its month, but not all, is
  found again: the next start of the server continues exactly this month, when no other purge runs
  or is flagged.
\<close>

theorem interrupted_purge_continues:
  assumes "parse_month_key (ji_month input) = Some m" and "ids_ok (pw_smg w)" and "\<not> ji_history_only input"
    and "lone_purge rid (pw_runs w)" and "rid \<notin> run_id ` set (pw_runs w)"
    and "process_cdr_purge_month rid input w = (res, w1)"
    and "call_count m w1 < call_count m w" and "0 < call_count m w1"
    and "cm_key (current_utc_month now) \<noteq> cm_key m"
  shows "fst (boot_purge now w1) = Some (calls_input (cm_key m))"
proof -
  have "unbegun w w" by (simp add: unbegun_def)
  note t = tripleD [OF restart_triple [OF assms(1,2,4,5)] this]
  have "unbegun w w1 \<or> restartable m rid input (other_tags m (pw_smg w)) (call_count m w) w1"
    using t assms(6) by (cases res) blast+
  moreover have "\<not> unbegun w w1" using assms(7) by (auto simp: unbegun_def call_count_def)
  moreover have "\<not> no_calls m w1" using assms(8) call_count_zero [of m w1] by simp
  ultimately have "restartable m rid input (other_tags m (pw_smg w)) (call_count m w) w1" by blast
  then show ?thesis
    by (rule restartable_selects [OF _ assms(3) \<open>\<not> no_calls m w1\<close> _ assms(9)]) (use assms(7) in simp)
qed

theorem interrupted_purge_continues_witness:
  "\<exists>w1. process_cdr_purge_month ''r1'' (calls_input ''2026-04'') (example_world dying (replicate 2001 april_call)) = (Killed, w1)
     \<and> fst (boot_purge 1782000000000 w1) = Some (calls_input ''2026-04'')"
proof -
  obtain w1 where run: "process_cdr_purge_month ''r1'' (calls_input ''2026-04'') (example_world dying (replicate 2001 april_call))
      = (Killed, w1)" and left: "pw_calls w1 = [april_call]"
    using killed_run by blast
  have "fst (boot_purge 1782000000000 w1) = Some (calls_input (cm_key april))"
  proof (rule interrupted_purge_continues [OF april_input example_ids _ _ _ run])
    show "call_count april w1 < call_count april (example_world dying (replicate 2001 april_call))" "0 < call_count april w1"
      by (simp_all add: left call_count_def count_rows_def april_rows example_world_def)
  qed (simp_all add: calls_input_def lone_purge_def example_world_def june_key april_fields)
  then show ?thesis using run by (auto simp: april_fields)
qed

section \<open>One batch, and the end of a run\<close>

text \<open>
  C19: A batch of calls is all or nothing, through every retry: when it returns a count, that many
  calls of the month are gone and the row of the purge carries the mark; when it returns zero, no
  call of the month is left; when it throws or the process dies, calls and job rows are unchanged.
\<close>

theorem call_batch_all_or_nothing:
  "case delete_call_batch attempt rid m deleted w of (res, w1) \<Rightarrow> batch_together rid m w res w1"
  using batch_all_or_nothing by (simp split: prod.split)

text \<open>
  C20: A batch that meets lock timeouts is tried again: up to 29 timeouts are hidden and the result is
  that of the transaction, and the thirtieth is thrown.
\<close>

theorem lock_timeouts_retried:
  assumes "is_purge_lock_timeout e"
  shows "delete_call_batch 1 rid m d (w\<lparr>pw_faults := replicate k (Faulty e)\<rparr>) =
    (if k < 30 then call_transaction rid m d (w\<lparr>pw_faults := []\<rparr>)
     else (Thrown e, w\<lparr>pw_faults := replicate (k - 30) (Faulty e)\<rparr>))"
proof (cases "k < 30")
  case True
  have "delete_call_batch 1 rid m d (w\<lparr>pw_faults := replicate k (Faulty e) @ []\<rparr>)
      = delete_call_batch (1 + k) rid m d (w\<lparr>pw_faults := []\<rparr>)"
    by (rule retries [OF assms]) (use True in \<open>simp_all add: call_lock_attempts_def\<close>)
  then show ?thesis using True last_try [of "w\<lparr>pw_faults := []\<rparr>"] by simp
next
  case False
  then have split: "replicate k (Faulty e) = replicate 29 (Faulty e) @ Faulty e # replicate (k - 30) (Faulty e)"
    by (simp flip: replicate_Suc replicate_add)
  have "delete_call_batch 1 rid m d (w\<lparr>pw_faults := replicate 29 (Faulty e) @ Faulty e # replicate (k - 30) (Faulty e)\<rparr>)
      = delete_call_batch (1 + 29) rid m d (w\<lparr>pw_faults := Faulty e # replicate (k - 30) (Faulty e)\<rparr>)"
    by (rule retries [OF assms]) (simp_all add: call_lock_attempts_def)
  then show ?thesis
    using False given_up [OF assms, where rid = rid and m = m and d = d and w = w] unfolding split by (simp add: call_lock_attempts_def)
qed

definition lock_timeout :: db_error where
  "lock_timeout = \<lparr>de_code = Some ''55P03'', de_meta_code = None, de_message = []\<rparr>"

theorem lock_timeouts_retried_witness:
  "fst (delete_call_batch 1 ''r1'' april 0 ((example_world [] [april_call])\<lparr>pw_faults := replicate 30 (Faulty lock_timeout)\<rparr>))
   = Thrown lock_timeout"
  by (subst lock_timeouts_retried) (simp_all add: is_purge_lock_timeout_def lock_timeout_def)

text \<open>
  C21: At the end of a run the hold goes with all held files of the month, and both imports are asked
  to drain, after a success whose flags were cleared and after a failure that deleted nothing (not
  of a continuation); in every other case the hold and the journals stay.
\<close>

theorem hold_after_run:
  assumes "purge_finally rid input succeeded (Some key) w = (Done (), w1)"
  shows "if hold_ends (ji_resume_calls input) succeeded w then holds_gone key w1 w else same_holds w1 w"
  by (rule finally_effect [OF assms])

theorem hold_after_run_witness:
  "\<exists>w1. purge_finally ''r1'' (calls_input ''2026-04'') True (Some ''2026-04'') (example_world [] []) = (Done (), w1)
     \<and> holds_gone ''2026-04'' w1 (example_world [] [])"
proof -
  obtain w1 where run: "purge_finally ''r1'' (calls_input ''2026-04'') True (Some ''2026-04'') (example_world [] []) = (Done (), w1)"
    by (simp add: run_steps example_world_def)
  have "hold_ends (ji_resume_calls (calls_input ''2026-04'')) True (example_world [] [])"
    by (simp add: hold_ends_def example_world_def)
  then show ?thesis using hold_after_run [OF run] run by auto
qed

text \<open>
  C30: A call whose date text starts with a blank is counted in its month by the trimmed day, but the
  deleting statement compares the untrimmed text: after any purge of the month it is still there, and
  the month is still listed with calls.
\<close>

theorem padded_call_survives:
  assumes "parse_month_key (ji_month input) = Some m" and "ids_ok (pw_smg w)"
    and "process_cdr_purge_month rid input w = (res, w1)"
    and "c \<in> set (pw_calls w)" and "cl_date c = CHR '' '' # d"
    and "known_day (cl_day c)" and "parse_month_key (Some (take 7 (cl_day c))) = Some m"
  shows "c \<in> set (pw_calls w1) \<and> (\<exists>n>0. m\<lparr>cm_count := Some n\<rparr> \<in> set (query_month_call_counts False (pw_calls w1)))"
proof -
  note t = tripleD [OF purge_triple [OF assms(1), of rid w "pw_smg w"], of w]
  have "spared m rid w w1"
    using t spared_refl [OF assms(2)] assms(3) by (cases res) blast+
  then have "filter (\<lambda>r. \<not> call_in_month m r) (pw_calls w1) = filter (\<lambda>r. \<not> call_in_month m r) (pw_calls w)"
    by (simp add: spared_def spared_rows_def)
  moreover have "c \<in> set (filter (\<lambda>r. \<not> call_in_month m r) (pw_calls w))"
    using assms(4) padded_date_unseen [OF assms(1,5)] by simp
  ultimately have "c \<in> set (filter (\<lambda>r. \<not> call_in_month m r) (pw_calls w1))" by simp
  then have "c \<in> set (pw_calls w1)" by simp
  then show ?thesis using month_listed [OF _ assms(6,7)] by simp
qed

theorem padded_call_survives_witness:
  "\<exists>r w1. process_cdr_purge_month ''r1'' (calls_input ''2026-04'') (example_world [] [april_call, padded_call, may_call])
       = (Done r, w1) \<and> \<not> pt_failed r \<and> padded_call \<in> set (pw_calls w1)"
proof -
  obtain r w1 where run: "process_cdr_purge_month ''r1'' (calls_input ''2026-04'') (example_world [] [april_call, padded_call, may_call])
      = (Done r, w1)" "\<not> pt_failed r"
    using example_run by blast
  have "padded_call \<in> set (pw_calls w1)
      \<and> (\<exists>n>0. april\<lparr>cm_count := Some n\<rparr> \<in> set (query_month_call_counts False (pw_calls w1)))"
  proof (rule padded_call_survives [OF april_input example_ids run(1)])
    show "cl_date padded_call = CHR '' '' # ''2026-04-02 10:00:00''" by (simp add: padded_call_def)
    show "known_day (cl_day padded_call)" by code_simp
    show "parse_month_key (Some (take 7 (cl_day padded_call))) = Some april" by (simp add: padded_call_def april_key)
  qed (simp add: example_world_def)
  then show ?thesis using run by blast
qed

section \<open>Held files\<close>

text \<open>
  C31: The journals of held files refine finite maps from file names: holding a file updates the map,
  clearing one removes it, and the release of a month keeps exactly the entries whose error does not
  hold the month.
\<close>

theorem journal_refines_map:
  assumes "journal_sound jm" and "f \<noteq> []"
  shows "journal_entries (mark_poisoned f t err b jm) = (journal_entries jm)(f \<mapsto> (t, err))
    \<and> journal_entries (clear_poison (Some f) jm) = (journal_entries jm)(f := None)
    \<and> journal_entries (snd (clear_purge_holds m jm)) =
        (\<lambda>g. case journal_entries jm g of None \<Rightarrow> None
              | Some (t, e) \<Rightarrow> if error_holds_month e m then None else Some (t, e))
    \<and> journal_sound (mark_poisoned f t err b jm) \<and> journal_sound (clear_poison (Some f) jm)
    \<and> journal_sound (snd (clear_purge_holds m jm))"
  using assms
  by (auto simp: journal_mark journal_drop clear_purge_holds_def clear_poison_def)
    (auto simp: journal_sound_def distinct_mark distinct_drop_entries journal_entries_def delete_conv' distinct_delete)

theorem journal_refines_map_witness:
  "journal_entries (clear_poison (Some ''a.csv'') [(''a.csv'', \<lparr>pe_mtime = 1, pe_error = [], pe_size = None\<rparr>)]) ''a.csv'' = None"
  using journal_refines_map [of "[(''a.csv'', \<lparr>pe_mtime = 1, pe_error = [], pe_size = None\<rparr>)]" "''a.csv''" 0 "[]" None "''2026-04''"]
  by (simp add: journal_sound_def)



section \<open>Restarts and the page\<close>


text \<open>
  C34: What a running purge publishes in the metadata of its row is read back as its month and the
  views of the published counts.
\<close>

theorem progress_roundtrip:
  assumes "parse_month_key (Some month) = Some m" and "\<And>s. 0 \<le> sc_done (stages s) \<and> 0 \<le> sc_total (stages s)"
  shows "purge_progress_from_job phones (progress_meta month phase stages)
    = Some (Stage_progress (cm_key m) (purge_stage_views stages phase))"
proof -
  have "read_stages (Some (stages_json stages)) = Some stages" using read_stages_json assms(2) by blast
  then show ?thesis
    using assms(1) read_phase_id
    by (simp add: purge_progress_from_job_def progress_meta_def meta_field_def object_meta_def)
qed

theorem progress_roundtrip_witness:
  "purge_progress_from_job None (progress_meta ''2026-04'' Stage_smg (\<lambda>_. no_counts))
   = Some (Stage_progress ''2026-04'' (purge_stage_views (\<lambda>_. no_counts) Stage_smg))"
  using progress_roundtrip [OF april_key, of "\<lambda>_. no_counts"] by (simp add: no_counts_def april_fields)

end
