(* ===== verification/Import_Properties.thy ===== *)
theory Import_Properties
  imports Import_Example Import_Taken Purge_Choice
begin

text \<open>The properties of the import of the dumps.\<close>

section \<open>Dumps and their calls\<close>

text \<open>
  C5: What the import takes from the inbox is stored: a dump that was removed with the time it was
  listed with has the header of the softswitch, every line of it is well formed, and every call of
  it is in the table. Uploads, a purge that moves, failures of the database and the death of the
  process may come at every await.
\<close>

theorem removed_dumps_stored:
  assumes "not_future w" and "iw_removed w = []" and "process_cdr_import dp job w = (res, w1)"
    and "((Cdr_inbox, name), df_mtime f, f) \<in> set (iw_removed w1)"
  shows "file_stored dp f w1"
proof -
  have "safe dp w" using assms(1,2) by (simp add: safe_def)
  then have "safe dp w1" by (rule keepsD [OF safe_process _ assms(3)])
  then show ?thesis using assms(4) by (auto simp: safe_def)
qed

lemma dump_taken:
  "\<exists>res w1. process_cdr_import no_date_parse ''j'' dump_waits = (res, w1)
    \<and> ((Cdr_inbox, dump_name), df_mtime dump, dump) \<in> set (iw_removed w1)"
proof -
  obtain res w1 where p: "process_cdr_import no_date_parse ''j'' dump_waits = (Done res, w1)" "data_files_gone w1"
    using calm_process [OF dump_waits_ready(1-4,6), of "''j''"] by blast
  have "kept_or_taken (Cdr_inbox, dump_name) dump dump_waits"
    using dump_waits_ready by (simp add: kept_or_taken_def no_uploads_def undisturbed_def)
  then have "kept_or_taken (Cdr_inbox, dump_name) dump w1" by (rule keepsD [OF kept.keeps_process _ p(1)])
  then show ?thesis using p dump_waits_ready(8) by (auto simp: kept_or_taken_def data_files_gone_def)
qed

theorem removed_dumps_stored_witness:
  "file_stored no_date_parse dump (snd (process_cdr_import no_date_parse ''j'' dump_waits))"
proof -
  obtain res w1 where w1: "process_cdr_import no_date_parse ''j'' dump_waits = (res, w1)"
    "((Cdr_inbox, dump_name), df_mtime dump, dump) \<in> set (iw_removed w1)"
    using dump_taken by blast
  show ?thesis using removed_dumps_stored [OF dump_waits_ready(2,5) w1] w1(1) by simp
qed

text \<open>
  C6: No dump is lost while nobody uploads: after every run, also one that fails or dies, a dump is in
  the inbox as it was, or all its calls are in the table.
\<close>

theorem no_dump_lost:
  assumes "not_future w" and "no_uploads w" and "iw_removed w = []"
    and "on_disk w (Cdr_inbox, name) = Some f" and "process_cdr_import dp job w = (res, w1)"
  shows "on_disk w1 (Cdr_inbox, name) = Some f \<or> file_stored dp f w1"
proof -
  have "kept_or_taken (Cdr_inbox, name) f w" using assms(1,2,4) by (simp add: kept_or_taken_def)
  then have "kept_or_taken (Cdr_inbox, name) f w1" by (rule keepsD [OF kept.keeps_process _ assms(5)])
  moreover have "safe dp w1"
    by (rule keepsD [OF safe_process _ assms(5)]) (use assms(1,3) in \<open>simp add: safe_def\<close>)
  ultimately show ?thesis by (auto simp: kept_or_taken_def safe_def)
qed

theorem no_dump_lost_witness:
  "on_disk (snd (process_cdr_import no_date_parse ''j'' (dump_waits\<lparr>iw_faults := [Fine, Fine, Fine, Dies]\<rparr>)))
      (Cdr_inbox, dump_name) = Some dump
   \<or> file_stored no_date_parse dump
        (snd (process_cdr_import no_date_parse ''j'' (dump_waits\<lparr>iw_faults := [Fine, Fine, Fine, Dies]\<rparr>)))"
proof (rule no_dump_lost)
  let ?w = "dump_waits\<lparr>iw_faults := [Fine, Fine, Fine, Dies]\<rparr>"
  show "not_future ?w" "no_uploads ?w" "iw_removed ?w = []" "on_disk ?w (Cdr_inbox, dump_name) = Some dump"
    using dump_waits_ready by (simp_all add: not_future_def on_disk_def no_uploads_def undisturbed_def)
  show "process_cdr_import no_date_parse ''j'' ?w = (fst (process_cdr_import no_date_parse ''j'' ?w),
      snd (process_cdr_import no_date_parse ''j'' ?w))" by simp
qed

text \<open>
  C7: An import that nothing disturbs does its work: when every dump of the inbox is complete, has the
  right header and only well-formed lines, and no purge is under way, the job succeeds, all calls of
  all dumps are in the table and the inbox is empty.
\<close>

theorem undisturbed_import:
  assumes "undisturbed w" and "not_future w" and "iw_target w = None" and "distinct (map fst (iw_disk w))"
    and "ready_inbox dp w"
  shows "\<exists>res w1. process_cdr_import dp job w = (Done res, w1) \<and> \<not> ij_failed res
    \<and> data_files_gone w1 \<and> files_stored dp w w1"
  using calm_process [OF assms] .

theorem undisturbed_import_witness:
  "\<exists>res w1. process_cdr_import no_date_parse ''j'' dump_waits = (Done res, w1) \<and> \<not> ij_failed res
    \<and> on_disk w1 (Cdr_inbox, dump_name) = None \<and> file_stored no_date_parse dump w1"
  using undisturbed_import [OF dump_waits_ready(1-4,6), of "''j''"] dump_waits_ready(7,8)
  by (fastforce simp: data_files_gone_def files_stored_def)

text \<open>
  C8: While a month is the target of a purge, the import adds no call of that month and removes none:
  the rows of the month are the same after the run, whatever fails and whatever is uploaded.
\<close>

theorem held_month_untouched:
  assumes "target_stays m w" and "process_cdr_import dp job w = (res, w1)"
  shows "month_rows m w1 = month_rows m w"
proof -
  have "barred m (month_rows m w) w" using assms(1) by (simp add: barred_def)
  then have "barred m (month_rows m w) w1" by (rule keepsD [OF barred.keeps_process _ assms(2)])
  then show ?thesis by (simp add: barred_def)
qed

theorem held_month_untouched_witness:
  "month_rows ''2024-01'' (snd (process_cdr_import no_date_parse ''j'' (dump_waits\<lparr>iw_target := Some ''2024-01''\<rparr>))) = {}"
proof -
  let ?w = "dump_waits\<lparr>iw_target := Some ''2024-01''\<rparr>"
  have "target_stays ''2024-01'' ?w" using dump_waits_ready(1) by (simp add: target_stays_def undisturbed_def)
  from held_month_untouched [OF this, of no_date_parse "''j''"] show ?thesis
    by (cases "process_cdr_import no_date_parse ''j'' ?w")
      (simp add: month_rows_def dump_waits_def import_example_def)
qed

text \<open>
  C9: The rows of the table keep their shape through every run: all the columns of the dump in order,
  the day and the time of the call, both present, and an id that is not blank.
\<close>

theorem stored_rows_typed:
  assumes "typed_rows w" and "process_cdr_import dp job w = (res, w1)"
  shows "typed_rows w1"
  using keepsD [OF typed.keeps_process assms] .

theorem stored_rows_typed_witness:
  "typed_rows (snd (process_cdr_import no_date_parse ''j'' dump_waits))"
proof -
  have "typed_rows dump_waits" by (simp add: typed_rows_def dump_waits_def import_example_def)
  from stored_rows_typed [OF this, of no_date_parse "''j''"] show ?thesis
    by (cases "process_cdr_import no_date_parse ''j'' dump_waits") simp
qed

section \<open>The job\<close>

text \<open>
  C10: Every import ends: no loop goes on for ever, under any failures, uploads and answers of the
  services.
\<close>

theorem import_ends: "fst (process_cdr_import dp job w) \<noteq> Stuck"
  using ends_process unfolding ends_def by blast

text \<open>
  C24: When an import returns, its row is no longer running and says what the import returned: the
  status, the error, and the three counts.
\<close>

theorem job_row_agrees:
  assumes "process_cdr_import dp job w = (Done res, w1)"
  shows "run_says job res w1"
  using process_says [OF assms] .

theorem job_row_agrees_witness:
  "\<exists>res w1. process_cdr_import no_date_parse ''j'' dump_waits = (Done res, w1) \<and> run_says ''j'' res w1"
proof -
  obtain res w1 where "process_cdr_import no_date_parse ''j'' dump_waits = (Done res, w1)"
    using calm_process [OF dump_waits_ready(1-4,6), of "''j''"] by blast
  from this job_row_agrees [OF this] show ?thesis by blast
qed

section \<open>Lines\<close>

text \<open>
  C28: A line that is written field by field in quotes, with the quotes inside doubled, is read back
  as the same fields.
\<close>

theorem fields_read_back:
  assumes "length fs = cdr_column_count"
  shows "dump_field_values (csv_line fs) = Some fs"
  using csv_line_values [OF assms] .

theorem fields_read_back_witness:
  "dump_field_values call_line = Some (call_fields ''7'' ''2024-01-02 03:04:05'')"
  using fields_read_back [OF call_fields_length [of "''7''" "''2024-01-02 03:04:05''"]] by (simp only: call_line_def)

text \<open>
  C26: Columns never move: the softswitch writes quotes inside a field as they are. A line of the right
  number of fields without semicolons in them is always read, and every value is in its column; only
  quotes may be missing in it.
\<close>

theorem columns_never_move:
  assumes "length fs = cdr_column_count" and "\<forall>f\<in>set fs. semicolon \<notin> set f"
  shows "\<exists>vs. dump_field_values (dump_line fs) = Some vs \<and> map no_quotes vs = map no_quotes fs"
  using dump_values [OF assms] .

theorem columns_never_move_witness:
  "\<exists>vs. dump_field_values (dump_line (replicate cdr_column_count [49, 34, 50])) = Some vs
    \<and> map no_quotes vs = replicate cdr_column_count [49, 50]"
proof -
  have "map no_quotes (replicate cdr_column_count [49, 34, 50]) = replicate cdr_column_count [49, 50]" by simp
  then show ?thesis
    using columns_never_move [of "replicate cdr_column_count [49, 34, 50]"] by simp
qed

text \<open>
  C27: The stored day and time of an accepted call are those of its stored instant, whatever form the
  date had.
\<close>

theorem accepted_clock:
  assumes "classify_cdr_data_line dp line = Line_ok row" and "pc_cdr_at row = Some t"
  shows "field ''cdrDay'' (pc_prisma row) = units (take 10 (iso_string t))
    \<and> field ''cdrTime'' (pc_prisma row) = units (slice 11 19 (iso_string t))"
proof -
  obtain vs where vs: "dump_field_values line = Some vs"
    using assms(1) by (auto simp: classify_cdr_data_line_def split: option.splits)
  let ?raw = "clock_part (field ''cdr_date'' (zip cdr_columns vs))" and ?prisma = "zip (map csv_header_to_camel cdr_columns) vs"
  have row: "pc_prisma row = ?prisma @ [(''cdrDay'', units (fst (split_cdr_date_parts ?raw))),
      (''cdrTime'', units (snd (split_cdr_date_parts ?raw)))]" "parse_cdr_date dp ?raw = Some t"
    using assms vs by (auto simp: classify_cdr_data_line_def Let_def split: if_splits)
  have names: "x \<in> set (map csv_header_to_camel cdr_columns)" if "x \<in> fst ` set ?prisma" for x
    using that by (auto dest: set_zip_leftD)
  have day: "''cdrDay'' \<notin> fst ` set ?prisma" using names camel_columns(2) by blast
  have time: "''cdrTime'' \<notin> fst ` set ?prisma" using names camel_columns(3) by blast
  show ?thesis
    unfolding row(1) field_append [OF day] field_append [OF time] accepted_clock_text [OF row(2)] prod.sel
    by (simp add: field_def)
qed

theorem accepted_clock_witness:
  "take 10 (iso_string 1704164645000) = ''2024-01-02''"
proof -
  have "field ''cdrDay'' (zip (map csv_header_to_camel cdr_columns) (call_fields ''7'' ''2024-01-02 03:04:05'')
      @ [(''cdrDay'', units ''2024-01-02''), (''cdrTime'', units ''03:04:05'')]) = units ''2024-01-02''"
    using camel_columns(2) by (subst field_append) (auto simp: field_def dest: set_zip_leftD)
  then show ?thesis using accepted_clock [OF call_classified] by simp
qed

section \<open>Holds\<close>

text \<open>A file with this error is offered again after the release of the month, whatever is deleted then.\<close>

definition freed :: "string \<Rightarrow> inbox_file \<Rightarrow> poison_map \<Rightarrow> text16 \<Rightarrow> string option \<Rightarrow> bool" where
  "freed m file jm err live =
     (\<not> is_poisoned live (if_name file) (if_mtime file) (Some (if_size file))
         (snd (clear_purge_holds m
           (mark_poisoned (if_name file) (if_mtime file) err (Some (if_size file)) jm))))"

lemma freed_error:
  assumes "journal_sound jm" and "error_holds_month err m"
  shows "freed m file jm err live"
proof -
  have "distinct (map fst (mark_poisoned (if_name file) (if_mtime file) err (Some (if_size file)) jm))"
    using assms(1) by (simp add: journal_sound_def distinct_mark)
  from drop_entries_lookup [OF this] show ?thesis
    using assms(2) by (simp add: freed_def is_poisoned_def clear_purge_holds_def mark_poisoned_def update_conv')
qed

lemma freed_embedded:
  assumes "journal_sound jm" and "fits month_pattern m" and "hold_boundary rest" and "err = a @ purge_hold_message m @ rest"
  shows "freed m file jm err live"
  unfolding assms(4) by (rule freed_error [OF assms(1) error_holds_embedded [OF assms(2,3)]])

lemma boundaries: "hold_boundary []" "hold_boundary (46 # u)" "hold_boundary (units '')'')" "hold_boundary (units '').'')"
  by (simp_all add: hold_boundary_def units_def)

text \<open>
  C25: Every sentence the import writes about a dump with held rows lets the dump go when the purge
  of the month ends: held as a whole, held besides bad lines, partly stored, or with the rows of
  other months stored.
\<close>

theorem hold_errors_released:
  assumes "fits month_pattern m" and "journal_sound jm" and "sn_held sn > 0 \<or> fl_held fl"
  shows "freed m file jm (purge_hold_message m) live
    \<and> (sn_held sn > 0 \<longrightarrow> freed m file jm (no_valid_text file sn (Some m)) live)
    \<and> (case fr_error (filled_result file sn fl (Some m) stats) of
         Some err \<Rightarrow> freed m file jm err live | None \<Rightarrow> False)"
proof (intro conjI impI)
  show "freed m file jm (purge_hold_message m) live"
    by (rule freed_embedded [OF assms(2,1) boundaries(1), of _ "[]"]) simp
  show "freed m file jm (no_valid_text file sn (Some m)) live" if "sn_held sn > 0"
  proof -
    have "\<exists>a. no_valid_text file sn (Some m) = a @ purge_hold_message m @ units '')''"
      using that unfolding no_valid_text_def held_rows_text_def Let_def option.case if_P [OF that] by (metis append_assoc)
    then show ?thesis using freed_embedded [OF assms(2,1) boundaries(3)] by blast
  qed
  show "case fr_error (filled_result file sn fl (Some m) stats) of
      Some err \<Rightarrow> freed m file jm err live | None \<Rightarrow> False"
  proof (cases "sn_bad sn > 0")
    case True
    have "\<exists>a b. partial_text file sn (fl_inserted fl) True (Some m) = a @ purge_hold_message m @ units '').'' @ b"
      unfolding partial_text_def Let_def option.case if_True by (metis append_assoc)
    then obtain a b where "partial_text file sn (fl_inserted fl) True (Some m) = a @ purge_hold_message m @ units '').'' @ b"
      by blast
    moreover have "hold_boundary (units '').'' @ b)" by (simp add: hold_boundary_def units_def)
    ultimately have "freed m file jm (partial_text file sn (fl_inserted fl) True (Some m)) live"
      using freed_embedded [OF assms(2,1)] by blast
    then show ?thesis using True assms(3) by (auto simp: filled_result_def Let_def)
  next
    case False
    have "freed m file jm (other_months_text file (fl_inserted fl) m) live"
      unfolding other_months_text_def
      by (rule freed_embedded [OF assms(2,1) boundaries(2), of _ "[]"]) (simp only: append_Nil append_Cons)
    then show ?thesis using False assms(3) by (auto simp: filled_result_def Let_def)
  qed
qed

theorem hold_errors_released_witness:
  "freed ''2026-04'' \<lparr>if_name = dump_name, if_size = 1, if_mtime = 2\<rparr> [] (purge_hold_message ''2026-04'') None"
proof -
  have "fits month_pattern ''2026-04''" by code_simp
  from hold_errors_released [OF this, of "[]" "scan_start\<lparr>sn_held := 1\<rparr>"] show ?thesis
    by (simp add: journal_sound_def)
qed

section \<open>The backfill\<close>










section \<open>A late upload\<close>

text \<open>
  C22: The last check and the removal are apart: an upload of the same name that starts in between is
  removed in place of the file that was read, and none of its calls is stored.
\<close>

theorem late_upload_lost:
  assumes "fr_error r = None" and "\<not> fr_leave r" and "iw_faults w = []"
    and "iw_events w = [Upload_opens (Cdr_inbox, if_name file), Upload_writes (Cdr_inbox, if_name file) n t] # es"
  shows "\<exists>g w1. settle_file file r w = (Done (), w1) \<and> df_text g = t \<and> on_disk w1 (Cdr_inbox, if_name file) = None
    \<and> ((Cdr_inbox, if_name file), if_mtime file, g) \<in> set (iw_removed w1) \<and> iw_calls w1 = iw_calls w"
proof -
  let ?p = "(Cdr_inbox, if_name file)"
  let ?w = "w\<lparr>iw_poison := clear_poison (Some (if_name file)) (iw_poison w)\<rparr>"
  let ?u = "fold interfere [Upload_opens ?p, Upload_writes ?p n t] (?w\<lparr>iw_events := es\<rparr>)"
  have u: "iw_faults ?u = []" "iw_calls ?u = iw_calls w"
    "map_of (iw_disk ?u) ?p = Some \<lparr>df_regular = True, df_size = int n, df_mtime = iw_now w + 2, df_text = t\<rparr>"
    using assms(3)
    by (simp_all add: put_file_def Let_def begin_stor_def is_stor_busy_def update_conv')
  have "await ?w = (Done (), ?u)" using assms(4) by (simp add: await_def)
  then obtain u where a: "await ?w = (Done (), u)" and u: "iw_faults u = []" "iw_calls u = iw_calls w"
    "map_of (iw_disk u) ?p = Some \<lparr>df_regular = True, df_size = int n, df_mtime = iw_now w + 2, df_text = t\<rparr>"
    using u by metis
  show ?thesis
    using assms(1,2) a u
    by (simp add: settle_file_def and_then_def change_def remove_file_def io_def on_disk_def delete_conv') force
qed

theorem late_upload_lost_witness:
  "\<exists>g w1. settle_file \<lparr>if_name = dump_name, if_size = 4000, if_mtime = 1000\<rparr>
        (empty_result \<lparr>if_name = dump_name, if_size = 4000, if_mtime = 1000\<rparr>)
        (dump_waits\<lparr>iw_events := [[Upload_opens (Cdr_inbox, dump_name), Upload_writes (Cdr_inbox, dump_name) 5 [49]]]\<rparr>)
        = (Done (), w1) \<and> ((Cdr_inbox, dump_name), 1000, g) \<in> set (iw_removed w1) \<and> df_text g = [49]"
  using late_upload_lost [of "empty_result \<lparr>if_name = dump_name, if_size = 4000, if_mtime = 1000\<rparr>"
      "dump_waits\<lparr>iw_events := [[Upload_opens (Cdr_inbox, dump_name), Upload_writes (Cdr_inbox, dump_name) 5 [49]]]\<rparr>"
      "\<lparr>if_name = dump_name, if_size = 4000, if_mtime = 1000\<rparr>" 5 "[49]" "[]"] dump_waits_ready(1)
  by (auto simp: empty_result_def undisturbed_def)

end
